theory Spec2Isabelle
  imports Complex_Main "HOL-Library.Sublist"
begin

section \<open>Strings and numbers\<close>

text \<open>
  JavaScript strings are modelled as \<open>string\<close> (a list of 8-bit characters, the UTF-8
  encoding of the text).  Every needle the program searches for with \<open>includes\<close> is either
  ASCII or a whole non-ASCII word, and no byte of the encoding of a non-ASCII character is an
  ASCII byte, so the search on the encoding agrees with the search on the text.
\<close>

text \<open>\<open>s.includes(t)\<close>: \<open>t\<close> occurs in \<open>s\<close> as a contiguous run.\<close>

fun str_includes :: "string \<Rightarrow> string \<Rightarrow> bool" where
  "str_includes [] t = (t = [])"
| "str_includes (c # cs) t = (prefix t (c # cs) \<or> str_includes cs t)"

text \<open>\<open>s.startsWith(t)\<close>.\<close>

definition startsWith :: "string \<Rightarrow> string \<Rightarrow> bool" where
  "startsWith s t = prefix t s"

text \<open>\<open>s.toLowerCase()\<close> on the ASCII letters; the other bytes have no case.\<close>

definition lower_char :: "char \<Rightarrow> char" where
  "lower_char c =
     (case map_of (zip ''ABCDEFGHIJKLMNOPQRSTUVWXYZ'' ''abcdefghijklmnopqrstuvwxyz'') c of
        Some l \<Rightarrow> l
      | None \<Rightarrow> c)"

definition toLowerCase :: "string \<Rightarrow> string" where
  "toLowerCase s = map lower_char s"

text \<open>\<open>xs.some(p)\<close>.\<close>

definition some :: "('a \<Rightarrow> bool) \<Rightarrow> 'a list \<Rightarrow> bool" where
  "some p xs = list_ex p xs"

text \<open>A template literal \<open>${n}\<close> of an integer: its decimal digits.\<close>

fun show_nat :: "nat \<Rightarrow> string" where
  "show_nat n =
     (if n < 10 then [''0123456789'' ! n]
      else show_nat (n div 10) @ [''0123456789'' ! (n mod 10)])"

declare show_nat.simps [simp del]

definition show_int :: "int \<Rightarrow> string" where
  "show_int i = (if i < 0 then ''-'' @ show_nat (nat (- i)) else show_nat (nat i))"

section \<open>Errors\<close>

text \<open>
  A thrown value is an \<open>Error\<close> object.  The fields are the properties the program reads:
  \<open>name\<close>, \<open>message\<close>, the \<open>statusCode\<close> that \<open>enhancedFetch\<close> attaches to an HTTP error,
  \<open>response.status\<close> (read by \<open>fetchUserVideoPage\<close>), and the three fields of a
  \<open>DownloadError\<close> (\<open>dl = None\<close> when the error is not an instance of that class).
\<close>

record download_info =
  code :: string
  retryable :: bool
  dl_url :: string

record js_error =
  name :: string
  message :: string
  statusCode :: "int option"
  response_status :: "int option"
  dl :: "download_info option"

text \<open>\<open>new Error(msg)\<close>.\<close>

definition Error :: "string \<Rightarrow> js_error" where
  "Error msg =
     \<lparr> name = ''Error'', message = msg, statusCode = None, response_status = None,
       dl = None \<rparr>"

text \<open>\<open>new DownloadError(message, url, code, retryable)\<close> of src/download/error-handler.ts.\<close>

definition DownloadError :: "string \<Rightarrow> string \<Rightarrow> string \<Rightarrow> bool \<Rightarrow> js_error" where
  "DownloadError msg url c r =
     \<lparr> name = ''DownloadError'', message = msg, statusCode = None, response_status = None,
       dl = Some \<lparr> code = c, retryable = r, dl_url = url \<rparr> \<rparr>"

text \<open>The message texts of the program that are not ASCII, as their UTF-8 bytes.\<close>

text \<open>the head of enhancedFetch's message for a non-2xx status.\<close>

definition MSG_HTTP_ERROR :: string where
  "MSG_HTTP_ERROR =
     ''HTTP '' @ [CHR 0xE9, CHR 0x8C, CHR 0xAF, CHR 0xE8, CHR 0xAA, CHR 0xA4] @ '' ''"

text \<open>fetchWithRetry, after its loop.\<close>

definition MSG_RETRY_FAILED :: string where
  "MSG_RETRY_FAILED =
     [CHR 0xE9, CHR 0x87, CHR 0x8D, CHR 0xE8, CHR 0xA9, CHR 0xA6, CHR 0xE5, CHR 0xA4,
     CHR 0xB1, CHR 0xE6, CHR 0x95, CHR 0x97]"

text \<open>enhancedFetch, after its loop.\<close>

definition MSG_MAX_RETRIES :: string where
  "MSG_MAX_RETRIES =
     [CHR 0xE8, CHR 0xAB, CHR 0x8B, CHR 0xE6, CHR 0xB1, CHR 0x82, CHR 0xE5, CHR 0xA4,
     CHR 0xB1, CHR 0xE6, CHR 0x95, CHR 0x97, CHR 0xEF, CHR 0xBC, CHR 0x8C, CHR 0xE9,
     CHR 0x81, CHR 0x94, CHR 0xE5, CHR 0x88, CHR 0xB0, CHR 0xE6, CHR 0x9C, CHR 0x80,
     CHR 0xE5, CHR 0xA4, CHR 0xA7, CHR 0xE9, CHR 0x87, CHR 0x8D, CHR 0xE8, CHR 0xA9,
     CHR 0xA6, CHR 0xE6, CHR 0xAC, CHR 0xA1, CHR 0xE6, CHR 0x95, CHR 0xB8]"

text \<open>fetchUserVideoPage, malformed response.\<close>

definition MSG_FORMAT :: string where
  "MSG_FORMAT =
     [CHR 0xE7, CHR 0x8D, CHR 0xB2, CHR 0xE5, CHR 0x8F, CHR 0x96, CHR 0xE7, CHR 0x94,
     CHR 0xA8, CHR 0xE6, CHR 0x88, CHR 0xB6, CHR 0xE5, CHR 0xBD, CHR 0xB1, CHR 0xE7,
     CHR 0x89, CHR 0x87, CHR 0xE5, CHR 0x88, CHR 0x97, CHR 0xE8, CHR 0xA1, CHR 0xA8,
     CHR 0xE5, CHR 0xA4, CHR 0xB1, CHR 0xE6, CHR 0x95, CHR 0x97, CHR 0xEF, CHR 0xBC,
     CHR 0x8C, CHR 0xE9, CHR 0x9F, CHR 0xBF, CHR 0xE6, CHR 0x87, CHR 0x89, CHR 0xE6,
     CHR 0x95, CHR 0xB8, CHR 0xE6, CHR 0x93, CHR 0x9A, CHR 0xE6, CHR 0xA0, CHR 0xBC,
     CHR 0xE5, CHR 0xBC, CHR 0x8F, CHR 0xE7, CHR 0x95, CHR 0xB0, CHR 0xE5, CHR 0xB8,
     CHR 0xB8]"

text \<open>fetchUserVideoPage, status_code set.\<close>

definition MSG_STATUS_HEAD :: string where
  "MSG_STATUS_HEAD =
     [CHR 0xE7, CHR 0x8D, CHR 0xB2, CHR 0xE5, CHR 0x8F, CHR 0x96, CHR 0xE7, CHR 0x94,
     CHR 0xA8, CHR 0xE6, CHR 0x88, CHR 0xB6, CHR 0xE5, CHR 0xBD, CHR 0xB1, CHR 0xE7,
     CHR 0x89, CHR 0x87, CHR 0xE5, CHR 0xA4, CHR 0xB1, CHR 0xE6, CHR 0x95, CHR 0x97,
     CHR 0xEF, CHR 0xBC, CHR 0x8C, CHR 0xE7, CHR 0x8B, CHR 0x80, CHR 0xE6, CHR 0x85,
     CHR 0x8B, CHR 0xE7, CHR 0xA2, CHR 0xBC] @ '': ''"

definition MSG_STATUS_INFO :: string where
  "MSG_STATUS_INFO =
     '', '' @ [CHR 0xE4, CHR 0xBF, CHR 0xA1, CHR 0xE6, CHR 0x81, CHR 0xAF] @ '': ''"

definition MSG_UNKNOWN_ERROR :: string where
  "MSG_UNKNOWN_ERROR =
     [CHR 0xE6, CHR 0x9C, CHR 0xAA, CHR 0xE7, CHR 0x9F, CHR 0xA5, CHR 0xE9, CHR 0x8C,
     CHR 0xAF, CHR 0xE8, CHR 0xAA, CHR 0xA4]"

text \<open>fetchUserVideos, empty cookie.\<close>

definition MSG_NEED_COOKIE :: string where
  "MSG_NEED_COOKIE =
     [CHR 0xE9, CHR 0x9C, CHR 0x80, CHR 0xE8, CHR 0xA6, CHR 0x81, CHR 0xE6, CHR 0x9C,
     CHR 0x89, CHR 0xE6, CHR 0x95, CHR 0x88, CHR 0xE7, CHR 0x9A, CHR 0x84, CHR 0xE6,
     CHR 0x8A, CHR 0x96, CHR 0xE9, CHR 0x9F, CHR 0xB3] @ '' Cookie '' @ [CHR 0xE6, CHR 0x89,
     CHR 0x8D, CHR 0xE8, CHR 0x83, CHR 0xBD, CHR 0xE7, CHR 0x8D, CHR 0xB2, CHR 0xE5,
     CHR 0x8F, CHR 0x96, CHR 0xE7, CHR 0x94, CHR 0xA8, CHR 0xE6, CHR 0x88, CHR 0xB6,
     CHR 0xE5, CHR 0xBD, CHR 0xB1, CHR 0xE7, CHR 0x89, CHR 0x87]"

text \<open>fetchUserVideos, no user id.\<close>

definition MSG_NO_USER_ID :: string where
  "MSG_NO_USER_ID =
     [CHR 0xE7, CHR 0x84, CHR 0xA1, CHR 0xE6, CHR 0xB3, CHR 0x95, CHR 0xE5, CHR 0xBE,
     CHR 0x9E] @ '' URL '' @ [CHR 0xE6, CHR 0x8F, CHR 0x90, CHR 0xE5, CHR 0x8F, CHR 0x96,
     CHR 0xE7, CHR 0x94, CHR 0xA8, CHR 0xE6, CHR 0x88, CHR 0xB6] @ '' ID: ''"

definition MSG_UNKNOWN_AUTHOR :: string where
  "MSG_UNKNOWN_AUTHOR =
     [CHR 0xE6, CHR 0x9C, CHR 0xAA, CHR 0xE7, CHR 0x9F, CHR 0xA5, CHR 0xE4, CHR 0xBD,
     CHR 0x9C, CHR 0xE8, CHR 0x80, CHR 0x85]"

text \<open>handleDouyinApiError.\<close>

definition MSG_COOKIE_EXPIRED :: string where
  "MSG_COOKIE_EXPIRED =
     [CHR 0xE6, CHR 0x8A, CHR 0x96, CHR 0xE9, CHR 0x9F, CHR 0xB3] @ '' Cookie '' @
     [CHR 0xE5, CHR 0xB7, CHR 0xB2, CHR 0xE5, CHR 0xA4, CHR 0xB1, CHR 0xE6, CHR 0x95,
     CHR 0x88, CHR 0xEF, CHR 0xBC, CHR 0x8C, CHR 0xE8, CHR 0xAB, CHR 0x8B, CHR 0xE9,
     CHR 0x87, CHR 0x8D, CHR 0xE6, CHR 0x96, CHR 0xB0, CHR 0xE7, CHR 0x99, CHR 0xBB,
     CHR 0xE5, CHR 0x85, CHR 0xA5]"

text \<open>the non-ASCII needle of handleDouyinApiError.\<close>

definition CAPTCHA_WORD :: string where
  "CAPTCHA_WORD =
     [CHR 0xE4, CHR 0xBA, CHR 0xBA, CHR 0xE6, CHR 0xA9, CHR 0x9F, CHR 0xE9, CHR 0xA9,
     CHR 0x97, CHR 0xE8, CHR 0xAD, CHR 0x89]"

definition MSG_CAPTCHA :: string where
  "MSG_CAPTCHA =
     [CHR 0xE9, CHR 0x81, CHR 0x87, CHR 0xE5, CHR 0x88, CHR 0xB0, CHR 0xE6, CHR 0x8A,
     CHR 0x96, CHR 0xE9, CHR 0x9F, CHR 0xB3, CHR 0xE4, CHR 0xBA, CHR 0xBA, CHR 0xE6,
     CHR 0xA9, CHR 0x9F, CHR 0xE9, CHR 0xA9, CHR 0x97, CHR 0xE8, CHR 0xAD, CHR 0x89,
     CHR 0xEF, CHR 0xBC, CHR 0x8C, CHR 0xE8, CHR 0xAB, CHR 0x8B, CHR 0xE7, CHR 0xA8,
     CHR 0x8D, CHR 0xE5, CHR 0xBE, CHR 0x8C, CHR 0xE5, CHR 0x86, CHR 0x8D, CHR 0xE8,
     CHR 0xA9, CHR 0xA6, CHR 0xE6, CHR 0x88, CHR 0x96, CHR 0xE6, CHR 0x9B, CHR 0xB4,
     CHR 0xE6, CHR 0x96, CHR 0xB0] @ '' Cookie''"

definition MSG_RATE_LIMITED :: string where
  "MSG_RATE_LIMITED =
     [CHR 0xE8, CHR 0xAB, CHR 0x8B, CHR 0xE6, CHR 0xB1, CHR 0x82, CHR 0xE9, CHR 0xA0,
     CHR 0xBB, CHR 0xE7, CHR 0x8E, CHR 0x87, CHR 0xE9, CHR 0x81, CHR 0x8E, CHR 0xE9,
     CHR 0xAB, CHR 0x98, CHR 0xEF, CHR 0xBC, CHR 0x8C, CHR 0xE5, CHR 0xB7, CHR 0xB2,
     CHR 0xE8, CHR 0xA2, CHR 0xAB, CHR 0xE6, CHR 0x8A, CHR 0x96, CHR 0xE9, CHR 0x9F,
     CHR 0xB3, CHR 0xE9, CHR 0x99, CHR 0x90, CHR 0xE5, CHR 0x88, CHR 0xB6, CHR 0xEF,
     CHR 0xBC, CHR 0x8C, CHR 0xE8, CHR 0xAB, CHR 0x8B, CHR 0xE7, CHR 0xA8, CHR 0x8D,
     CHR 0xE5, CHR 0xBE, CHR 0x8C, CHR 0xE5, CHR 0x86, CHR 0x8D, CHR 0xE8, CHR 0xA9,
     CHR 0xA6]"

definition MSG_NOT_FOUND :: string where
  "MSG_NOT_FOUND =
     [CHR 0xE5, CHR 0xBD, CHR 0xB1, CHR 0xE7, CHR 0x89, CHR 0x87, CHR 0xE4, CHR 0xB8,
     CHR 0x8D, CHR 0xE5, CHR 0xAD, CHR 0x98, CHR 0xE5, CHR 0x9C, CHR 0xA8, CHR 0xE6,
     CHR 0x88, CHR 0x96, CHR 0xE5, CHR 0xB7, CHR 0xB2, CHR 0xE8, CHR 0xA2, CHR 0xAB,
     CHR 0xE5, CHR 0x88, CHR 0xAA, CHR 0xE9, CHR 0x99, CHR 0xA4]"

text \<open>downloadVideo, no play URL: head.\<close>

definition MSG_VIDEO :: string where
  "MSG_VIDEO =
     [CHR 0xE5, CHR 0xBD, CHR 0xB1, CHR 0xE7, CHR 0x89, CHR 0x87] @ '' ''"

text \<open>downloadVideo, no play URL: tail.\<close>

definition MSG_NO_PLAY_URL :: string where
  "MSG_NO_PLAY_URL =
     '' '' @ [CHR 0xE7, CHR 0x84, CHR 0xA1, CHR 0xE6, CHR 0x9C, CHR 0x89, CHR 0xE6,
     CHR 0x95, CHR 0x88, CHR 0xE7, CHR 0x9A, CHR 0x84, CHR 0xE6, CHR 0x92, CHR 0xAD,
     CHR 0xE6, CHR 0x94, CHR 0xBE] @ '' URL''"

text \<open>downloadFile, response not ok.\<close>

definition MSG_DOWNLOAD_STATUS :: string where
  "MSG_DOWNLOAD_STATUS =
     [CHR 0xE4, CHR 0xB8, CHR 0x8B, CHR 0xE8, CHR 0xBC, CHR 0x89, CHR 0xE5, CHR 0xA4,
     CHR 0xB1, CHR 0xE6, CHR 0x95, CHR 0x97] @ '': ''"

text \<open>downloadFile, the error it throws.\<close>

definition MSG_DOWNLOAD_FILE :: string where
  "MSG_DOWNLOAD_FILE =
     [CHR 0xE4, CHR 0xB8, CHR 0x8B, CHR 0xE8, CHR 0xBC, CHR 0x89, CHR 0xE6, CHR 0xAA,
     CHR 0x94, CHR 0xE6, CHR 0xA1, CHR 0x88, CHR 0xE5, CHR 0xA4, CHR 0xB1, CHR 0xE6,
     CHR 0x95, CHR 0x97] @ '': ''"

text \<open>ensureDirectoryExists.\<close>

definition MSG_MKDIR :: string where
  "MSG_MKDIR =
     [CHR 0xE7, CHR 0x84, CHR 0xA1, CHR 0xE6, CHR 0xB3, CHR 0x95, CHR 0xE5, CHR 0x89,
     CHR 0xB5, CHR 0xE5, CHR 0xBB, CHR 0xBA, CHR 0xE7, CHR 0x9B, CHR 0xAE, CHR 0xE9,
     CHR 0x8C, CHR 0x84] @ '' ''"

text \<open>getDownloadErrorMessage.\<close>

definition MSG_DL_TIMEOUT :: string where
  "MSG_DL_TIMEOUT =
     [CHR 0xE4, CHR 0xB8, CHR 0x8B, CHR 0xE8, CHR 0xBC, CHR 0x89, CHR 0xE8, CHR 0xB6,
     CHR 0x85, CHR 0xE6, CHR 0x99, CHR 0x82, CHR 0xEF, CHR 0xBC, CHR 0x8C, CHR 0xE8,
     CHR 0xAB, CHR 0x8B, CHR 0xE6, CHR 0xAA, CHR 0xA2, CHR 0xE6, CHR 0x9F, CHR 0xA5,
     CHR 0xE7, CHR 0xB6, CHR 0xB2, CHR 0xE7, CHR 0xB5, CHR 0xA1, CHR 0xE9, CHR 0x80,
     CHR 0xA3, CHR 0xE6, CHR 0x8E, CHR 0xA5, CHR 0xE6, CHR 0x88, CHR 0x96, CHR 0xE7,
     CHR 0xA8, CHR 0x8D, CHR 0xE5, CHR 0xBE, CHR 0x8C, CHR 0xE5, CHR 0x86, CHR 0x8D,
     CHR 0xE8, CHR 0xA9, CHR 0xA6]"

definition MSG_DL_404 :: string where
  "MSG_DL_404 =
     [CHR 0xE5, CHR 0xBD, CHR 0xB1, CHR 0xE7, CHR 0x89, CHR 0x87, CHR 0xE8, CHR 0xB3,
     CHR 0x87, CHR 0xE6, CHR 0xBA, CHR 0x90, CHR 0xE4, CHR 0xB8, CHR 0x8D, CHR 0xE5,
     CHR 0xAD, CHR 0x98, CHR 0xE5, CHR 0x9C, CHR 0xA8, CHR 0xE6, CHR 0x88, CHR 0x96,
     CHR 0xE5, CHR 0xB7, CHR 0xB2, CHR 0xE8, CHR 0xA2, CHR 0xAB, CHR 0xE7, CHR 0xA7,
     CHR 0xBB, CHR 0xE9, CHR 0x99, CHR 0xA4]"

definition MSG_DL_403 :: string where
  "MSG_DL_403 =
     [CHR 0xE7, CHR 0x84, CHR 0xA1, CHR 0xE6, CHR 0xAC, CHR 0x8A, CHR 0xE8, CHR 0xA8,
     CHR 0xAA, CHR 0xE5, CHR 0x95, CHR 0x8F, CHR 0xE6, CHR 0xAD, CHR 0xA4, CHR 0xE5,
     CHR 0xBD, CHR 0xB1, CHR 0xE7, CHR 0x89, CHR 0x87, CHR 0xE8, CHR 0xB3, CHR 0x87,
     CHR 0xE6, CHR 0xBA, CHR 0x90, CHR 0xEF, CHR 0xBC, CHR 0x8C, CHR 0xE5, CHR 0x8F,
     CHR 0xAF, CHR 0xE8, CHR 0x83, CHR 0xBD, CHR 0xE9, CHR 0x9C, CHR 0x80, CHR 0xE8,
     CHR 0xA6, CHR 0x81, CHR 0xE7, CHR 0x99, CHR 0xBB, CHR 0xE5, CHR 0x85, CHR 0xA5,
     CHR 0xE6, CHR 0x88, CHR 0x96, CHR 0xE6, CHR 0xAC, CHR 0x8A, CHR 0xE9, CHR 0x99,
     CHR 0x90]"

definition MSG_DL_429 :: string where
  "MSG_DL_429 =
     [CHR 0xE4, CHR 0xB8, CHR 0x8B, CHR 0xE8, CHR 0xBC, CHR 0x89, CHR 0xE8, CHR 0xAB,
     CHR 0x8B, CHR 0xE6, CHR 0xB1, CHR 0x82, CHR 0xE9, CHR 0x81, CHR 0x8E, CHR 0xE6,
     CHR 0x96, CHR 0xBC, CHR 0xE9, CHR 0xA0, CHR 0xBB, CHR 0xE7, CHR 0xB9, CHR 0x81,
     CHR 0xEF, CHR 0xBC, CHR 0x8C, CHR 0xE8, CHR 0xAB, CHR 0x8B, CHR 0xE7, CHR 0xA8,
     CHR 0x8D, CHR 0xE5, CHR 0xBE, CHR 0x8C, CHR 0xE5, CHR 0x86, CHR 0x8D, CHR 0xE8,
     CHR 0xA9, CHR 0xA6]"

definition MSG_DL_OTHER :: string where
  "MSG_DL_OTHER =
     [CHR 0xE4, CHR 0xB8, CHR 0x8B, CHR 0xE8, CHR 0xBC, CHR 0x89, CHR 0xE5, CHR 0xBD,
     CHR 0xB1, CHR 0xE7, CHR 0x89, CHR 0x87, CHR 0xE6, CHR 0x99, CHR 0x82, CHR 0xE7,
     CHR 0x99, CHR 0xBC, CHR 0xE7, CHR 0x94, CHR 0x9F, CHR 0xE9, CHR 0x8C, CHR 0xAF,
     CHR 0xE8, CHR 0xAA, CHR 0xA4] @ '': ''"
section \<open>src/utils/retry.ts\<close>

text \<open>
  An asynchronous operation is a function from the state of the world to its outcome and
  the new state: \<open>Inl\<close> is a rejected promise (a thrown error), \<open>Inr\<close> a resolved one.
  Waiting (\<open>await delay(ms)\<close>) changes nothing the model observes.
\<close>

type_synonym ('w, 'a) async = "'w \<Rightarrow> (js_error + 'a) \<times> 'w"

subsection \<open>calculateDelay\<close>

text \<open>
  Numbers are IEEE doubles in the program; the delay formula is modelled over the reals.
  \<open>Math.random()\<close> is the parameter \<open>rnd\<close>, a number in \<open>[0, 1)\<close>.  \<open>Math.pow(factor,
  attempt - 1)\<close> is \<open>powi\<close>, the power with an integer exponent.
\<close>

record RetryDelays =
  minDelay :: real
  maxDelay :: real
  factor :: real

definition calculateDelay :: "int \<Rightarrow> 'x RetryDelays_scheme \<Rightarrow> real \<Rightarrow> real" where
  "calculateDelay attempt options rnd =
     (let delay = minDelay options * (factor options powi (attempt - 1));
          delay = delay * (0.8 + rnd * 0.4)
      in min delay (maxDelay options))"

subsection \<open>withRetry\<close>

text \<open>
  \<open>RetryOptions\<close> after the defaults have been merged in.  \<open>onRetry\<close> is an observer: it
  may change the state of the world and returns nothing.
\<close>

record 'w RetryOptions = RetryDelays +
  retries :: int
  onRetry :: "js_error \<Rightarrow> int \<Rightarrow> 'w \<Rightarrow> 'w"
  shouldRetry :: "js_error \<Rightarrow> bool"

text \<open>
  \<open>DEFAULT_RETRY_OPTIONS\<close>: the default \<open>onRetry\<close> writes a debug line, the default
  \<open>shouldRetry\<close> retries every error.
\<close>

definition DEFAULT_RETRY_OPTIONS :: "'w RetryOptions" where
  "DEFAULT_RETRY_OPTIONS =
     \<lparr> minDelay = 1000, maxDelay = 30000, factor = 2,
       retries = 3, onRetry = (\<lambda>error attempt w. w), shouldRetry = (\<lambda>error. True) \<rparr>"

text \<open>
  The \<open>while (attempt <= retries)\<close> loop, with \<open>attempt\<close> and \<open>lastError\<close> as its
  variables.  The statement after the loop throws \<open>lastError\<close>.
\<close>

function withRetry_loop ::
  "('w, 'a) async \<Rightarrow> ('w, 'x) RetryOptions_scheme \<Rightarrow> int \<Rightarrow> js_error \<Rightarrow> ('w, 'a) async"
where
  "withRetry_loop fn opts attempt lastError w =
     (if attempt \<le> retries opts then
        (case fn w of
           (Inr v, w1) \<Rightarrow> (Inr v, w1)
         | (Inl error, w1) \<Rightarrow>
             if \<not> shouldRetry opts error then (Inl error, w1)
             else if attempt + 1 > retries opts then (Inl error, w1)
             else withRetry_loop fn opts (attempt + 1) error
                    (onRetry opts error (attempt + 1) w1))
      else (Inl lastError, w))"
  by pat_completeness auto
termination
  by (relation "measure (\<lambda>(fn, opts, attempt, lastError, w). nat (retries opts + 1 - attempt))")
    auto

declare withRetry_loop.simps [simp del]

definition withRetry :: "('w, 'a) async \<Rightarrow> ('w, 'x) RetryOptions_scheme \<Rightarrow> ('w, 'a) async" where
  "withRetry fn opts w =
     withRetry_loop fn opts 0 (Error ''Unknown error during retry'') w"

text \<open>
  The same loop cut at its \<open>await\<close>: one pass through the body, from the values of
  \<open>attempt\<close> and \<open>lastError\<close>.  The promise is then settled (\<open>return\<close> or \<open>throw\<close>), or the
  loop goes on after the delay with the new values of its variables.
\<close>

datatype ('t, 'r) progress = Settled "js_error + 'r" | Pending 't

definition withRetry_step ::
  "('w, 'a) async \<Rightarrow> ('w, 'x) RetryOptions_scheme \<Rightarrow> int \<Rightarrow> js_error \<Rightarrow>
   'w \<Rightarrow> (int \<times> js_error, 'a) progress \<times> 'w"
where
  "withRetry_step fn opts attempt lastError w =
     (if attempt \<le> retries opts then
        (case fn w of
           (Inr v, w1) \<Rightarrow> (Settled (Inr v), w1)
         | (Inl error, w1) \<Rightarrow>
             if \<not> shouldRetry opts error then (Settled (Inl error), w1)
             else if attempt + 1 > retries opts then (Settled (Inl error), w1)
             else (Pending (attempt + 1, error), onRetry opts error (attempt + 1) w1))
      else (Settled (Inl lastError), w))"

subsection \<open>processBatch\<close>

text \<open>
  \<open>ProcessBatchOptions\<close> after destructuring with its defaults; \<open>onProgress\<close> is optional.
\<close>

record 'w ProcessBatchOptions = "'w RetryOptions" +
  concurrency :: int
  onProgress :: "(nat \<Rightarrow> nat \<Rightarrow> js_error list \<Rightarrow> 'w \<Rightarrow> 'w) option"

definition DEFAULT_BATCH_OPTIONS :: "'w ProcessBatchOptions" where
  "DEFAULT_BATCH_OPTIONS =
     \<lparr> minDelay = 1000, maxDelay = 30000, factor = 2,
       retries = 3, onRetry = (\<lambda>error attempt w. w), shouldRetry = (\<lambda>error. True),
       concurrency = 3, onProgress = None \<rparr>"

text \<open>
  The variables \<open>completed\<close> and \<open>allErrors\<close> that the two closures share, beside the
  state of the world.
\<close>

record 'w batch_state =
  world :: 'w
  completed :: nat
  allErrors :: "js_error list"

record 'r BatchOutcome =
  results :: "'r list"
  errors :: "js_error list"

text \<open>The handler given to \<open>handleError\<close>: it collects the error.\<close>

definition batch_handleError :: "js_error \<Rightarrow> 'a \<Rightarrow> 'w batch_state \<Rightarrow> 'w batch_state" where
  "batch_handleError err item s = s\<lparr>allErrors := allErrors s @ [err]\<rparr>"

text \<open>The function given to \<open>process\<close>, when nothing else runs between its steps.\<close>

definition batch_process ::
  "('a \<Rightarrow> nat \<Rightarrow> ('w, 'r) async) \<Rightarrow> 'w ProcessBatchOptions \<Rightarrow> nat \<Rightarrow>
   'a \<Rightarrow> nat \<Rightarrow> ('w batch_state, 'r) async"
where
  "batch_process fn options totalItems item index s =
     (case withRetry (fn item index) options (world s) of
        (Inl e, w1) \<Rightarrow> (Inl e, s\<lparr>world := w1\<rparr>)
      | (Inr result, w1) \<Rightarrow>
          (let s1 = s\<lparr>world := w1, completed := completed s + 1\<rparr>;
               s2 = (case onProgress options of
                       None \<Rightarrow> s1
                     | Some cb \<Rightarrow>
                         s1\<lparr>world := cb (completed s1) totalItems (allErrors s1) (world s1)\<rparr>)
           in (Inr result, s2)))"

text \<open>
  A call of that function that has been started and is not settled yet: its arguments and
  the variables \<open>attempt\<close> and \<open>lastError\<close> of the \<open>withRetry\<close> it is in.
\<close>

record 'a task =
  t_item :: 'a
  t_index :: nat
  t_attempt :: int
  t_lastError :: js_error

definition start_task :: "'a \<times> nat \<Rightarrow> 'a task" where
  "start_task = (\<lambda>(item, index).
     \<lparr> t_item = item, t_index = index, t_attempt = 0,
       t_lastError = Error ''Unknown error during retry'' \<rparr>)"

text \<open>
  The function given to \<open>process\<close>, advanced by one pass of the retry loop: one call of the
  worker and what follows it up to the next \<open>await\<close>.
\<close>

definition batch_process_step ::
  "('a \<Rightarrow> nat \<Rightarrow> ('w, 'r) async) \<Rightarrow> 'w ProcessBatchOptions \<Rightarrow> nat \<Rightarrow>
   'a task \<Rightarrow> 'w batch_state \<Rightarrow> ('a task, 'r) progress \<times> 'w batch_state"
where
  "batch_process_step fn options totalItems t s =
     (case withRetry_step (fn (t_item t) (t_index t)) options (t_attempt t) (t_lastError t)
             (world s) of
        (Pending (a, e), w1) \<Rightarrow>
          (Pending (t\<lparr>t_attempt := a, t_lastError := e\<rparr>), s\<lparr>world := w1\<rparr>)
      | (Settled (Inl e), w1) \<Rightarrow> (Settled (Inl e), s\<lparr>world := w1\<rparr>)
      | (Settled (Inr result), w1) \<Rightarrow>
          (let s1 = s\<lparr>world := w1, completed := completed s + 1\<rparr>;
               s2 = (case onProgress options of
                       None \<Rightarrow> s1
                     | Some cb \<Rightarrow>
                         s1\<lparr>world := cb (completed s1) totalItems (allErrors s1) (world s1)\<rparr>)
           in (Settled (Inr result), s2)))"

subsection \<open>PromisePool\<close>

text \<open>
  \<open>@supercharge/promise-pool\<close> is a package the repository imports.  Its documented
  contract, as \<open>processBatch\<close> uses it: \<open>withConcurrency(n).for(items)
  .handleError(h).process(f)\<close> starts \<open>f(item, index)\<close> once for every item, in input order
  and at most \<open>n\<close> at a time: the next item is started when a running call settles.  The
  value of a fulfilled call is appended to \<open>results\<close> when it settles; the error of a
  rejected call is handed to \<open>h\<close>, and the pool's own \<open>errors\<close> stay empty since a handler is
  registered.  The pool rejects a concurrency below 1.

  The calls that are not settled are the list \<open>ts\<close>, in input order; the first \<open>n\<close> of them
  are the running ones.  Which of the running calls goes on next is not determined by the
  program (it depends on how long each worker and each delay takes): it is the schedule
  \<open>sched\<close>, a list of numbers read one per step, modulo the number of running calls (when
  the list is used up, the oldest running call goes on).  One step is one pass of the retry
  loop of the chosen call.
\<close>

definition next_choice :: "nat list \<Rightarrow> nat \<Rightarrow> nat" where
  "next_choice sched running = (case sched of [] \<Rightarrow> 0 | c # cs \<Rightarrow> c mod running)"

definition pool_step ::
  "('a \<Rightarrow> nat \<Rightarrow> ('w, 'r) async) \<Rightarrow> 'w ProcessBatchOptions \<Rightarrow> nat \<Rightarrow> nat \<Rightarrow>
   'a task list \<times> 'r list \<times> 'w batch_state \<Rightarrow> 'a task list \<times> 'r list \<times> 'w batch_state"
where
  "pool_step fn options totalItems k = (\<lambda>(ts, rs, s).
     (let t = ts ! k
      in case batch_process_step fn options totalItems t s of
           (Pending t1, s1) \<Rightarrow> (ts[k := t1], rs, s1)
         | (Settled (Inr r), s1) \<Rightarrow> (take k ts @ drop (Suc k) ts, rs @ [r], s1)
         | (Settled (Inl e), s1) \<Rightarrow>
             (take k ts @ drop (Suc k) ts, rs, batch_handleError e (t_item t) s1)))"

function promisePool_run ::
  "('a \<Rightarrow> nat \<Rightarrow> ('w, 'r) async) \<Rightarrow> 'w ProcessBatchOptions \<Rightarrow> nat \<Rightarrow> nat list \<Rightarrow>
   'a task list \<times> 'r list \<times> 'w batch_state \<Rightarrow> 'r list \<times> 'w batch_state"
where
  "promisePool_run fn options totalItems sched (ts, rs, s) =
     (let running = min (nat (concurrency options)) (length ts)
      in if running = 0 then (rs, s)
         else promisePool_run fn options totalItems (tl sched)
                (pool_step fn options totalItems (next_choice sched running) (ts, rs, s)))"
  by pat_completeness auto
termination
proof (relation "measure (\<lambda>(fn, options, totalItems, sched, ts, rs, s).
    sum_list (map (\<lambda>t. nat (retries options + 1 - t_attempt t) + 1) ts))")
  show "wf (measure (\<lambda>(fn, options, totalItems, sched, ts, rs, s).
    sum_list (map (\<lambda>t. nat (retries options + 1 - t_attempt t) + 1) ts)))"
    by simp
next
  fix fn :: "'a \<Rightarrow> nat \<Rightarrow> ('w, 'r) async" and options :: "'w ProcessBatchOptions"
    and totalItems :: nat and sched :: "nat list" and ts :: "'a task list"
    and rs :: "'r list" and s :: "'w batch_state" and running :: nat
  define wt where "wt = (\<lambda>t :: 'a task. nat (retries options + 1 - t_attempt t) + 1)"
  define k where "k = next_choice sched running"
  define t where "t = ts ! k"
  assume running: "running = min (nat (concurrency options)) (length ts)" and pos: "running \<noteq> 0"
  have "k < running"
    using pos by (cases sched) (simp_all add: k_def next_choice_def)
  with running have k: "k < length ts"
    by simp
  have split: "ts = take k ts @ t # drop (Suc k) ts"
    unfolding t_def using k by (rule id_take_nth_drop)
  obtain p s2 where bstep: "batch_process_step fn options totalItems t s = (p, s2)"
    by (cases "batch_process_step fn options totalItems t s")
  obtain q w1 where wstep:
    "withRetry_step (fn (t_item t) (t_index t)) options (t_attempt t) (t_lastError t) (world s)
       = (q, w1)"
    by (cases "withRetry_step (fn (t_item t) (t_index t)) options (t_attempt t) (t_lastError t)
        (world s)")
  have less: "sum_list (map wt (fst (pool_step fn options totalItems k (ts, rs, s))))
                < sum_list (map wt ts)"
  proof (cases q)
    case (Settled r)
    with wstep have "\<exists>r1. p = Settled r1"
      using bstep by (cases r) (auto simp: batch_process_step_def Let_def)
    then obtain r1 where "p = Settled r1" ..
    with bstep have "fst (pool_step fn options totalItems k (ts, rs, s))
                       = take k ts @ drop (Suc k) ts"
      by (cases r1) (simp_all add: pool_step_def t_def [symmetric])
    then show ?thesis
      by (subst (2) split) (simp add: wt_def)
  next
    case (Pending ae)
    obtain a e where ae: "ae = (a, e)"
      by (cases ae)
    from wstep Pending ae have a: "a = t_attempt t + 1" "t_attempt t + 1 \<le> retries options"
      by (auto simp: withRetry_step_def split: if_splits prod.splits sum.splits)
    from wstep Pending ae bstep
    have "p = Pending (t\<lparr>t_attempt := a, t_lastError := e\<rparr>)"
      by (simp add: batch_process_step_def)
    with bstep have "fst (pool_step fn options totalItems k (ts, rs, s))
                       = ts[k := t\<lparr>t_attempt := a, t_lastError := e\<rparr>]"
      by (simp add: pool_step_def t_def [symmetric])
    moreover have "wt (t\<lparr>t_attempt := a, t_lastError := e\<rparr>) < wt t"
      using a by (simp add: wt_def)
    ultimately show ?thesis
      unfolding upd_conv_take_nth_drop [OF k]
      by (subst (2) split) simp
  qed
  obtain ts1 rs1 s1 where "pool_step fn options totalItems k (ts, rs, s) = (ts1, rs1, s1)"
    by (cases "pool_step fn options totalItems k (ts, rs, s)")
  with less
  show "((fn, options, totalItems, tl sched,
          pool_step fn options totalItems (next_choice sched running) (ts, rs, s)),
         (fn, options, totalItems, sched, ts, rs, s))
        \<in> measure (\<lambda>(fn, options, totalItems, sched, ts, rs, s).
            sum_list (map (\<lambda>t. nat (retries options + 1 - t_attempt t) + 1) ts))"
    by (simp add: wt_def k_def)
qed

declare promisePool_run.simps [simp del]

definition promisePool ::
  "('a \<Rightarrow> nat \<Rightarrow> ('w, 'r) async) \<Rightarrow> 'w ProcessBatchOptions \<Rightarrow> nat \<Rightarrow> nat list \<Rightarrow>
   'a list \<Rightarrow> ('w batch_state, 'r list \<times> js_error list) async"
where
  "promisePool fn options totalItems sched items s =
     (if concurrency options < 1 then
        (Inl (Error ''\"concurrency\" must be a number, 1 or up''), s)
      else
        (case promisePool_run fn options totalItems sched
                (map start_task (zip items [0..<length items]), [], s) of
           (rs, s1) \<Rightarrow> (Inr (rs, []), s1)))"

text \<open>\<open>processBatch\<close>, under the schedule \<open>sched\<close>.\<close>

definition processBatch ::
  "nat list \<Rightarrow> 'a list \<Rightarrow> ('a \<Rightarrow> nat \<Rightarrow> ('w, 'r) async) \<Rightarrow> 'w ProcessBatchOptions \<Rightarrow>
   ('w, 'r BatchOutcome) async"
where
  "processBatch sched items fn options w =
     (let n = length items;
          s0 = \<lparr> world = w, completed = 0, allErrors = [] \<rparr>
      in case promisePool fn options n sched items s0 of
           (Inl e, s) \<Rightarrow> (Inl e, world s)
         | (Inr (rs, es), s) \<Rightarrow>
             (let finalErrors = allErrors s @ es
              in (Inr \<lparr> results = rs, errors = finalErrors \<rparr>, world s)))"

section \<open>src/info/error-handler.ts\<close>

definition RETRYABLE_ERROR_TYPES :: "string list" where
  "RETRYABLE_ERROR_TYPES =
     [''TimeoutError'', ''NetworkError'', ''ConnectionError'', ''NavigationError'',
      ''AbortError'']"

definition retryableMessages :: "string list" where
  "retryableMessages =
     [''timeout'', ''network'', ''connection'', ''temporarily unavailable'', ''rate limit'',
      ''too many requests'', ''server error'', ''internal error'', ''socket hang up'',
      ''econnreset'', ''econnrefused'', ''etimedout'']"

text \<open>
  \<open>isRetryableError\<close> of the info module.  The test \<open>'statusCode' in error && typeof
  error.statusCode === 'number'\<close> is \<open>statusCode error \<noteq> None\<close>.
\<close>

definition isRetryableError :: "js_error \<Rightarrow> bool" where
  "isRetryableError error =
     (if some (\<lambda>type. str_includes (name error) type) RETRYABLE_ERROR_TYPES then True
      else
        (let errorMessage = toLowerCase (message error) in
         if some (\<lambda>msg. str_includes errorMessage msg) retryableMessages then True
         else
           (case statusCode error of
              Some sc \<Rightarrow> sc \<ge> 500 \<or> sc = 429 \<or> sc = 408
            | None \<Rightarrow> False)))"

record RetryConfig =
  maxRetries :: int
  baseDelay :: real
  cfg_maxDelay :: real
  cfg_factor :: real

definition DEFAULT_RETRY_CONFIG :: RetryConfig where
  "DEFAULT_RETRY_CONFIG =
     \<lparr> maxRetries = 3, baseDelay = 1000, cfg_maxDelay = 15000, cfg_factor = 2 \<rparr>"

definition calculateRetryDelay :: "int \<Rightarrow> RetryConfig \<Rightarrow> real \<Rightarrow> real" where
  "calculateRetryDelay attempt config rnd =
     (let delay = baseDelay config * (cfg_factor config powi (attempt - 1));
          delay = delay * (0.8 + rnd * 0.4)
      in min delay (cfg_maxDelay config))"

text \<open>
  \<open>fetchWithRetry\<close>: the loop \<open>while (attempt <= retryConfig.maxRetries)\<close> with its
  variables \<open>attempt\<close> and \<open>lastError\<close> (\<open>None\<close> is \<open>null\<close>).
\<close>

function fetchWithRetry_loop ::
  "('w, 'a) async \<Rightarrow> RetryConfig \<Rightarrow> int \<Rightarrow> js_error option \<Rightarrow> ('w, 'a) async"
where
  "fetchWithRetry_loop fetcher retryConfig attempt lastError w =
     (if attempt \<le> maxRetries retryConfig then
        (case fetcher w of
           (Inr v, w1) \<Rightarrow> (Inr v, w1)
         | (Inl err, w1) \<Rightarrow>
             if attempt + 1 > maxRetries retryConfig \<or> \<not> isRetryableError err
             then (Inl err, w1)
             else fetchWithRetry_loop fetcher retryConfig (attempt + 1) (Some err) w1)
      else
        (Inl (case lastError of Some e \<Rightarrow> e | None \<Rightarrow> Error MSG_RETRY_FAILED), w))"
  by pat_completeness auto
termination
  by (relation
      "measure (\<lambda>(fetcher, retryConfig, attempt, lastError, w).
         nat (maxRetries retryConfig + 1 - attempt))")
    auto

declare fetchWithRetry_loop.simps [simp del]

definition fetchWithRetry :: "('w, 'a) async \<Rightarrow> RetryConfig \<Rightarrow> ('w, 'a) async" where
  "fetchWithRetry fetcher retryConfig w = fetchWithRetry_loop fetcher retryConfig 0 None w"

text \<open>
  \<open>handleDouyinApiError\<close>.  Its first block reads \<open>error.response.json()\<close>; an error of
  the model has no \<open>response.json\<close> method (the errors are made by \<open>new Error\<close> or come
  from the platform's \<open>fetch\<close>), so the block does not apply and the function goes on
  with the message tests.
\<close>

definition handleDouyinApiError :: "js_error \<Rightarrow> js_error" where
  "handleDouyinApiError error =
     (let errorMessage = toLowerCase (message error) in
      if str_includes errorMessage ''cookie'' \<and>
         (str_includes errorMessage ''invalid'' \<or> str_includes errorMessage ''expired'')
      then Error MSG_COOKIE_EXPIRED
      else if str_includes errorMessage ''captcha'' \<or> str_includes errorMessage CAPTCHA_WORD
      then Error MSG_CAPTCHA
      else if str_includes errorMessage ''rate limit'' \<or>
              str_includes errorMessage ''too many requests''
      then Error MSG_RATE_LIMITED
      else if str_includes errorMessage ''not found'' \<or> str_includes errorMessage ''404''
      then Error MSG_NOT_FOUND
      else error)"

section \<open>src/download/error-handler.ts\<close>

text \<open>\<open>isRetryableError\<close> of the download module.\<close>

definition download_isRetryableError :: "js_error \<Rightarrow> bool" where
  "download_isRetryableError error =
     (let msg = toLowerCase (message error);
          nm = toLowerCase (name error)
      in
        if str_includes nm ''network'' \<or>
           str_includes msg ''network'' \<or>
           str_includes msg ''connection'' \<or>
           str_includes msg ''timeout'' \<or>
           str_includes msg ''timed out'' \<or>
           str_includes msg ''429'' \<or>
           str_includes msg ''503'' \<or>
           str_includes msg ''504''
        then True
        else if str_includes msg ''404'' \<or>
                str_includes msg ''403'' \<or>
                str_includes msg ''401'' \<or>
                str_includes msg ''400'' \<or>
                str_includes msg ''not found'' \<or>
                str_includes msg ''forbidden'' \<or>
                str_includes msg ''unauthorized'' \<or>
                str_includes msg ''bad request'' \<or>
                str_includes msg ''permission denied''
        then False
        else True)"

text \<open>\<open>getDownloadErrorMessage\<close>; its second parameter is not used by the function.\<close>

definition getDownloadErrorMessage :: "js_error \<Rightarrow> string \<Rightarrow> string" where
  "getDownloadErrorMessage error url =
     (if dl error \<noteq> None then message error
      else
        (let msg = toLowerCase (message error) in
         if str_includes msg ''timeout'' \<or> str_includes msg ''timed out''
         then MSG_DL_TIMEOUT
         else if str_includes msg ''404'' \<or> str_includes msg ''not found''
         then MSG_DL_404
         else if str_includes msg ''403'' \<or> str_includes msg ''forbidden''
         then MSG_DL_403
         else if str_includes msg ''429'' \<or> str_includes msg ''too many requests''
         then MSG_DL_429
         else MSG_DL_OTHER @ message error))"

section \<open>The platform: network and file system\<close>

text \<open>The JSON body of the user-posts API, with the fields the program reads.\<close>

record AwemeItem =
  aweme_id :: string
  desc :: string
  create_time :: int
  url_list :: "string list option"
  author_sec_uid :: "string option"
  author_uid :: "string option"
  author_nickname :: "string option"
  play_count :: "int option"
  digg_count :: "int option"
  comment_count :: "int option"
  share_count :: "int option"

text \<open>
  \<open>response.aweme_list\<close>: absent (or another falsy value), present but not an array, or
  an array of items.
\<close>

datatype aweme_field = Missing | NotArray | Items "AwemeItem list"

record ApiResponse =
  aweme_list :: aweme_field
  status_code :: "int option"
  status_msg :: "string option"
  max_cursor :: int
  has_more :: "int option"
  total :: "int option"

text \<open>
  Reading the body of a response as a stream, as \<open>downloadFile\<close> does: it arrives whole,
  or reading (or writing the chunk to disk) fails after a part of it.
\<close>

datatype body_outcome = Complete | Broken js_error

text \<open>
  A \<open>Response\<close> of the platform's \<open>fetch\<close>.  \<open>url\<close> is the final URL after redirects,
  \<open>text_body\<close> is \<open>None\<close> when \<open>response.text()\<close> throws, \<open>json_body\<close> is \<open>None\<close> when
  \<open>response.json()\<close> throws.
\<close>

record http_response =
  status :: int
  statusText :: string
  url :: string
  text_body :: "string option"
  json_body :: "ApiResponse option"
  body :: body_outcome

definition ok :: "http_response \<Rightarrow> bool" where
  "ok response = (200 \<le> status response \<and> status response \<le> 299)"

text \<open>\<open>VideoInfo\<close> of src/types, with the fields the download code reads.\<close>

record VideoInfo =
  vid :: string
  title :: string
  videoPlayUrl :: string
  userName :: string
  releaseDate :: "string option"

text \<open>
  The environment the program runs in:
  \<^item> \<open>net n u\<close> is the answer of the platform's \<open>fetch\<close> to its \<open>n\<close>-th call of the run, a
    request for \<open>u\<close>: a network error or a response;
  \<^item> \<open>urlParse u\<close> is \<open>new URL(u)\<close>: \<open>None\<close> when the constructor throws, else the lookup
    \<open>searchParams.get\<close>;
  \<^item> \<open>unlinkError p\<close> is the error \<open>fs.unlink(p)\<close> throws on an existing file, if it does;
  \<^item> \<open>ensureDirError p\<close> is the error \<open>fs.ensureDir(path.dirname(p))\<close> throws, if it does;
  \<^item> \<open>dirname\<close> is \<open>path.dirname\<close>;
  \<^item> \<open>finalPathOf info destPath files\<close> is the path that the block "determine the final
    file path" of \<open>downloadVideo\<close> computes from \<open>fs.stat\<close>, \<open>path\<close> and
    \<open>formatOutputPath\<close>; directories are not modelled, the block throws nothing.
\<close>

record env =
  net :: "nat \<Rightarrow> string \<Rightarrow> js_error + http_response"
  urlParse :: "string \<Rightarrow> (string \<Rightarrow> string option) option"
  unlinkError :: "string \<Rightarrow> js_error option"
  ensureDirError :: "string \<Rightarrow> js_error option"
  dirname :: "string \<Rightarrow> string"
  finalPathOf :: "VideoInfo \<Rightarrow> string \<Rightarrow> string set \<Rightarrow> string"

text \<open>
  What the run leaves behind, in order: the requests sent, the page requests of
  \<open>fetchUserVideos\<close> (its debug line with the cursor), the files opened for writing and
  removed, and the two log lines about a file that could not be removed.
\<close>

datatype event =
    Fetch string
  | PageRequest int
  | CreateFile string
  | UnlinkFile string
  | WarnUnlinkFailed string
  | ErrorUnlinkFailed string

record world =
  calls :: nat
  files :: "string set"
  log :: "event list"

definition emit :: "event \<Rightarrow> world \<Rightarrow> world" where
  "emit e w = w\<lparr>log := log w @ [e]\<rparr>"

text \<open>The platform's \<open>fetch(url)\<close>.\<close>

definition fetch :: "env \<Rightarrow> string \<Rightarrow> (world, http_response) async" where
  "fetch E u w = (net E (calls w) u, emit (Fetch u) (w\<lparr>calls := calls w + 1\<rparr>))"

text \<open>\<open>fs.pathExists(p)\<close>.\<close>

definition pathExists :: "string \<Rightarrow> world \<Rightarrow> bool" where
  "pathExists p w = (p \<in> files w)"

text \<open>\<open>fs.unlink(p)\<close> on a file that exists.\<close>

definition unlink :: "env \<Rightarrow> string \<Rightarrow> (world, unit) async" where
  "unlink E p w =
     (case unlinkError E p of
        Some e \<Rightarrow> (Inl e, w)
      | None \<Rightarrow> (Inr (), emit (UnlinkFile p) (w\<lparr>files := files w - {p}\<rparr>)))"

text \<open>\<open>fs.createWriteStream(p)\<close>: the file is created, or emptied when it exists.\<close>

definition createWriteStream :: "string \<Rightarrow> world \<Rightarrow> world" where
  "createWriteStream p w = emit (CreateFile p) (w\<lparr>files := insert p (files w)\<rparr>)"

section \<open>src/utils/fetch.ts\<close>

text \<open>
  \<open>enhancedFetch\<close>: the loop \<open>while (attempt <= retries)\<close>, with \<open>fetchRetries\<close> for
  the option \<open>retries\<close>.  A response that is not
  \<open>ok\<close> is turned into an error that carries \<open>statusCode\<close>; the \<open>throw\<close> is inside the
  \<open>try\<close>, so the \<open>catch\<close> below it handles that error like a network error.  A timeout is
  an \<open>AbortError\<close> answered by \<open>net\<close>.
\<close>

definition httpError :: "http_response \<Rightarrow> string \<Rightarrow> js_error" where
  "httpError response u =
     (let errorText = (case text_body response of Some t \<Rightarrow> t | None \<Rightarrow> '''');
          errorMessage =
            MSG_HTTP_ERROR @ show_int (status response) @ '' ('' @ statusText response @
            '') for '' @ u @ '': '' @ take 200 errorText
      in (Error errorMessage)\<lparr>statusCode := Some (status response)\<rparr>)"

function enhancedFetch_loop :: "env \<Rightarrow> string \<Rightarrow> int \<Rightarrow> int \<Rightarrow> (world, http_response) async"
where
  "enhancedFetch_loop E u fetchRetries attempt w =
     (if attempt \<le> fetchRetries then
        (case fetch E u w of
           (r, w1) \<Rightarrow>
             (case (case r of
                      Inr response \<Rightarrow>
                        if \<not> ok response then Inl (httpError response u) else Inr response
                    | Inl error \<Rightarrow> Inl error) of
                Inr response \<Rightarrow> (Inr response, w1)
              | Inl err \<Rightarrow>
                  if attempt + 1 > fetchRetries then (Inl err, w1)
                  else enhancedFetch_loop E u fetchRetries (attempt + 1) w1))
      else (Inl (Error MSG_MAX_RETRIES), w))"
  by pat_completeness auto
termination
  by (relation "measure (\<lambda>(E, u, fetchRetries, attempt, w). nat (fetchRetries + 1 - attempt))") auto

declare enhancedFetch_loop.simps [simp del]

text \<open>
  No caller in the model sets \<open>retries\<close>, so \<open>DEFAULT_FETCH_OPTIONS.retries = 3\<close> applies.
\<close>

definition DEFAULT_FETCH_RETRIES :: int where
  "DEFAULT_FETCH_RETRIES = 3"

definition enhancedFetch :: "env \<Rightarrow> string \<Rightarrow> (world, http_response) async" where
  "enhancedFetch E u w = enhancedFetch_loop E u DEFAULT_FETCH_RETRIES 0 w"

definition getJson :: "env \<Rightarrow> string \<Rightarrow> (world, ApiResponse) async" where
  "getJson E u w =
     (case enhancedFetch E u w of
        (Inl e, w1) \<Rightarrow> (Inl e, w1)
      | (Inr response, w1) \<Rightarrow>
          (case json_body response of
             Some j \<Rightarrow> (Inr j, w1)
           | None \<Rightarrow> (Inl (Error (''Failed to parse JSON response from '' @ u)), w1)))"

section \<open>Regular expressions\<close>

text \<open>
  The regular expressions of the program use literals, \<open>?\<close>, alternation, one capture
  group, and \<open>*\<close> and \<open>+\<close> on character classes only.  \<open>.\<close> excludes the line terminators
  (the two ASCII ones; the model does not treat U+2028 and U+2029).
\<close>

datatype cclass = Digit | ShortIdChar | Dot | NotAmp | NotQmSlash

definition is_digit :: "char \<Rightarrow> bool" where
  "is_digit c = (c \<in> set ''0123456789'')"

fun in_class :: "cclass \<Rightarrow> char \<Rightarrow> bool" where
  "in_class Digit c = is_digit c"
| "in_class ShortIdChar c =
     (c \<in> set ''abcdefghijklmnopqrstuvwxyzABCDEFGHIJKLMNOPQRSTUVWXYZ0123456789_-'')"
| "in_class Dot c = (c \<noteq> CHR 0x0A \<and> c \<noteq> CHR 0x0D)"
| "in_class NotAmp c = (c \<noteq> CHR ''&'')"
| "in_class NotQmSlash c = (c \<noteq> CHR ''?'' \<and> c \<noteq> CHR ''/'')"

datatype regex =
    Lit string
  | Opt regex
  | Star cclass
  | Plus cclass
  | Seq regex regex
  | Alt regex regex
  | Group regex

text \<open>A sequence of parts.\<close>

definition seq :: "regex list \<Rightarrow> regex" where
  "seq rs = foldr Seq rs (Lit [])"

text \<open>
  \<open>ms r s\<close> lists the ways \<open>r\<close> matches at the start of \<open>s\<close>, in the order in which a
  backtracking matcher tries them (greedy quantifiers: the longest run first).  Each entry
  is the rest of the input after the match and the text of the capture group, if the
  group took part.
\<close>

fun ms :: "regex \<Rightarrow> string \<Rightarrow> (string \<times> string option) list" where
  "ms (Lit t) s = (if prefix t s then [(drop (length t) s, None)] else [])"
| "ms (Opt r) s = ms r s @ [(s, None)]"
| "ms (Star c) s =
     map (\<lambda>k. (drop k s, None)) (rev [0..<Suc (length (takeWhile (in_class c) s))])"
| "ms (Plus c) s =
     map (\<lambda>k. (drop k s, None)) (rev [1..<Suc (length (takeWhile (in_class c) s))])"
| "ms (Seq r1 r2) s =
     concat (map (\<lambda>(s1, g1).
                    map (\<lambda>(s2, g2). (s2, case g2 of None \<Rightarrow> g1 | Some g \<Rightarrow> Some g))
                      (ms r2 s1))
               (ms r1 s))"
| "ms (Alt r1 r2) s = ms r1 s @ ms r2 s"
| "ms (Group r) s = map (\<lambda>(s1, g). (s1, Some (take (length s - length s1) s))) (ms r s)"

text \<open>
  \<open>s.match(r)\<close> for a regular expression without the \<open>g\<close> flag: the first way of the
  leftmost position that has one.  The result is \<open>None\<close> for \<open>null\<close>, else \<open>match[1]\<close>.
\<close>

fun regex_match :: "regex \<Rightarrow> string \<Rightarrow> string option option" where
  "regex_match r [] = (case ms r [] of [] \<Rightarrow> None | (rest, g) # other \<Rightarrow> Some g)"
| "regex_match r (c # cs) =
     (case ms r (c # cs) of [] \<Rightarrow> regex_match r cs | (rest, g) # other \<Rightarrow> Some g)"

text \<open>\<open>r.test(s)\<close>.\<close>

definition regex_test :: "regex \<Rightarrow> string \<Rightarrow> bool" where
  "regex_test r s = (regex_match r s \<noteq> None)"

section \<open>src/parser/link-patterns.ts\<close>

record LinkPattern =
  lp_name :: string
  pattern :: regex
  needsRedirect :: bool

definition http_www :: "regex list" where
  "http_www = [Lit ''http'', Opt (Lit ''s''), Lit ''://'', Opt (Lit ''www.'')]"

definition DOUYIN_LINK_PATTERNS :: "LinkPattern list" where
  "DOUYIN_LINK_PATTERNS =
     [\<lparr> lp_name = ''standard'',
        pattern = seq (http_www @ [Lit ''douyin.com/video/'', Group (Plus Digit)]),
        needsRedirect = False \<rparr>,
      \<lparr> lp_name = ''short'',
        pattern = seq [Lit ''http'', Opt (Lit ''s''), Lit ''://v.douyin.com/'',
                       Group (Plus ShortIdChar), Opt (Lit ''/'')],
        needsRedirect = True \<rparr>,
      \<lparr> lp_name = ''mobile'',
        pattern = seq (http_www @ [Lit ''douyin.com/share/video/'', Group (Plus Digit)]),
        needsRedirect = True \<rparr>,
      \<lparr> lp_name = ''note'',
        pattern = seq (http_www @ [Lit ''douyin.com/note/'', Group (Plus Digit)]),
        needsRedirect = True \<rparr>,
      \<lparr> lp_name = ''discover'',
        pattern = seq (http_www @ [Lit ''douyin.com/discover?'', Star Dot, Lit ''modal_id='',
                                   Group (Plus Digit)]),
        needsRedirect = True \<rparr>,
      \<lparr> lp_name = ''webapp'',
        pattern = seq (http_www @ [Lit ''douyin.com/webapp/'', Group (Plus Digit)]),
        needsRedirect = True \<rparr>,
      \<lparr> lp_name = ''mobile-param'',
        pattern = seq (http_www @ [Alt (Lit ''douyin'') (Lit ''iesdouyin''), Lit ''.com/'',
                                   Star Dot, Lit ''/'', Star Dot, Lit ''?'', Star Dot,
                                   Alt (Lit ''video_id'') (Lit ''vid''), Lit ''='',
                                   Group (Plus NotAmp)]),
        needsRedirect = True \<rparr>]"

text \<open>\<open>getLinkType\<close>: the first pattern that matches; \<open>None\<close> is \<open>null\<close>.\<close>

definition getLinkType :: "string \<Rightarrow> LinkPattern option" where
  "getLinkType u = find (\<lambda>p. regex_test (pattern p) u) DOUYIN_LINK_PATTERNS"

text \<open>
  \<open>extractVideoId\<close>: the loop takes the first pattern with \<open>match && match[1]\<close>, a match
  whose group is a non-empty string; after the loop comes the query parameter \<open>vid\<close>.
\<close>

fun extract_loop :: "LinkPattern list \<Rightarrow> string \<Rightarrow> string option" where
  "extract_loop [] u = None"
| "extract_loop (p # ps) u =
     (case regex_match (pattern p) u of
        Some (Some videoId) \<Rightarrow> if videoId \<noteq> [] then Some videoId else extract_loop ps u
      | Some None \<Rightarrow> extract_loop ps u
      | None \<Rightarrow> extract_loop ps u)"

definition extractVideoId :: "env \<Rightarrow> string \<Rightarrow> string option" where
  "extractVideoId E u =
     (case extract_loop DOUYIN_LINK_PATTERNS u of
        Some videoId \<Rightarrow> Some videoId
      | None \<Rightarrow>
          (case urlParse E u of
             None \<Rightarrow> None
           | Some searchParams_get \<Rightarrow>
               (case searchParams_get ''vid'' of
                  Some videoId \<Rightarrow> if videoId \<noteq> [] then Some videoId else None
                | None \<Rightarrow> None)))"

section \<open>src/parser/resolve-links.ts\<close>

datatype link_kind = Video | User | Unknown

text \<open>\<open>ParseResult\<close>; \<open>video_id\<close> is its field \<open>id\<close> and \<open>kind\<close> its field \<open>type\<close>.\<close>

record ParseResult =
  video_id :: string
  standardUrl :: string
  originalUrl :: string
  kind :: link_kind

definition createStandardUrl :: "string \<Rightarrow> string" where
  "createStandardUrl videoId = ''https://www.douyin.com/video/'' @ videoId"

text \<open>
  \<open>resolveShortUrl\<close>.  The option \<open>userAgent\<close> only sets a request header, which \<open>net\<close>
  does not see.  An error of the retried request is caught and gives \<open>null\<close>, and so does
  an error of the second request.
\<close>

definition fetch_final_url :: "env \<Rightarrow> string \<Rightarrow> (world, string) async" where
  "fetch_final_url E shortUrl w =
     (case enhancedFetch E shortUrl w of
        (Inl e, w1) \<Rightarrow> (Inl e, w1)
      | (Inr response, w1) \<Rightarrow> (Inr (url response), w1))"

definition resolveShortUrl :: "env \<Rightarrow> string \<Rightarrow> int \<Rightarrow> world \<Rightarrow> string option \<times> world" where
  "resolveShortUrl E shortUrl n w =
     (case withRetry (fetch_final_url E shortUrl)
             ((DEFAULT_RETRY_OPTIONS :: world RetryOptions)\<lparr>retries := n\<rparr>) w of
        (Inl error, w1) \<Rightarrow> (None, w1)
      | (Inr finalUrl, w1) \<Rightarrow>
          (case extractVideoId E finalUrl of
             Some videoId \<Rightarrow> (Some (createStandardUrl videoId), w1)
           | None \<Rightarrow>
               if startsWith finalUrl ''https://www.iesdouyin.com/share/video/'' then
                 (case enhancedFetch E shortUrl w1 of
                    (Inl error, w2) \<Rightarrow> (None, w2)
                  | (Inr response, w2) \<Rightarrow> (Some (url response), w2))
               else (None, w1)))"

text \<open>The \<open>type\<close> of a result, from the link type of its standard URL.\<close>

definition kind_of :: "LinkPattern option \<Rightarrow> link_kind" where
  "kind_of finalLinkType =
     (case finalLinkType of
        None \<Rightarrow> Unknown
      | Some p \<Rightarrow> if lp_name p = ''standard'' then Video else Unknown)"

text \<open>\<open>resolveLink\<close>; \<open>n\<close> is the option \<open>retries\<close>.  \<open>!standardUrl\<close> holds for \<open>null\<close> and
  for the empty string.\<close>

definition resolveLink :: "env \<Rightarrow> string \<Rightarrow> int \<Rightarrow> world \<Rightarrow> ParseResult option \<times> world" where
  "resolveLink E u n w =
     (case getLinkType u of
        None \<Rightarrow> (None, w)
      | Some linkType \<Rightarrow>
          if needsRedirect linkType then
            (case resolveShortUrl E u n w of
               (None, w1) \<Rightarrow> (None, w1)
             | (Some stdUrl, w1) \<Rightarrow>
                 if stdUrl = [] then (None, w1)
                 else
                   (case extractVideoId E stdUrl of
                      None \<Rightarrow> (None, w1)
                    | Some videoId \<Rightarrow>
                        (Some \<lparr> video_id = videoId, standardUrl = stdUrl, originalUrl = u,
                                kind = kind_of (getLinkType stdUrl) \<rparr>, w1)))
          else
            (case extractVideoId E u of
               None \<Rightarrow> (None, w)
             | Some videoId \<Rightarrow>
                 (let stdUrl = createStandardUrl videoId
                  in (Some \<lparr> video_id = videoId, standardUrl = stdUrl, originalUrl = u,
                             kind = kind_of (getLinkType stdUrl) \<rparr>, w))))"

section \<open>src/douyin/info/user.ts\<close>

subsection \<open>getOfficialVideoUrl\<close>

text \<open>
  The argument is \<open>string[] | undefined\<close>: \<open>None\<close> is \<open>undefined\<close>.  The \<open>for\<close> loop
  returns at the first URL that includes the marker; when the loop ends without a hit the
  function returns \<open>urlList[0]\<close>.
\<close>

definition OFFICIAL_MARK :: string where
  "OFFICIAL_MARK = ''douyin.com/aweme/v1/play''"

fun official_loop :: "string list \<Rightarrow> string option" where
  "official_loop [] = None"
| "official_loop (u # rest) =
     (if str_includes u OFFICIAL_MARK then Some u else official_loop rest)"

definition getOfficialVideoUrl :: "string list option \<Rightarrow> string" where
  "getOfficialVideoUrl urlList =
     (case urlList of
        None \<Rightarrow> ''''
      | Some [] \<Rightarrow> ''''
      | Some (u0 # us) \<Rightarrow>
          (case official_loop (u0 # us) of
             Some u \<Rightarrow> u
           | None \<Rightarrow> u0))"

subsection \<open>douyinApiGet\<close>

text \<open>
  \<open>new URLSearchParams(params).toString()\<close>: the form-urlencoded serialisation of the
  parameters, in the order of the object's keys.
\<close>

definition hex_byte :: "nat \<Rightarrow> string" where
  "hex_byte n = [''0123456789ABCDEF'' ! (n div 16), ''0123456789ABCDEF'' ! (n mod 16)]"

definition urlencode_char :: "char \<Rightarrow> string" where
  "urlencode_char c =
     (if c \<in> set ''abcdefghijklmnopqrstuvwxyzABCDEFGHIJKLMNOPQRSTUVWXYZ0123456789*-._''
      then [c]
      else if c = CHR '' '' then ''+''
      else ''%'' @ hex_byte (of_char c))"

definition urlencode :: "string \<Rightarrow> string" where
  "urlencode s = concat (map urlencode_char s)"

fun queryString :: "(string \<times> string) list \<Rightarrow> string" where
  "queryString [] = ''''"
| "queryString [(k, v)] = urlencode k @ ''='' @ urlencode v"
| "queryString ((k, v) # kv # rest) =
     urlencode k @ ''='' @ urlencode v @ ''&'' @ queryString (kv # rest)"

definition douyinApiGet ::
  "env \<Rightarrow> string \<Rightarrow> (string \<times> string) list \<Rightarrow> (world, ApiResponse) async"
where
  "douyinApiGet E u params w =
     (let fullUrl = u @ (if str_includes u ''?'' then ''&'' else ''?'') @ queryString params
      in getJson E fullUrl w)"

definition USER_POST_API :: string where
  "USER_POST_API = ''https://www.douyin.com/aweme/v1/web/aweme/post/''"

definition USER_FAVORITE_API :: string where
  "USER_FAVORITE_API = ''https://www.douyin.com/aweme/v1/web/aweme/favorite/''"

subsection \<open>extractSecUserId\<close>

text \<open>The pattern \<open>/\/user\/([^?/]+)/\<close>.\<close>

definition USER_PATH :: regex where
  "USER_PATH = seq [Lit ''/user/'', Group (Plus NotQmSlash)]"

definition extractSecUserId :: "env \<Rightarrow> string \<Rightarrow> string option" where
  "extractSecUserId E userUrl =
     (case urlParse E userUrl of
        None \<Rightarrow> None
      | Some searchParams_get \<Rightarrow>
          (case (case searchParams_get ''sec_user_id'' of
                   Some secUid \<Rightarrow> if secUid \<noteq> [] then Some secUid else None
                 | None \<Rightarrow> None) of
             Some secUid \<Rightarrow> Some secUid
           | None \<Rightarrow>
               (case regex_match USER_PATH userUrl of
                  Some (Some g) \<Rightarrow> if g \<noteq> [] then Some g else None
                | Some None \<Rightarrow> None
                | None \<Rightarrow> None)))"

subsection \<open>fetchUserVideoPage\<close>

record UserVideoItem =
  item_vid :: string
  description :: string
  createTime :: int
  item_videoPlayUrl :: string
  author_id :: string
  nickname :: string
  playCount :: "int option"
  likeCount :: "int option"
  commentCount :: "int option"
  shareCount :: "int option"

record VideoPage =
  videos :: "UserVideoItem list"
  nextCursor :: int
  hasMoreData :: bool
  page_total :: "int option"

text \<open>\<open>a || b\<close> on optional strings: the first that is present and not empty.\<close>

definition truthy :: "string option \<Rightarrow> bool" where
  "truthy s = (case s of None \<Rightarrow> False | Some t \<Rightarrow> t \<noteq> [])"

definition or_else :: "string option \<Rightarrow> string \<Rightarrow> string" where
  "or_else s d = (case s of None \<Rightarrow> d | Some t \<Rightarrow> if t \<noteq> [] then t else d)"

definition toUserVideoItem :: "AwemeItem \<Rightarrow> UserVideoItem" where
  "toUserVideoItem item =
     \<lparr> item_vid = aweme_id item,
       description = desc item,
       createTime = create_time item,
       item_videoPlayUrl = getOfficialVideoUrl (url_list item),
       author_id =
         (if truthy (author_sec_uid item) then the (author_sec_uid item)
          else or_else (author_uid item) ''''),
       nickname = or_else (author_nickname item) MSG_UNKNOWN_AUTHOR,
       playCount = play_count item,
       likeCount = digg_count item,
       commentCount = comment_count item,
       shareCount = share_count item \<rparr>"

definition page_params :: "string \<Rightarrow> int \<Rightarrow> (string \<times> string) list" where
  "page_params secUserId cursor =
     [(''sec_user_id'', secUserId), (''count'', ''20''), (''max_cursor'', show_int cursor),
      (''aid'', ''6383''), (''version_code'', ''170400''), (''device_platform'', ''webapp''),
      (''cookie_enabled'', ''true'')]"

text \<open>The body of the \<open>try\<close> once the response has arrived.\<close>

definition read_page :: "ApiResponse \<Rightarrow> js_error + VideoPage" where
  "read_page response =
     (case aweme_list response of
        Missing \<Rightarrow> Inl (Error MSG_FORMAT)
      | NotArray \<Rightarrow> Inl (Error MSG_FORMAT)
      | Items items \<Rightarrow>
          (case status_code response of
             Some c \<Rightarrow>
               if c \<noteq> 0 then
                 Inl (Error (MSG_STATUS_HEAD @ show_int c @ MSG_STATUS_INFO @
                             or_else (status_msg response) MSG_UNKNOWN_ERROR))
               else
                 Inr \<lparr> videos = map toUserVideoItem items, nextCursor = max_cursor response,
                       hasMoreData = (has_more response = Some 1), page_total = total response \<rparr>
           | None \<Rightarrow>
               Inr \<lparr> videos = map toUserVideoItem items, nextCursor = max_cursor response,
                     hasMoreData = (has_more response = Some 1), page_total = total response \<rparr>))"

text \<open>
  The function given to \<open>fetchWithRetry\<close>: the \<open>try\<close> and its \<open>catch\<close>, which answers a
  403 with an empty last page and rethrows every other error.  The cookie and the referer
  are request headers, which \<open>net\<close> does not see.
\<close>

definition page_fetcher :: "env \<Rightarrow> string \<Rightarrow> string \<Rightarrow> int \<Rightarrow> (world, VideoPage) async" where
  "page_fetcher E apiUrl secUserId cursor w =
     (case douyinApiGet E apiUrl (page_params secUserId cursor) w of
        (r, w1) \<Rightarrow>
          (case (case r of Inl e \<Rightarrow> Inl e | Inr response \<Rightarrow> read_page response) of
             Inr page \<Rightarrow> (Inr page, w1)
           | Inl error \<Rightarrow>
               if response_status error = Some 403 \<or> str_includes (message error) ''403''
               then (Inr \<lparr> videos = [], nextCursor = 0, hasMoreData = False, page_total = None \<rparr>, w1)
               else (Inl error, w1)))"

definition fetchUserVideoPage ::
  "env \<Rightarrow> string \<Rightarrow> string \<Rightarrow> int \<Rightarrow> string \<Rightarrow> (world, VideoPage) async"
where
  "fetchUserVideoPage E apiUrl secUserId cursor cookie w =
     fetchWithRetry (page_fetcher E apiUrl secUserId cursor) DEFAULT_RETRY_CONFIG w"

subsection \<open>fetchUserVideos\<close>

text \<open>
  The \<open>while\<close> loop of \<open>fetchUserVideos\<close> with its variables \<open>results\<close> (\<open>rs\<close>),
  \<open>cursor\<close>, \<open>hasMore\<close> and \<open>totalEstimated\<close>.  Nothing in the program bounds the number of
  iterations, so the model takes fuel: every page request uses one unit, and \<open>None\<close> is a
  loop that is still running when the fuel is used up.  \<open>results.splice(limit)\<close> keeps the
  first \<open>limit\<close> items.
\<close>

fun fetchUserVideos_loop ::
  "nat \<Rightarrow> env \<Rightarrow> string \<Rightarrow> string \<Rightarrow> string \<Rightarrow> int \<Rightarrow>
   (nat \<Rightarrow> int option \<Rightarrow> world \<Rightarrow> world) option \<Rightarrow>
   UserVideoItem list \<Rightarrow> int \<Rightarrow> bool \<Rightarrow> int option \<Rightarrow> world \<Rightarrow>
   ((js_error + UserVideoItem list) \<times> world) option"
where
  "fetchUserVideos_loop fuel E apiUrl secUserId cookie limit progress rs cursor hasMore
     totalEstimated w =
     (if hasMore \<and> (limit = 0 \<or> int (length rs) < limit) then
        (case fuel of
           0 \<Rightarrow> None
         | Suc fuel1 \<Rightarrow>
             (case fetchUserVideoPage E apiUrl secUserId cursor cookie
                     (emit (PageRequest cursor) w) of
                (Inl e, w1) \<Rightarrow> Some (Inl e, w1)
              | (Inr page, w1) \<Rightarrow>
                  (let totalEstimated1 =
                         (case page_total page of Some t \<Rightarrow> Some t | None \<Rightarrow> totalEstimated);
                       rs1 = rs @ videos page;
                       w2 = (case progress of
                               Some cb \<Rightarrow> cb (length rs1) totalEstimated1 w1
                             | None \<Rightarrow> w1)
                   in
                     if limit > 0 \<and> int (length rs1) \<ge> limit
                     then Some (Inr (take (nat limit) rs1), w2)
                     else if \<not> hasMoreData page then Some (Inr rs1, w2)
                     else fetchUserVideos_loop fuel1 E apiUrl secUserId cookie limit progress
                            rs1 (nextCursor page) (hasMoreData page) totalEstimated1 w2)))
      else Some (Inr rs, w))"

declare fetchUserVideos_loop.simps [simp del]

text \<open>\<open>cookie.trim() === ''\<close>: every character is white space (the ASCII ones).\<close>

definition is_space :: "char \<Rightarrow> bool" where
  "is_space c = (c \<in> set [CHR '' '', CHR 0x09, CHR 0x0A, CHR 0x0B, CHR 0x0C, CHR 0x0D])"

text \<open>
  \<open>fetchUserVideos\<close>.  The two checks before the \<open>try\<close> throw as they are; an error
  inside the \<open>try\<close> is passed through \<open>handleDouyinApiError\<close> and thrown.
\<close>

definition fetchUserVideos ::
  "nat \<Rightarrow> env \<Rightarrow> string \<Rightarrow> string \<Rightarrow> int \<Rightarrow> (nat \<Rightarrow> int option \<Rightarrow> world \<Rightarrow> world) option \<Rightarrow>
   world \<Rightarrow> ((js_error + UserVideoItem list) \<times> world) option"
where
  "fetchUserVideos fuel E userUrl cookie limit progress w =
     (if cookie = [] \<or> list_all is_space cookie then
        Some (Inl (Error MSG_NEED_COOKIE), w)
      else
        (case extractSecUserId E userUrl of
           None \<Rightarrow> Some (Inl (Error (MSG_NO_USER_ID @ userUrl)), w)
         | Some secUserId \<Rightarrow>
             (let isLikedVideos =
                    (str_includes userUrl ''/user'' \<and> str_includes userUrl ''showTab=like'');
                  apiUrl = (if isLikedVideos then USER_FAVORITE_API else USER_POST_API)
              in
                (case fetchUserVideos_loop fuel E apiUrl secUserId cookie limit progress
                        [] 0 True None w of
                   None \<Rightarrow> None
                 | Some (Inl error, w1) \<Rightarrow> Some (Inl (handleDouyinApiError error), w1)
                 | Some (Inr rs, w1) \<Rightarrow> Some (Inr rs, w1)))))"

section \<open>src/utils/file.ts\<close>

text \<open>
  \<open>downloadFile\<close>: the body of its \<open>try\<close> and then its \<open>catch\<close>, which removes the file
  when it exists, writes a log line when that fails, and throws a new error with the
  message of the first one.  The progress callback is an observer and is left out.
\<close>

definition downloadFile_try :: "env \<Rightarrow> string \<Rightarrow> string \<Rightarrow> (world, string) async" where
  "downloadFile_try E u destPath w =
     (case ensureDirError E destPath of
        Some e \<Rightarrow> (Inl e, w)
      | None \<Rightarrow>
          (case enhancedFetch E u (createWriteStream destPath w) of
             (Inl e, w1) \<Rightarrow> (Inl e, w1)
           | (Inr response, w1) \<Rightarrow>
               if \<not> ok response then
                 (Inl (Error (MSG_DOWNLOAD_STATUS @ show_int (status response) @ '' '' @
                              statusText response)), w1)
               else
                 (case body response of
                    Complete \<Rightarrow> (Inr destPath, w1)
                  | Broken e \<Rightarrow> (Inl e, w1))))"

definition downloadFile :: "env \<Rightarrow> string \<Rightarrow> string \<Rightarrow> (world, string) async" where
  "downloadFile E u destPath w =
     (case downloadFile_try E u destPath w of
        (Inr p, w1) \<Rightarrow> (Inr p, w1)
      | (Inl err, w1) \<Rightarrow>
          (let w2 = (if pathExists destPath w1 then
                       (case unlink E destPath w1 of
                          (Inl unlinkErr, w3) \<Rightarrow> emit (ErrorUnlinkFailed destPath) w3
                        | (Inr done, w3) \<Rightarrow> w3)
                     else w1)
           in (Inl (Error (MSG_DOWNLOAD_FILE @ message err)), w2)))"

text \<open>\<open>ensureDirectoryExists(path.dirname(p))\<close>: the error it throws, if any.\<close>

definition ensureDirectoryExists :: "env \<Rightarrow> string \<Rightarrow> js_error option" where
  "ensureDirectoryExists E p =
     (case ensureDirError E p of
        None \<Rightarrow> None
      | Some err \<Rightarrow> Some (Error (MSG_MKDIR @ dirname E p @ '': '' @ message err)))"

section \<open>src/download/video-downloader.ts\<close>

text \<open>
  \<open>VideoDownloadOptions\<close> after destructuring with its defaults.  The options left out
  (\<open>timeout\<close>, \<open>headers\<close>, the progress callbacks, \<open>useSubfolders\<close> and
  \<open>filenameTemplate\<close>) reach only the request or the computation of the path, which the
  environment answers.
\<close>

record VideoDownloadOptions =
  dl_retries :: int
  checkExisting :: bool
  overwrite :: bool

definition DEFAULT_DOWNLOAD_OPTIONS :: VideoDownloadOptions where
  "DEFAULT_DOWNLOAD_OPTIONS = \<lparr> dl_retries = 3, checkExisting = True, overwrite = False \<rparr>"

text \<open>The options \<open>downloadVideo\<close> gives to \<open>withRetry\<close>.\<close>

definition download_retry_options :: "VideoDownloadOptions \<Rightarrow> world RetryOptions" where
  "download_retry_options options =
     \<lparr> minDelay = 1000, maxDelay = 30000, factor = 2,
       retries = dl_retries options,
       onRetry = (\<lambda>error attempt w. w),
       shouldRetry = (\<lambda>error. case dl error of Some d \<Rightarrow> retryable d | None \<Rightarrow> True) \<rparr>"

text \<open>The function \<open>downloadVideo\<close> gives to \<open>withRetry\<close>.\<close>

definition download_once :: "env \<Rightarrow> string \<Rightarrow> string \<Rightarrow> (world, bool) async" where
  "download_once E u finalPath w =
     (case downloadFile E u finalPath w of
        (Inl e, w1) \<Rightarrow> (Inl e, w1)
      | (Inr p, w1) \<Rightarrow> (Inr True, w1))"

text \<open>
  The \<open>try\<close> block of \<open>downloadVideo\<close>.  Beside its outcome it gives the value of the
  variable \<open>finalPath\<close> when the block is left, which the \<open>catch\<close> block reads: the empty
  string as long as the path has not been determined.
\<close>

definition downloadVideo_try ::
  "env \<Rightarrow> VideoInfo \<Rightarrow> string \<Rightarrow> VideoDownloadOptions \<Rightarrow> world \<Rightarrow>
   (js_error + string) \<times> string \<times> world"
where
  "downloadVideo_try E videoInfo destPath options w =
     (if videoPlayUrl videoInfo = [] then
        (Inl (DownloadError (MSG_VIDEO @ vid videoInfo @ MSG_NO_PLAY_URL) (vid videoInfo)
                ''INVALID_URL'' False), '''', w)
      else
        (let finalPath = finalPathOf E videoInfo destPath (files w) in
         case ensureDirectoryExists E finalPath of
           Some e \<Rightarrow> (Inl e, finalPath, w)
         | None \<Rightarrow>
             if checkExisting options \<and> pathExists finalPath w \<and> \<not> overwrite options
             then (Inr finalPath, finalPath, w)
             else
               (case withRetry (download_once E (videoPlayUrl videoInfo) finalPath)
                       (download_retry_options options) w of
                  (Inl e, w1) \<Rightarrow> (Inl e, finalPath, w1)
                | (Inr done, w1) \<Rightarrow> (Inr finalPath, finalPath, w1))))"

text \<open>
  The first part of the \<open>catch\<close> block: remove the partial file; a failure to remove it
  is caught and logged with \<open>logger.warn\<close>.
\<close>

definition remove_partial :: "env \<Rightarrow> string \<Rightarrow> world \<Rightarrow> world" where
  "remove_partial E finalPath w =
     (if pathExists finalPath w then
        (case unlink E finalPath w of
           (Inl unlinkErr, w1) \<Rightarrow> emit (WarnUnlinkFailed finalPath) w1
         | (Inr done, w1) \<Rightarrow> w1)
      else w)"

text \<open>
  \<open>downloadVideo\<close>; the optional parameter \<open>downloadUrls\<close> is the empty list when it is
  not given.  In the \<open>catch\<close> block the function calls itself with the next URL of the
  list and the same \<open>options\<close>.
\<close>

fun downloadVideo ::
  "env \<Rightarrow> VideoInfo \<Rightarrow> string \<Rightarrow> VideoDownloadOptions \<Rightarrow> string list \<Rightarrow> (world, string) async"
where
  "downloadVideo E videoInfo destPath options downloadUrls w =
     (case downloadVideo_try E videoInfo destPath options w of
        (Inr p, finalPath, w1) \<Rightarrow> (Inr p, w1)
      | (Inl error, finalPath, w1) \<Rightarrow>
          (let errorMessage =
                 getDownloadErrorMessage error
                   (if videoPlayUrl videoInfo \<noteq> [] then videoPlayUrl videoInfo
                    else vid videoInfo);
               w2 = remove_partial E finalPath w1
           in
             (case downloadUrls of
                nextUrl # remainingUrls \<Rightarrow>
                  downloadVideo E (videoInfo\<lparr>videoPlayUrl := nextUrl\<rparr>) destPath options
                    remainingUrls w2
              | [] \<Rightarrow>
                  (Inl (DownloadError errorMessage (vid videoInfo) ''DOWNLOAD_FAILED'' False),
                   w2))))"

declare downloadVideo.simps [simp del]

section \<open>Example inputs\<close>

text \<open>An HTTP error as \<open>enhancedFetch\<close> makes it, for the examples.\<close>

definition example_http_error :: "int \<Rightarrow> string \<Rightarrow> js_error" where
  "example_http_error st txt =
     httpError \<lparr> status = st, statusText = txt, url = ''https://www.douyin.com/x'',
                 text_body = Some '''', json_body = None, body = Complete \<rparr>
       ''https://www.douyin.com/x''"

text \<open>
  A worker on numbers that fails on the item 2 whatever the state of the world (its state
  counts the calls), and its outcome as a function of the item.
\<close>

definition example_outcome :: "nat \<Rightarrow> nat \<Rightarrow> js_error + nat" where
  "example_outcome item index =
     (if item = 2 then Inl (Error ''item 2 is malformed'') else Inr (10 * item + index))"

definition example_worker :: "nat \<Rightarrow> nat \<Rightarrow> (nat, nat) async" where
  "example_worker item index count = (example_outcome item index, count + 1)"

text \<open>
  A worker whose state is the list of its calls.  It fails on the item 2; on another item
  its first call fails and the next one succeeds.
\<close>

definition example_recorder ::
  "nat \<Rightarrow> nat \<Rightarrow> ((nat \<times> (js_error + nat)) list, nat) async"
where
  "example_recorder item index made =
     (let out = (if item = 2 then Inl (Error ''item 2 is malformed'')
                 else if index \<in> fst ` set made then Inr (10 * item + index)
                 else Inl (Error ''try again''))
      in (out, made @ [(index, out)]))"

text \<open>The world before the run: no request sent, no file, an empty log.\<close>

definition world0 :: world where
  "world0 = \<lparr> calls = 0, files = {}, log = [] \<rparr>"

text \<open>
  An environment whose network answers every request with status 200 and the given final
  URL, with a whole body and no JSON; no URL parses, no file operation fails.
\<close>

definition redirect_env :: "string \<Rightarrow> env" where
  "redirect_env finalUrl =
     \<lparr> net = (\<lambda>n u. Inr \<lparr> status = 200, statusText = ''OK'', url = finalUrl,
                            text_body = Some '''', json_body = None, body = Complete \<rparr>),
       urlParse = (\<lambda>u. None),
       unlinkError = (\<lambda>p. None),
       ensureDirError = (\<lambda>p. None),
       dirname = (\<lambda>p. p),
       finalPathOf = (\<lambda>info destPath fs. destPath) \<rparr>"

text \<open>
  An environment whose network answers the first request with the final URL of a share
  link of \<open>www.iesdouyin.com\<close> and every later request with the final URL of the page of
  the video, query string included.
\<close>

definition share_env :: env where
  "share_env =
     \<lparr> net = (\<lambda>n u. Inr \<lparr> status = 200, statusText = ''OK'',
                            url = (if n = 0
                                   then ''https://www.iesdouyin.com/share/video/7123456789/''
                                   else ''https://www.douyin.com/video/7123456789?previous_page=app''),
                            text_body = Some '''', json_body = None, body = Complete \<rparr>),
       urlParse = (\<lambda>u. None),
       unlinkError = (\<lambda>p. None),
       ensureDirError = (\<lambda>p. None),
       dirname = (\<lambda>p. p),
       finalPathOf = (\<lambda>info destPath fs. destPath) \<rparr>"

text \<open>
  Environments for the user listing: the network answers its \<open>n\<close>-th request by
  \<open>answers n\<close>; a user URL parses and has no query parameter.
\<close>

definition pages_env :: "(nat \<Rightarrow> js_error + http_response) \<Rightarrow> env" where
  "pages_env answers =
     \<lparr> net = (\<lambda>n u. answers n),
       urlParse = (\<lambda>u. Some (\<lambda>k. None)),
       unlinkError = (\<lambda>p. None),
       ensureDirError = (\<lambda>p. None),
       dirname = (\<lambda>p. p),
       finalPathOf = (\<lambda>info destPath fs. destPath) \<rparr>"

definition example_item :: AwemeItem where
  "example_item =
     \<lparr> aweme_id = ''7123456789'', desc = ''a video'', create_time = 1700000000,
       url_list = Some [''https://www.douyin.com/aweme/v1/play/?video_id=v1''],
       author_sec_uid = Some ''MS4wLjABAAAA'', author_uid = None,
       author_nickname = Some ''someone'',
       play_count = None, digg_count = Some 5, comment_count = None, share_count = None \<rparr>"

definition json_response :: "ApiResponse \<Rightarrow> http_response" where
  "json_response j =
     \<lparr> status = 200, statusText = ''OK'', url = '''', text_body = Some '''',
       json_body = Some j, body = Complete \<rparr>"

text \<open>A page with one item that reports more pages and the next cursor \<open>c\<close>.\<close>

definition more_page :: "int \<Rightarrow> ApiResponse" where
  "more_page c =
     \<lparr> aweme_list = Items [example_item], status_code = Some 0, status_msg = None,
       max_cursor = c, has_more = Some 1, total = None \<rparr>"

text \<open>A page without the item list.\<close>

definition malformed_page :: ApiResponse where
  "malformed_page =
     \<lparr> aweme_list = Missing, status_code = None, status_msg = None,
       max_cursor = 0, has_more = None, total = None \<rparr>"

text \<open>The answer 403 Forbidden.\<close>

definition forbidden_response :: http_response where
  "forbidden_response =
     \<lparr> status = 403, statusText = ''Forbidden'', url = '''', text_body = Some '''',
       json_body = None, body = Complete \<rparr>"

text \<open>
  An upstream that always reports more pages and never advances the cursor; one whose
  second page is malformed; one that forbids every request after the first.
\<close>

definition stale_env :: env where
  "stale_env = pages_env (\<lambda>n. Inr (json_response (more_page 0)))"

definition malformed_env :: env where
  "malformed_env =
     pages_env (\<lambda>n. if n = 0 then Inr (json_response (more_page 20))
                     else Inr (json_response malformed_page))"

definition forbidden_env :: env where
  "forbidden_env =
     pages_env (\<lambda>n. if n = 0 then Inr (json_response (more_page 20))
                     else Inr forbidden_response)"

definition example_user_url :: string where
  "example_user_url = ''https://www.douyin.com/user/MS4wLjABAAAA''"

definition example_cookie :: string where
  "example_cookie = ''sessionid=0123456789abcdef''"

text \<open>
  The state of the run against \<open>forbidden_env\<close> after its first page, and the URL of the
  request for its second page.
\<close>

definition page_url :: "int \<Rightarrow> string" where
  "page_url cursor = USER_POST_API @ ''?'' @ queryString (page_params ''MS4wLjABAAAA'' cursor)"

definition after_first_page :: world where
  "after_first_page = \<lparr> calls = 1, files = {}, log = [PageRequest 0, Fetch (page_url 0)] \<rparr>"

definition after_forbidden_page :: world where
  "after_forbidden_page =
     \<lparr> calls = 5, files = {},
       log = [PageRequest 0, Fetch (page_url 0), PageRequest 20, Fetch (page_url 20),
              Fetch (page_url 20), Fetch (page_url 20), Fetch (page_url 20)] \<rparr>"

text \<open>
  Environments for the download: the network answers by \<open>answers\<close>; the path of the file
  is the destination path as it is given; \<open>locked\<close> are the files that cannot be removed.
\<close>

definition download_env ::
  "(nat \<Rightarrow> string \<Rightarrow> js_error + http_response) \<Rightarrow> string set \<Rightarrow> env"
where
  "download_env answers locked =
     \<lparr> net = answers,
       urlParse = (\<lambda>u. None),
       unlinkError = (\<lambda>p. if p \<in> locked then Some (Error ''EPERM: operation not permitted'')
                          else None),
       ensureDirError = (\<lambda>p. None),
       dirname = (\<lambda>p. p),
       finalPathOf = (\<lambda>info destPath fs. destPath) \<rparr>"

definition example_video :: VideoInfo where
  "example_video =
     \<lparr> vid = ''7123456789'', title = ''a video'',
       videoPlayUrl = ''https://cdn1.example/v.mp4'', userName = ''someone'',
       releaseDate = None \<rparr>"



text \<open>A network on which every request fails.\<close>

definition net_down :: "nat \<Rightarrow> string \<Rightarrow> js_error + http_response" where
  "net_down n u = Inl ((Error ''fetch failed'')\<lparr>name := ''TypeError''\<rparr>)"


text \<open>Download options with one retry.\<close>

definition retry_once :: VideoDownloadOptions where
  "retry_once = DEFAULT_DOWNLOAD_OPTIONS\<lparr>dl_retries := 1\<rparr>"

section \<open>Properties: strings\<close>

lemma str_includes_iff: "str_includes s t \<longleftrightarrow> (\<exists>a b. s = a @ t @ b)"
proof (induction s)
  case Nil
  then show ?case by simp
next
  case (Cons c cs)
  have "(\<exists>a b. c # cs = a @ t @ b) \<longleftrightarrow> prefix t (c # cs) \<or> (\<exists>a b. cs = a @ t @ b)"
  proof
    assume "\<exists>a b. c # cs = a @ t @ b"
    then obtain a b where ab: "c # cs = a @ t @ b" by blast
    show "prefix t (c # cs) \<or> (\<exists>a b. cs = a @ t @ b)"
    proof (cases a)
      case Nil
      with ab show ?thesis by (auto simp: prefix_def)
    next
      case (Cons x a')
      with ab have "cs = a' @ t @ b" by simp
      then show ?thesis by blast
    qed
  next
    assume "prefix t (c # cs) \<or> (\<exists>a b. cs = a @ t @ b)"
    then show "\<exists>a b. c # cs = a @ t @ b"
    proof
      assume "prefix t (c # cs)"
      then obtain b where "c # cs = t @ b" by (auto simp: prefix_def)
      then have "c # cs = [] @ t @ b" by simp
      then show ?thesis by blast
    next
      assume "\<exists>a b. cs = a @ t @ b"
      then obtain a b where "cs = a @ t @ b" by blast
      then have "c # cs = (c # a) @ t @ b" by simp
      then show ?thesis by blast
    qed
  qed
  with Cons show ?case by simp
qed

section \<open>Properties: getOfficialVideoUrl\<close>

lemma official_loop_first:
  "\<forall>v \<in> set pre. \<not> str_includes v OFFICIAL_MARK \<Longrightarrow> str_includes u OFFICIAL_MARK \<Longrightarrow>
   official_loop (pre @ u # post) = Some u"
  by (induction pre) auto

lemma official_loop_none:
  "\<forall>v \<in> set us. \<not> str_includes v OFFICIAL_MARK \<Longrightarrow> official_loop us = None"
  by (induction us) auto

text \<open>
  C10.  For every URL list, \<open>getOfficialVideoUrl\<close> returns the first URL of the list that
  contains \<open>douyin.com/aweme/v1/play\<close> when there is one, else the first element of the
  list; it returns the empty string when the list is undefined or empty.  It is a total
  function: it throws on no input.
\<close>

theorem getOfficialVideoUrl_first_official:
  "getOfficialVideoUrl None = '''' \<and>
   getOfficialVideoUrl (Some []) = '''' \<and>
   ((\<forall>v \<in> set pre. \<not> (\<exists>a b. v = a @ ''douyin.com/aweme/v1/play'' @ b)) \<and>
    (\<exists>a b. u = a @ ''douyin.com/aweme/v1/play'' @ b) \<longrightarrow>
      getOfficialVideoUrl (Some (pre @ u # post)) = u) \<and>
   ((\<forall>v \<in> set (u0 # us). \<not> (\<exists>a b. v = a @ ''douyin.com/aweme/v1/play'' @ b)) \<longrightarrow>
      getOfficialVideoUrl (Some (u0 # us)) = u0)"
proof -
  have mark: "\<And>v. (\<exists>a b. v = a @ ''douyin.com/aweme/v1/play'' @ b) = str_includes v OFFICIAL_MARK"
    by (simp only: str_includes_iff OFFICIAL_MARK_def)
  have first: "getOfficialVideoUrl (Some (pre @ u # post)) = u"
    if "\<forall>v \<in> set pre. \<not> str_includes v OFFICIAL_MARK" "str_includes u OFFICIAL_MARK"
  proof -
    have "official_loop (pre @ u # post) = Some u"
      using that by (rule official_loop_first)
    then show ?thesis
      by (cases "pre @ u # post") (simp_all add: getOfficialVideoUrl_def)
  qed
  have fallback: "getOfficialVideoUrl (Some (u0 # us)) = u0"
    if "\<forall>v \<in> set (u0 # us). \<not> str_includes v OFFICIAL_MARK"
  proof -
    have "official_loop (u0 # us) = None"
      using that by (rule official_loop_none)
    then show ?thesis by (simp add: getOfficialVideoUrl_def)
  qed
  show ?thesis
    unfolding mark using first fallback by (simp add: getOfficialVideoUrl_def)
qed

text \<open>The theorem at a list with two official URLs, and at a list with none.\<close>

theorem getOfficialVideoUrl_first_official_witness:
  "getOfficialVideoUrl (Some ([''https://cdn.example/a.mp4''] @
      ''https://www.douyin.com/aweme/v1/play/?video_id=1'' #
      [''https://www.douyin.com/aweme/v1/play/?video_id=2''])) =
     ''https://www.douyin.com/aweme/v1/play/?video_id=1'' \<and>
   getOfficialVideoUrl (Some (''https://cdn.example/a.mp4'' # [''https://cdn.example/b.mp4''])) =
     ''https://cdn.example/a.mp4''"
proof -
  have no: "\<forall>v \<in> set [''https://cdn.example/a.mp4''].
              \<not> (\<exists>a b. v = a @ ''douyin.com/aweme/v1/play'' @ b)"
    unfolding str_includes_iff [symmetric] by simp
  have yes: "\<exists>a b. ''https://www.douyin.com/aweme/v1/play/?video_id=1'' =
                a @ ''douyin.com/aweme/v1/play'' @ b"
    unfolding str_includes_iff [symmetric] by simp
  have no2: "\<forall>v \<in> set (''https://cdn.example/a.mp4'' # [''https://cdn.example/b.mp4'']).
              \<not> (\<exists>a b. v = a @ ''douyin.com/aweme/v1/play'' @ b)"
    unfolding str_includes_iff [symmetric] by simp
  from getOfficialVideoUrl_first_official
    [of "[''https://cdn.example/a.mp4'']" "''https://www.douyin.com/aweme/v1/play/?video_id=1''"
        "[''https://www.douyin.com/aweme/v1/play/?video_id=2'']"
        "''https://cdn.example/a.mp4''" "[''https://cdn.example/b.mp4'']"]
  show ?thesis using no yes no2 by blast
qed
section \<open>Properties: the retry delay\<close>

lemma powi_pred: "1 \<le> n \<Longrightarrow> (x::real) powi (n - 1) = x ^ nat (n - 1)"
  by (simp add: power_int_def)

text \<open>
  C7.  For every attempt number \<open>n \<ge> 1\<close> and every value \<open>rnd\<close> of \<open>Math.random()\<close>, the
  delay computed by \<open>calculateDelay\<close> and by \<open>calculateRetryDelay\<close> is
  \<open>min(maxDelay, baseDelay * factor^(n-1) * jitter)\<close> with a jitter in
  \<open>[1 - 0.4/2, 1 + 0.4/2)\<close> (the program's jitter ratio is the constant 0.4); so the delay
  never exceeds \<open>maxDelay\<close>; and without jitter variance (\<open>rnd = 1/2\<close>, jitter 1) the
  delays of attempts 1 to 5 under \<open>baseDelay = 1000\<close>, \<open>factor = 2\<close>, \<open>maxDelay = 15000\<close>
  are 1000, 2000, 4000, 8000 and 15000: non-decreasing and capped at 15000.
\<close>

theorem retry_delay_formula:
  assumes "1 \<le> n" and "0 \<le> rnd" and "rnd < 1"
  shows "(\<exists>jitter. 1 - 0.4 / 2 \<le> jitter \<and> jitter < 1 + 0.4 / 2 \<and>
            calculateDelay n opts rnd =
              min (maxDelay opts) (minDelay opts * factor opts ^ nat (n - 1) * jitter) \<and>
            calculateRetryDelay n cfg rnd =
              min (cfg_maxDelay cfg) (baseDelay cfg * cfg_factor cfg ^ nat (n - 1) * jitter)) \<and>
         calculateDelay n opts rnd \<le> maxDelay opts \<and>
         calculateRetryDelay n cfg rnd \<le> cfg_maxDelay cfg \<and>
         map (\<lambda>k. calculateRetryDelay k DEFAULT_RETRY_CONFIG (1 / 2)) [1, 2, 3, 4, 5] =
           [1000, 2000, 4000, 8000, 15000]"
proof -
  let ?j = "0.8 + rnd * 0.4"
  have j: "1 - 0.4 / 2 \<le> ?j" "?j < 1 + 0.4 / 2"
    using assms by simp_all
  have d: "calculateDelay n opts rnd =
             min (maxDelay opts) (minDelay opts * factor opts ^ nat (n - 1) * ?j)"
    using assms(1) by (simp add: calculateDelay_def Let_def powi_pred min.commute)
  have r: "calculateRetryDelay n cfg rnd =
             min (cfg_maxDelay cfg) (baseDelay cfg * cfg_factor cfg ^ nat (n - 1) * ?j)"
    using assms(1) by (simp add: calculateRetryDelay_def Let_def powi_pred min.commute)
  have ex: "\<exists>jitter. 1 - 0.4 / 2 \<le> jitter \<and> jitter < 1 + 0.4 / 2 \<and>
            calculateDelay n opts rnd =
              min (maxDelay opts) (minDelay opts * factor opts ^ nat (n - 1) * jitter) \<and>
            calculateRetryDelay n cfg rnd =
              min (cfg_maxDelay cfg) (baseDelay cfg * cfg_factor cfg ^ nat (n - 1) * jitter)"
    using j d r by blast
  have cap1: "calculateDelay n opts rnd \<le> maxDelay opts"
    by (simp add: calculateDelay_def Let_def)
  have cap2: "calculateRetryDelay n cfg rnd \<le> cfg_maxDelay cfg"
    by (simp add: calculateRetryDelay_def Let_def)
  have tab: "map (\<lambda>k. calculateRetryDelay k DEFAULT_RETRY_CONFIG (1 / 2)) [1, 2, 3, 4, 5] =
               [1000, 2000, 4000, 8000, 15000]"
    by (simp add: calculateRetryDelay_def DEFAULT_RETRY_CONFIG_def Let_def)
  show ?thesis using ex cap1 cap2 tab by blast
qed

text \<open>The theorem at attempt 3 of the default options and at attempt 5 of the default
  configuration, with \<open>rnd = 1/4\<close>.\<close>

theorem retry_delay_formula_witness:
  "calculateDelay 3 (DEFAULT_RETRY_OPTIONS :: unit RetryOptions) (1 / 4) \<le> 30000 \<and>
   calculateRetryDelay 5 DEFAULT_RETRY_CONFIG (1 / 4) \<le> 15000 \<and>
   calculateDelay 3 (DEFAULT_RETRY_OPTIONS :: unit RetryOptions) (1 / 4) = 3600"
proof -
  have h: "(1::int) \<le> 3" "(0::real) \<le> 1 / 4" "(1 / 4 :: real) < 1" by simp_all
  have a: "calculateDelay 3 (DEFAULT_RETRY_OPTIONS :: unit RetryOptions) (1 / 4)
             \<le> maxDelay (DEFAULT_RETRY_OPTIONS :: unit RetryOptions)"
    using retry_delay_formula [OF h, of "DEFAULT_RETRY_OPTIONS :: unit RetryOptions"] by blast
  have h5: "(1::int) \<le> 5" by simp
  have b: "calculateRetryDelay 5 DEFAULT_RETRY_CONFIG (1 / 4) \<le> cfg_maxDelay DEFAULT_RETRY_CONFIG"
    using retry_delay_formula [OF h5 h(2,3), of _ DEFAULT_RETRY_CONFIG] by blast
  have c: "calculateDelay 3 (DEFAULT_RETRY_OPTIONS :: unit RetryOptions) (1 / 4) = 3600"
    by (simp add: calculateDelay_def DEFAULT_RETRY_OPTIONS_def Let_def)
  show ?thesis
    using a b c by (simp add: DEFAULT_RETRY_OPTIONS_def DEFAULT_RETRY_CONFIG_def)
qed

text \<open>With a fixed jitter the delay does not decrease from one attempt to the next.\<close>

lemma delay_monotone:
  assumes "1 \<le> n" "n \<le> m" "0 \<le> baseDelay cfg" "1 \<le> cfg_factor cfg" "0 \<le> rnd"
  shows "calculateRetryDelay n cfg rnd \<le> calculateRetryDelay m cfg rnd"
proof -
  have "cfg_factor cfg ^ nat (n - 1) \<le> cfg_factor cfg ^ nat (m - 1)"
    using assms by (intro power_increasing) auto
  then have "baseDelay cfg * cfg_factor cfg ^ nat (n - 1) * (0.8 + rnd * 0.4)
           \<le> baseDelay cfg * cfg_factor cfg ^ nat (m - 1) * (0.8 + rnd * 0.4)"
    using assms by (intro mult_right_mono mult_left_mono) auto
  then show ?thesis
    using assms by (simp add: calculateRetryDelay_def Let_def powi_pred min.coboundedI1)
qed

section \<open>Properties: the retry classification\<close>

text \<open>
  C6, as the program has it.  The predicate \<open>isRetryableError\<close> of the info module, which
  \<open>fetchWithRetry\<close> uses: an error whose name contains a retryable type or whose
  lower-cased message contains a retryable keyword (network, timeout, connection, ...) is
  retryable; any other error with a status code is retryable exactly for the codes from 500
  up, 429 and 408 (so 401, 403 and 404 are not); any other error without a status code (an
  unknown error) is not retryable.  \<open>DEFAULT_RETRY_OPTIONS.shouldRetry\<close> retries every
  error.  The predicate \<open>isRetryableError\<close> of the download module knows no status code:
  an error is retryable when its lower-cased name contains \<open>network\<close> or its lower-cased
  message contains a transient keyword (network, connection, timeout, timed out, 429, 503,
  504); any other error is not retryable when its message names 404, 403, 401, 400 (or not
  found, forbidden, unauthorized, bad request, permission denied), and retryable otherwise.
\<close>

theorem retry_classification:
  "((\<exists>t \<in> set RETRYABLE_ERROR_TYPES. str_includes (name e) t) \<or>
    (\<exists>k \<in> set retryableMessages. str_includes (toLowerCase (message e)) k)
      \<longrightarrow> isRetryableError e) \<and>
   (\<not> (\<exists>t \<in> set RETRYABLE_ERROR_TYPES. str_includes (name e) t) \<and>
    \<not> (\<exists>k \<in> set retryableMessages. str_includes (toLowerCase (message e)) k)
      \<longrightarrow> isRetryableError e =
            (case statusCode e of
               Some sc \<Rightarrow> 500 \<le> sc \<or> sc = 429 \<or> sc = 408
             | None \<Rightarrow> False)) \<and>
   shouldRetry (DEFAULT_RETRY_OPTIONS :: 'w RetryOptions) e \<and>
   download_isRetryableError e =
     (str_includes (toLowerCase (name e)) ''network'' \<or>
      (\<exists>k \<in> set [''network'', ''connection'', ''timeout'', ''timed out'', ''429'', ''503'',
                   ''504'']. str_includes (toLowerCase (message e)) k) \<or>
      \<not> (\<exists>k \<in> set [''404'', ''403'', ''401'', ''400'', ''not found'', ''forbidden'',
                     ''unauthorized'', ''bad request'', ''permission denied''].
            str_includes (toLowerCase (message e)) k))"
proof -
  have a: "isRetryableError e"
    if "(\<exists>t \<in> set RETRYABLE_ERROR_TYPES. str_includes (name e) t) \<or>
        (\<exists>k \<in> set retryableMessages. str_includes (toLowerCase (message e)) k)"
    using that by (auto simp: isRetryableError_def some_def list_ex_iff Let_def)
  have b: "isRetryableError e =
             (case statusCode e of
                Some sc \<Rightarrow> 500 \<le> sc \<or> sc = 429 \<or> sc = 408
              | None \<Rightarrow> False)"
    if "\<not> (\<exists>t \<in> set RETRYABLE_ERROR_TYPES. str_includes (name e) t)"
       "\<not> (\<exists>k \<in> set retryableMessages. str_includes (toLowerCase (message e)) k)"
    using that by (simp add: isRetryableError_def some_def list_ex_iff Let_def)
  have c: "shouldRetry (DEFAULT_RETRY_OPTIONS :: 'w RetryOptions) e"
    by (simp add: DEFAULT_RETRY_OPTIONS_def)
  have d: "download_isRetryableError e =
     (str_includes (toLowerCase (name e)) ''network'' \<or>
      (\<exists>k \<in> set [''network'', ''connection'', ''timeout'', ''timed out'', ''429'', ''503'',
                   ''504'']. str_includes (toLowerCase (message e)) k) \<or>
      \<not> (\<exists>k \<in> set [''404'', ''403'', ''401'', ''400'', ''not found'', ''forbidden'',
                     ''unauthorized'', ''bad request'', ''permission denied''].
            str_includes (toLowerCase (message e)) k))"
    unfolding download_isRetryableError_def Let_def by (simp only: list.set ball_simps bex_simps
        insert_iff empty_iff bex_triv_one_point1 bex_Un) auto
  show ?thesis using a b c d by blast
qed

text \<open>
  The theorem at four errors: an HTTP 503 and a socket error are retryable, an HTTP 404 and
  an error that nothing classifies are not.
\<close>

theorem retry_classification_witness:
  "isRetryableError (example_http_error 503 ''Service Unavailable'') \<and>
   isRetryableError (Error ''socket hang up'') \<and>
   \<not> isRetryableError (example_http_error 404 ''Not Found'') \<and>
   \<not> isRetryableError (Error ''unexpected end of data'')"
proof -
  let ?e503 = "example_http_error 503 ''Service Unavailable''"
  let ?e404 = "example_http_error 404 ''Not Found''"
  let ?hang = "Error ''socket hang up''"
  let ?odd = "Error ''unexpected end of data''"
  have h1: "\<not> (\<exists>t \<in> set RETRYABLE_ERROR_TYPES. str_includes (name ?e503) t)"
       "\<not> (\<exists>k \<in> set retryableMessages. str_includes (toLowerCase (message ?e503)) k)"
    by code_simp+
  have s1: "statusCode ?e503 = Some 503"
    by code_simp
  from retry_classification [of ?e503] h1
  have "isRetryableError ?e503 =
          (case statusCode ?e503 of
             Some sc \<Rightarrow> 500 \<le> sc \<or> sc = 429 \<or> sc = 408
           | None \<Rightarrow> False)"
    by blast
  then have 1: "isRetryableError ?e503"
    by (simp add: s1)
  have "\<exists>k \<in> set retryableMessages. str_includes (toLowerCase (message ?hang)) k"
    by code_simp
  with retry_classification [of ?hang] have 2: "isRetryableError ?hang"
    by blast
  have h3: "\<not> (\<exists>t \<in> set RETRYABLE_ERROR_TYPES. str_includes (name ?e404) t)"
       "\<not> (\<exists>k \<in> set retryableMessages. str_includes (toLowerCase (message ?e404)) k)"
    by code_simp+
  have s3: "statusCode ?e404 = Some 404"
    by code_simp
  from retry_classification [of ?e404] h3
  have "isRetryableError ?e404 =
          (case statusCode ?e404 of
             Some sc \<Rightarrow> 500 \<le> sc \<or> sc = 429 \<or> sc = 408
           | None \<Rightarrow> False)"
    by blast
  then have 3: "\<not> isRetryableError ?e404"
    by (simp add: s3)
  have h4: "\<not> (\<exists>t \<in> set RETRYABLE_ERROR_TYPES. str_includes (name ?odd) t)"
       "\<not> (\<exists>k \<in> set retryableMessages. str_includes (toLowerCase (message ?odd)) k)"
    by code_simp+
  have s4: "statusCode ?odd = None"
    by code_simp
  from retry_classification [of ?odd] h4
  have "isRetryableError ?odd =
          (case statusCode ?odd of
             Some sc \<Rightarrow> 500 \<le> sc \<or> sc = 429 \<or> sc = 408
           | None \<Rightarrow> False)"
    by blast
  then have 4: "\<not> isRetryableError ?odd"
    by (simp add: s4)
  show ?thesis using 1 2 3 4 by blast
qed

text \<open>
  C6 as it is written fails for each of the three predicates: \<open>isRetryableError\<close> of the
  info module does not retry an unknown error, the default \<open>shouldRetry\<close> retries a 404,
  and \<open>isRetryableError\<close> of the download module retries a 410.
\<close>

theorem retry_classification_counterexample:
  "\<not> isRetryableError (Error ''unexpected end of data'') \<and>
   shouldRetry (DEFAULT_RETRY_OPTIONS :: unit RetryOptions)
     (example_http_error 404 ''Not Found'') \<and>
   download_isRetryableError (example_http_error 410 ''Gone'')"
  by code_simp

text \<open>
  The name comes first in the download module: a \<open>NetworkError\<close> is retryable there
  whatever its message says.
\<close>

lemma download_isRetryableError_name_example:
  "download_isRetryableError ((Error ''404 not found'')\<lparr>name := ''NetworkError''\<rparr>) \<and>
   \<not> download_isRetryableError (Error ''404 not found'')"
  by code_simp

section \<open>Properties: processBatch\<close>

text \<open>The values of the fulfilled, and the errors of the rejected, among a list of outcomes.\<close>

fun fulfilled :: "('e + 'r) list \<Rightarrow> 'r list" where
  "fulfilled [] = []"
| "fulfilled (Inr r # os) = r # fulfilled os"
| "fulfilled (Inl e # os) = fulfilled os"

fun rejected :: "('e + 'r) list \<Rightarrow> 'e list" where
  "rejected [] = []"
| "rejected (Inr r # os) = rejected os"
| "rejected (Inl e # os) = e # rejected os"

lemma fulfilled_rejected_length: "length (fulfilled os) + length (rejected os) = length os"
  by (induction os rule: fulfilled.induct) simp_all

text \<open>The retry loop is its body, repeated.\<close>

lemma withRetry_loop_step:
  "withRetry_loop fn opts attempt lastError w =
     (case withRetry_step fn opts attempt lastError w of
        (Settled r, w1) \<Rightarrow> (r, w1)
      | (Pending (a, e), w1) \<Rightarrow> withRetry_loop fn opts a e w1)"
  by (subst withRetry_loop.simps)
    (simp add: withRetry_step_def split: prod.splits sum.splits)

text \<open>One step of the pool: the schedule's choice is a running call.\<close>

lemma next_choice_less: "0 < running \<Longrightarrow> next_choice sched running < running"
  by (cases sched) (simp_all add: next_choice_def)

lemma promisePool_run_done: "promisePool_run fn options n sched ([], rs, s) = (rs, s)"
  by (subst promisePool_run.simps) simp

lemma promisePool_run_next:
  assumes "1 \<le> concurrency options" and "ts \<noteq> []"
  shows "promisePool_run fn options n sched (ts, rs, s) =
           promisePool_run fn options n (tl sched)
             (pool_step fn options n
                (next_choice sched (min (nat (concurrency options)) (length ts))) (ts, rs, s))"
proof -
  have "0 < nat (concurrency options)"
    using assms(1) by linarith
  with assms(2) have "min (nat (concurrency options)) (length ts) \<noteq> 0"
    by simp
  then show ?thesis
    by (subst promisePool_run.simps) (simp only: Let_def if_False)
qed

text \<open>
  What one step does to the call \<open>t\<close> between \<open>pre\<close> and \<open>post\<close>: the worker is called once
  and the call is fulfilled, rejected, or goes on; a call whose loop condition is false is
  rejected without a call of the worker.
\<close>

lemma pool_step_cases [consumes 0, case_names fulfilled rejected again spent]:
  fixes fn :: "'a \<Rightarrow> nat \<Rightarrow> ('w, 'r) async"
  assumes
    "\<And>v w1 s1. \<lbrakk> t_attempt t \<le> retries options;
        fn (t_item t) (t_index t) (world s) = (Inr v, w1);
        pool_step fn options n (length pre) (pre @ t # post, rs, s) = (pre @ post, rs @ [v], s1);
        allErrors s1 = allErrors s;
        world s1 = (case onProgress options of None \<Rightarrow> w1
                    | Some cb \<Rightarrow> cb (completed s + 1) n (allErrors s) w1) \<rbrakk> \<Longrightarrow> thesis"
    "\<And>e w1 s1. \<lbrakk> t_attempt t \<le> retries options;
        fn (t_item t) (t_index t) (world s) = (Inl e, w1);
        \<not> shouldRetry options e \<or> retries options < t_attempt t + 1;
        pool_step fn options n (length pre) (pre @ t # post, rs, s) = (pre @ post, rs, s1);
        allErrors s1 = allErrors s @ [e]; world s1 = w1 \<rbrakk> \<Longrightarrow> thesis"
    "\<And>e w1 s1. \<lbrakk> t_attempt t \<le> retries options;
        fn (t_item t) (t_index t) (world s) = (Inl e, w1);
        shouldRetry options e; t_attempt t + 1 \<le> retries options;
        pool_step fn options n (length pre) (pre @ t # post, rs, s) =
          (pre @ t\<lparr>t_attempt := t_attempt t + 1, t_lastError := e\<rparr> # post, rs, s1);
        allErrors s1 = allErrors s;
        world s1 = onRetry options e (t_attempt t + 1) w1 \<rbrakk> \<Longrightarrow> thesis"
    "\<And>s1. \<lbrakk> retries options < t_attempt t;
        pool_step fn options n (length pre) (pre @ t # post, rs, s) = (pre @ post, rs, s1);
        allErrors s1 = allErrors s @ [t_lastError t]; world s1 = world s \<rbrakk> \<Longrightarrow> thesis"
  shows thesis
proof (cases "t_attempt t \<le> retries options")
  case False
  then have "pool_step fn options n (length pre) (pre @ t # post, rs, s) =
               (pre @ post, rs, s\<lparr>allErrors := allErrors s @ [t_lastError t]\<rparr>)"
    by (simp add: pool_step_def batch_process_step_def withRetry_step_def batch_handleError_def)
  with False show ?thesis
    by (intro assms(4) [of "s\<lparr>allErrors := allErrors s @ [t_lastError t]\<rparr>"]) simp_all
next
  case True
  obtain r w1 where call: "fn (t_item t) (t_index t) (world s) = (r, w1)"
    by (cases "fn (t_item t) (t_index t) (world s)")
  show ?thesis
  proof (cases r)
    case (Inr v)
    show ?thesis
    proof (cases "onProgress options")
      case None
      with True call Inr show ?thesis
        by (intro assms(1) [of v w1 "s\<lparr>world := w1, completed := completed s + 1\<rparr>"])
          (simp_all add: pool_step_def batch_process_step_def withRetry_step_def Let_def)
    next
      case (Some cb)
      with True call Inr show ?thesis
        by (intro assms(1) [of v w1
              "s\<lparr>world := cb (completed s + 1) n (allErrors s) w1,
                 completed := completed s + 1\<rparr>"])
          (simp_all add: pool_step_def batch_process_step_def withRetry_step_def Let_def)
    qed
  next
    case (Inl e)
    show ?thesis
    proof (cases "shouldRetry options e \<and> t_attempt t + 1 \<le> retries options")
      case True
      with \<open>t_attempt t \<le> retries options\<close> call Inl show ?thesis
        by (intro assms(3) [of e w1 "s\<lparr>world := onRetry options e (t_attempt t + 1) w1\<rparr>"])
          (simp_all add: pool_step_def batch_process_step_def withRetry_step_def)
    next
      case False
      with \<open>t_attempt t \<le> retries options\<close> call Inl show ?thesis
        by (intro assms(2) [of e w1 "s\<lparr>world := w1, allErrors := allErrors s @ [e]\<rparr>"])
          (auto simp: pool_step_def batch_process_step_def withRetry_step_def
            batch_handleError_def)
    qed
  qed
qed

text \<open>
  Induction over a run of the pool, whatever the schedule: a property of the outcome that
  holds when no call is left, and holds before a step when it holds after it.
\<close>

lemma pool_run_induct [consumes 1, case_names empty step]:
  assumes c: "1 \<le> concurrency options"
    and fin: "\<And>rs s. Q [] rs s (rs, s)"
    and stp: "\<And>pre t post rs s ts2 rs2 s2 out.
              \<lbrakk> pool_step fn options n (length pre) (pre @ t # post, rs, s) = (ts2, rs2, s2);
                Q ts2 rs2 s2 out; int (length pre) < concurrency options \<rbrakk> \<Longrightarrow>
              Q (pre @ t # post) rs s out"
  shows "Q ts rs s (promisePool_run fn options n sched (ts, rs, s))"
proof -
  have "1 \<le> concurrency options \<Longrightarrow>
        (\<And>rs s. Q [] rs s (rs, s)) \<Longrightarrow>
        (\<And>pre t post rs s ts2 rs2 s2 out.
            pool_step fn options n (length pre) (pre @ t # post, rs, s) = (ts2, rs2, s2) \<Longrightarrow>
            Q ts2 rs2 s2 out \<Longrightarrow> int (length pre) < concurrency options \<Longrightarrow>
            Q (pre @ t # post) rs s out) \<Longrightarrow>
        Q (fst st) (fst (snd st)) (snd (snd st)) (promisePool_run fn options n sched st)"
    for st
  proof (induction fn options n sched st rule: promisePool_run.induct)
    case (1 fn options n sched ts rs s)
    show ?case
    proof (cases ts)
      case Nil
      with "1.prems" (2) show ?thesis
        by (simp add: promisePool_run_done)
    next
      case (Cons t0 ts0)
      define running where "running = min (nat (concurrency options)) (length ts)"
      define k where "k = next_choice sched running"
      have ne: "ts \<noteq> []"
        using Cons by simp
      have "0 < nat (concurrency options)"
        using "1.prems" (1) by linarith
      then have pos: "running \<noteq> 0"
        using ne by (simp add: running_def)
      then have kr: "k < running"
        by (simp add: k_def next_choice_less)
      then have k: "k < length ts"
        by (simp add: running_def)
      have kc: "int k < concurrency options"
        using kr by (simp add: running_def zless_nat_eq_int_zless)
      define pre t post where "pre = take k ts" and "t = ts ! k" and "post = drop (Suc k) ts"
      have ts: "ts = pre @ t # post" and len: "length pre = k"
        using k by (simp_all add: pre_def t_def post_def id_take_nth_drop [symmetric])
      obtain ts2 rs2 s2 where step: "pool_step fn options n k (ts, rs, s) = (ts2, rs2, s2)"
        by (cases "pool_step fn options n k (ts, rs, s)")
      have run: "promisePool_run fn options n sched (ts, rs, s) =
                   promisePool_run fn options n (tl sched) (ts2, rs2, s2)"
        using step promisePool_run_next [OF "1.prems" (1) ne, of fn n sched rs s]
        by (simp add: k_def running_def)
      have ih: "Q ts2 rs2 s2 (promisePool_run fn options n (tl sched) (ts2, rs2, s2))"
        using "1.IH" [OF running_def pos "1.prems"] step
        by (simp add: k_def)
      have st: "pool_step fn options n (length pre) (pre @ t # post, rs, s) = (ts2, rs2, s2)"
        using step by (simp add: ts [symmetric] len)
      have "int (length pre) < concurrency options"
        using kc by (simp add: len)
      with st ih have "Q (pre @ t # post) rs s
                         (promisePool_run fn options n (tl sched) (ts2, rs2, s2))"
        by (rule "1.prems" (3))
      then show ?thesis
        by (simp add: run ts [symmetric])
    qed
  qed
  from this [of "(ts, rs, s)", OF c fin stp] show ?thesis
    by simp
qed

text \<open>Every call that is not settled ends as one result or one collected error.\<close>

lemma pool_run_count:
  assumes "1 \<le> concurrency options"
  shows "length (fst (promisePool_run fn options n sched (ts, rs, s))) +
         length (allErrors (snd (promisePool_run fn options n sched (ts, rs, s)))) =
           length rs + length (allErrors s) + length ts"
  using assms
proof (induct rule: pool_run_induct
    [where Q = "\<lambda>ts rs s out.
       length (fst out) + length (allErrors (snd out)) =
         length rs + length (allErrors s) + length ts"])
  case (empty rs s)
  show ?case by simp
next
  case (step pre t post rs s ts2 rs2 s2 out)
  have "length rs2 + length (allErrors s2) + length ts2 =
          length rs + length (allErrors s) + length (pre @ t # post)"
    using step(1)
    by (cases rule: pool_step_cases [of t options fn s n pre post rs]) auto
  with step(2) show ?case
    by simp
qed

text \<open>
  A worker whose outcome does not depend on the state of the world: \<open>order\<close> is the order in
  which the calls settle.
\<close>

lemma pool_run_pure:
  assumes "1 \<le> concurrency options"
    and pure: "\<And>item index w. fst (fn item index w) = g item index"
  shows "(\<forall>t\<in>set ts. t_attempt t \<le> retries options \<and> t_item t = items ! t_index t) \<longrightarrow>
         distinct (map t_index ts) \<longrightarrow>
         (\<exists>order. distinct order \<and> set order = t_index ` set ts \<and>
            fst (promisePool_run fn options n sched (ts, rs, s)) =
              rs @ fulfilled (map (\<lambda>i. g (items ! i) i) order) \<and>
            allErrors (snd (promisePool_run fn options n sched (ts, rs, s))) =
              allErrors s @ rejected (map (\<lambda>i. g (items ! i) i) order))"
  using assms(1)
proof (induct rule: pool_run_induct
    [where Q = "\<lambda>ts rs s out.
       (\<forall>t\<in>set ts. t_attempt t \<le> retries options \<and> t_item t = items ! t_index t) \<longrightarrow>
       distinct (map t_index ts) \<longrightarrow>
       (\<exists>order. distinct order \<and> set order = t_index ` set ts \<and>
          fst out = rs @ fulfilled (map (\<lambda>i. g (items ! i) i) order) \<and>
          allErrors (snd out) = allErrors s @ rejected (map (\<lambda>i. g (items ! i) i) order))"])
  case (empty rs s)
  show ?case by simp
next
  case (step pre t post rs s ts2 rs2 s2 out)
  let ?G = "\<lambda>i. g (items ! i) i"
  show ?case
  proof (intro impI)
    assume inv: "\<forall>t\<in>set (pre @ t # post).
                   t_attempt t \<le> retries options \<and> t_item t = items ! t_index t"
      and dist: "distinct (map t_index (pre @ t # post))"
    have fresh: "t_index t \<notin> t_index ` set (pre @ post)"
      using dist by auto
    have rest: "\<forall>t\<in>set (pre @ post).
                  t_attempt t \<le> retries options \<and> t_item t = items ! t_index t"
      "distinct (map t_index (pre @ post))"
      using inv dist by auto
    have G: "fst (fn (t_item t) (t_index t) (world s)) = ?G (t_index t)"
      using pure [of "t_item t" "t_index t" "world s"] inv by simp
    show "\<exists>order. distinct order \<and> set order = t_index ` set (pre @ t # post) \<and>
            fst out = rs @ fulfilled (map ?G order) \<and>
            allErrors (snd out) = allErrors s @ rejected (map ?G order)"
    proof (cases rule: pool_step_cases [of t options fn s n pre post rs])
      case (fulfilled v w1 s1)
      with step(1) have eq: "ts2 = pre @ post" "rs2 = rs @ [v]" "s2 = s1"
        by simp_all
      from step(2) rest obtain order where o:
        "distinct order" "set order = t_index ` set (pre @ post)"
        "fst out = (rs @ [v]) @ fulfilled (map ?G order)"
        "allErrors (snd out) = allErrors s1 @ rejected (map ?G order)"
        unfolding eq by blast
      have "?G (t_index t) = Inr v"
        using G fulfilled(2) by simp
      with o fresh fulfilled(4)
      have "distinct (t_index t # order) \<and>
            set (t_index t # order) = t_index ` set (pre @ t # post) \<and>
            fst out = rs @ fulfilled (map ?G (t_index t # order)) \<and>
            allErrors (snd out) = allErrors s @ rejected (map ?G (t_index t # order))"
        by simp
      then show ?thesis ..
    next
      case (rejected e w1 s1)
      with step(1) have eq: "ts2 = pre @ post" "rs2 = rs" "s2 = s1"
        by simp_all
      from step(2) rest obtain order where o:
        "distinct order" "set order = t_index ` set (pre @ post)"
        "fst out = rs @ fulfilled (map ?G order)"
        "allErrors (snd out) = allErrors s1 @ rejected (map ?G order)"
        unfolding eq by blast
      have "?G (t_index t) = Inl e"
        using G rejected(2) by simp
      with o fresh rejected(5)
      have "distinct (t_index t # order) \<and>
            set (t_index t # order) = t_index ` set (pre @ t # post) \<and>
            fst out = rs @ fulfilled (map ?G (t_index t # order)) \<and>
            allErrors (snd out) = allErrors s @ rejected (map ?G (t_index t # order))"
        by simp
      then show ?thesis ..
    next
      case (again e w1 s1)
      define t1 where "t1 = t\<lparr>t_attempt := t_attempt t + 1, t_lastError := e\<rparr>"
      from again step(1) have eq: "ts2 = pre @ t1 # post" "rs2 = rs" "s2 = s1"
        by (simp_all add: t1_def)
      have "\<forall>t\<in>set (pre @ t1 # post).
              t_attempt t \<le> retries options \<and> t_item t = items ! t_index t"
        using inv again(4) by (simp add: t1_def)
      moreover have "distinct (map t_index (pre @ t1 # post))"
        using dist by (simp add: t1_def)
      ultimately obtain order where o:
        "distinct order" "set order = t_index ` set (pre @ t1 # post)"
        "fst out = rs @ fulfilled (map ?G order)"
        "allErrors (snd out) = allErrors s1 @ rejected (map ?G order)"
        using step(2) unfolding eq by blast
      have "set order = t_index ` set (pre @ t # post)"
        using o(2) by (simp add: t1_def)
      with o again(6) show ?thesis
        by auto
    next
      case (spent s1)
      with inv show ?thesis
        by simp
    qed
  qed
qed

text \<open>
  A world that keeps the list of the calls of the worker, each with its index and its
  outcome: \<open>made\<close> reads the list, the worker appends to it, the callbacks leave it alone.
\<close>

definition records_calls ::
  "('w \<Rightarrow> (nat \<times> (js_error + 'r)) list) \<Rightarrow> ('a \<Rightarrow> nat \<Rightarrow> ('w, 'r) async) \<Rightarrow>
   'w ProcessBatchOptions \<Rightarrow> bool"
where
  "records_calls made fn options \<longleftrightarrow>
     (\<forall>item index w. made (snd (fn item index w)) = made w @ [(index, fst (fn item index w))]) \<and>
     (\<forall>e a w. made (onRetry options e a w) = made w) \<and>
     (\<forall>cb c n es w. onProgress options = Some cb \<longrightarrow> made (cb c n es w) = made w)"

text \<open>The outcomes of the calls for the index \<open>i\<close>, and the last call for each index.\<close>

definition calls_of :: "nat \<Rightarrow> (nat \<times> 'o) list \<Rightarrow> 'o list" where
  "calls_of i cs = map snd (filter (\<lambda>c. fst c = i) cs)"

fun finals :: "(nat \<times> 'o) list \<Rightarrow> (nat \<times> 'o) list" where
  "finals [] = []"
| "finals (c # cs) = (if fst c \<in> fst ` set cs then finals cs else c # finals cs)"

text \<open>
  The outcomes of the calls for one item, as the retry policy allows them: at least one
  call and at most \<open>retries + 1\<close>; every call but the last failed with an error that
  \<open>shouldRetry\<close> accepts; the last call succeeded, or failed with an error that
  \<open>shouldRetry\<close> refuses, or was call number \<open>retries + 1\<close>.
\<close>

definition retried :: "('w, 'x) RetryOptions_scheme \<Rightarrow> (js_error + 'r) list \<Rightarrow> bool" where
  "retried options os \<longleftrightarrow>
     os \<noteq> [] \<and> int (length os) \<le> retries options + 1 \<and>
     list_all (\<lambda>out. case out of Inl e \<Rightarrow> shouldRetry options e | Inr v \<Rightarrow> False) (butlast os) \<and>
     (case last os of
        Inr v \<Rightarrow> True
      | Inl e \<Rightarrow> \<not> shouldRetry options e \<or> int (length os) = retries options + 1)"

text \<open>The same for a call that has made \<open>a\<close> attempts already.\<close>

fun attempts_from :: "('w, 'x) RetryOptions_scheme \<Rightarrow> int \<Rightarrow> (js_error + 'r) list \<Rightarrow> bool" where
  "attempts_from options a [] = False"
| "attempts_from options a [out] =
     (a \<le> retries options \<and>
      (case out of Inr v \<Rightarrow> True
       | Inl e \<Rightarrow> \<not> shouldRetry options e \<or> retries options < a + 1))"
| "attempts_from options a (out # out1 # os) =
     (a \<le> retries options \<and>
      (case out of Inr v \<Rightarrow> False
       | Inl e \<Rightarrow> shouldRetry options e \<and> a + 1 \<le> retries options) \<and>
      attempts_from options (a + 1) (out1 # os))"

lemma attempts_from_retried:
  "attempts_from options a os \<Longrightarrow>
   os \<noteq> [] \<and> a + int (length os) \<le> retries options + 1 \<and>
   list_all (\<lambda>out. case out of Inl e \<Rightarrow> shouldRetry options e | Inr v \<Rightarrow> False) (butlast os) \<and>
   (case last os of
      Inr v \<Rightarrow> True
    | Inl e \<Rightarrow> \<not> shouldRetry options e \<or> a + int (length os) = retries options + 1)"
proof (induction options a os rule: attempts_from.induct)
  case (1 options a)
  then show ?case by simp
next
  case (2 options a out)
  then show ?case
    by (auto split: sum.splits)
next
  case (3 options a out out1 os)
  then show ?case
    by (auto split: sum.splits)
qed

lemma calls_of_Cons:
  "calls_of i ((j, out) # cs) = (if j = i then out # calls_of i cs else calls_of i cs)"
  by (simp add: calls_of_def)

lemma calls_of_none: "i \<notin> fst ` set cs \<Longrightarrow> calls_of i cs = []"
  by (induction cs) (auto simp: calls_of_def)

text \<open>
  In a world that records the calls: \<open>new\<close> is the list of the calls the run makes.  Every
  call that is not settled is retried as the policy says, and the results and the
  collected errors are those of the last call for each item, in the order in which these
  calls were made.
\<close>

lemma pool_run_recorded:
  assumes "1 \<le> concurrency options"
    and rec: "records_calls made fn options"
  shows "(\<forall>t\<in>set ts. t_attempt t \<le> retries options) \<longrightarrow>
         distinct (map t_index ts) \<longrightarrow>
         (\<exists>new. made (world (snd (promisePool_run fn options n sched (ts, rs, s)))) =
                  made (world s) @ new \<and>
            fst ` set new = t_index ` set ts \<and>
            (\<forall>t\<in>set ts. attempts_from options (t_attempt t) (calls_of (t_index t) new)) \<and>
            fst (promisePool_run fn options n sched (ts, rs, s)) =
              rs @ fulfilled (map snd (finals new)) \<and>
            allErrors (snd (promisePool_run fn options n sched (ts, rs, s))) =
              allErrors s @ rejected (map snd (finals new)))"
  using assms(1)
proof (induct rule: pool_run_induct
    [where Q = "\<lambda>ts rs s out.
       (\<forall>t\<in>set ts. t_attempt t \<le> retries options) \<longrightarrow>
       distinct (map t_index ts) \<longrightarrow>
       (\<exists>new. made (world (snd out)) = made (world s) @ new \<and>
          fst ` set new = t_index ` set ts \<and>
          (\<forall>t\<in>set ts. attempts_from options (t_attempt t) (calls_of (t_index t) new)) \<and>
          fst out = rs @ fulfilled (map snd (finals new)) \<and>
          allErrors (snd out) = allErrors s @ rejected (map snd (finals new)))"])
  case (empty rs s)
  show ?case
    by (intro impI exI [of _ "[]"]) simp
next
  case (step pre t post rs s ts2 rs2 s2 out)
  define i where "i = t_index t"
  have call: "made (snd (fn (t_item t) i (world s))) =
                made (world s) @ [(i, fst (fn (t_item t) i (world s)))]"
    using rec by (simp add: records_calls_def)
  have retry: "\<And>e a w. made (onRetry options e a w) = made w"
    using rec by (simp add: records_calls_def)
  have progress: "\<And>cb c m es w. onProgress options = Some cb \<Longrightarrow> made (cb c m es w) = made w"
    using rec by (simp add: records_calls_def)
  show ?case
  proof (intro impI)
    assume inv: "\<forall>t\<in>set (pre @ t # post). t_attempt t \<le> retries options"
      and dist: "distinct (map t_index (pre @ t # post))"
    have fresh: "i \<notin> t_index ` set (pre @ post)"
      using dist by (auto simp: i_def)
    have others: "t_index u \<noteq> i" if "u \<in> set (pre @ post)" for u
      using that fresh by auto
    have rest: "\<forall>t\<in>set (pre @ post). t_attempt t \<le> retries options"
      "distinct (map t_index (pre @ post))"
      using inv dist by auto
    show "\<exists>new. made (world (snd out)) = made (world s) @ new \<and>
            fst ` set new = t_index ` set (pre @ t # post) \<and>
            (\<forall>t\<in>set (pre @ t # post).
               attempts_from options (t_attempt t) (calls_of (t_index t) new)) \<and>
            fst out = rs @ fulfilled (map snd (finals new)) \<and>
            allErrors (snd out) = allErrors s @ rejected (map snd (finals new))"
    proof (cases rule: pool_step_cases [of t options fn s n pre post rs])
      case (fulfilled v w1 s1)
      with step(1) have eq: "ts2 = pre @ post" "rs2 = rs @ [v]" "s2 = s1"
        by simp_all
      from step(2) rest obtain new where new:
        "made (world (snd out)) = made (world s1) @ new"
        "fst ` set new = t_index ` set (pre @ post)"
        "\<forall>t\<in>set (pre @ post). attempts_from options (t_attempt t) (calls_of (t_index t) new)"
        "fst out = (rs @ [v]) @ fulfilled (map snd (finals new))"
        "allErrors (snd out) = allErrors s1 @ rejected (map snd (finals new))"
        unfolding eq by blast
      have "made (world s1) = made w1"
        using fulfilled(5) progress by (cases "onProgress options") simp_all
      with call fulfilled(2) have m: "made (world s1) = made (world s) @ [(i, Inr v)]"
        by (simp add: i_def)
      have notin: "i \<notin> fst ` set new"
        using new(2) fresh by simp
      let ?new = "(i, Inr v) # new"
      have "made (world (snd out)) = made (world s) @ ?new"
        using new(1) m by simp
      moreover have "fst ` set ?new = t_index ` set (pre @ t # post)"
        using new(2) by (auto simp: i_def)
      moreover have "\<forall>u\<in>set (pre @ t # post).
                       attempts_from options (t_attempt u) (calls_of (t_index u) ?new)"
      proof
        fix u assume "u \<in> set (pre @ t # post)"
        then consider "u = t" | "u \<in> set (pre @ post)"
          by auto
        then show "attempts_from options (t_attempt u) (calls_of (t_index u) ?new)"
        proof cases
          case 1
          then show ?thesis
            using notin fulfilled(1) by (simp add: calls_of_Cons calls_of_none i_def [symmetric])
        next
          case 2
          with new(3) others [OF 2] show ?thesis
            by (simp add: calls_of_Cons)
        qed
      qed
      moreover have "finals ?new = (i, Inr v) # finals new"
        using notin by simp
      then have "fst out = rs @ fulfilled (map snd (finals ?new))"
        "allErrors (snd out) = allErrors s @ rejected (map snd (finals ?new))"
        using new(4,5) fulfilled(4) by simp_all
      ultimately show ?thesis
        by blast
    next
      case (rejected e w1 s1)
      with step(1) have eq: "ts2 = pre @ post" "rs2 = rs" "s2 = s1"
        by simp_all
      from step(2) rest obtain new where new:
        "made (world (snd out)) = made (world s1) @ new"
        "fst ` set new = t_index ` set (pre @ post)"
        "\<forall>t\<in>set (pre @ post). attempts_from options (t_attempt t) (calls_of (t_index t) new)"
        "fst out = rs @ fulfilled (map snd (finals new))"
        "allErrors (snd out) = allErrors s1 @ rejected (map snd (finals new))"
        unfolding eq by blast
      from call rejected(2,6) have m: "made (world s1) = made (world s) @ [(i, Inl e)]"
        by (simp add: i_def)
      have notin: "i \<notin> fst ` set new"
        using new(2) fresh by simp
      let ?new = "(i, Inl e) # new"
      have "made (world (snd out)) = made (world s) @ ?new"
        using new(1) m by simp
      moreover have "fst ` set ?new = t_index ` set (pre @ t # post)"
        using new(2) by (auto simp: i_def)
      moreover have "\<forall>u\<in>set (pre @ t # post).
                       attempts_from options (t_attempt u) (calls_of (t_index u) ?new)"
      proof
        fix u assume "u \<in> set (pre @ t # post)"
        then consider "u = t" | "u \<in> set (pre @ post)"
          by auto
        then show "attempts_from options (t_attempt u) (calls_of (t_index u) ?new)"
        proof cases
          case 1
          then show ?thesis
            using notin rejected(1,3)
            by (simp add: calls_of_Cons calls_of_none i_def [symmetric])
        next
          case 2
          with new(3) others [OF 2] show ?thesis
            by (simp add: calls_of_Cons)
        qed
      qed
      moreover have "finals ?new = (i, Inl e) # finals new"
        using notin by simp
      then have "fst out = rs @ fulfilled (map snd (finals ?new))"
        "allErrors (snd out) = allErrors s @ rejected (map snd (finals ?new))"
        using new(4,5) rejected(5) by simp_all
      ultimately show ?thesis
        by blast
    next
      case (again e w1 s1)
      define t1 where "t1 = t\<lparr>t_attempt := t_attempt t + 1, t_lastError := e\<rparr>"
      from again step(1) have eq: "ts2 = pre @ t1 # post" "rs2 = rs" "s2 = s1"
        by (simp_all add: t1_def)
      have "\<forall>t\<in>set (pre @ t1 # post). t_attempt t \<le> retries options"
        using inv again(4) by (simp add: t1_def)
      moreover have "distinct (map t_index (pre @ t1 # post))"
        using dist by (simp add: t1_def)
      ultimately obtain new where new:
        "made (world (snd out)) = made (world s1) @ new"
        "fst ` set new = t_index ` set (pre @ t1 # post)"
        "\<forall>t\<in>set (pre @ t1 # post).
           attempts_from options (t_attempt t) (calls_of (t_index t) new)"
        "fst out = rs @ fulfilled (map snd (finals new))"
        "allErrors (snd out) = allErrors s1 @ rejected (map snd (finals new))"
        using step(2) unfolding eq by blast
      from call again(2,7) retry have m: "made (world s1) = made (world s) @ [(i, Inl e)]"
        by (simp add: i_def)
      have isin: "i \<in> fst ` set new"
        using new(2) by (simp add: t1_def i_def)
      have later: "attempts_from options (t_attempt t + 1) (calls_of i new)"
        using new(3) by (simp add: t1_def i_def)
      then obtain out1 os where os: "calls_of i new = out1 # os"
        by (cases "calls_of i new") simp_all
      let ?new = "(i, Inl e) # new"
      have "made (world (snd out)) = made (world s) @ ?new"
        using new(1) m by simp
      moreover have "fst ` set ?new = t_index ` set (pre @ t # post)"
        using new(2) by (auto simp: i_def t1_def)
      moreover have "\<forall>u\<in>set (pre @ t # post).
                       attempts_from options (t_attempt u) (calls_of (t_index u) ?new)"
      proof
        fix u assume "u \<in> set (pre @ t # post)"
        then consider "u = t" | "u \<in> set (pre @ post)"
          by auto
        then show "attempts_from options (t_attempt u) (calls_of (t_index u) ?new)"
        proof cases
          case 1
          have "attempts_from options (t_attempt t) (Inl e # out1 # os)"
            using later again(1,3,4) by (simp add: os)
          with 1 show ?thesis
            by (simp add: calls_of_Cons i_def [symmetric] os)
        next
          case 2
          then have "u \<in> set (pre @ t1 # post)"
            by auto
          with new(3) have "attempts_from options (t_attempt u) (calls_of (t_index u) new)"
            by blast
          with others [OF 2] show ?thesis
            by (simp add: calls_of_Cons)
        qed
      qed
      moreover have "finals ?new = finals new"
        using isin by simp
      then have "fst out = rs @ fulfilled (map snd (finals ?new))"
        "allErrors (snd out) = allErrors s @ rejected (map snd (finals ?new))"
        using new(4,5) again(6) by simp_all
      ultimately show ?thesis
        by blast
    next
      case (spent s1)
      with inv show ?thesis
        by simp
    qed
  qed
qed

text \<open>
  The last calls, one for each index that was called: their indices are an order of the
  indices, and their outcomes are the outcomes of the last call for each.
\<close>

lemma calls_of_some: "i \<in> fst ` set cs \<Longrightarrow> calls_of i cs \<noteq> []"
  by (induction cs) (auto simp: calls_of_def)

lemma finals_order:
  "distinct (map fst (finals cs)) \<and> set (map fst (finals cs)) = fst ` set cs \<and>
   map snd (finals cs) = map (\<lambda>i. last (calls_of i cs)) (map fst (finals cs))"
proof (induction cs)
  case Nil
  show ?case by simp
next
  case (Cons c cs)
  obtain j out where c: "c = (j, out)"
    by (cases c)
  from Cons.IH have d: "distinct (map fst (finals cs))"
    and s: "set (map fst (finals cs)) = fst ` set cs"
    and m: "map snd (finals cs) = map (\<lambda>i. last (calls_of i cs)) (map fst (finals cs))"
    by simp_all
  show ?case
  proof (cases "j \<in> fst ` set cs")
    case True
    have "map (\<lambda>i. last (calls_of i (c # cs))) (map fst (finals cs)) =
          map (\<lambda>i. last (calls_of i cs)) (map fst (finals cs))"
    proof (rule map_cong [OF refl])
      fix i assume "i \<in> set (map fst (finals cs))"
      then have "calls_of i cs \<noteq> []"
        unfolding s by (rule calls_of_some)
      then show "last (calls_of i (c # cs)) = last (calls_of i cs)"
        by (simp add: c calls_of_Cons)
    qed
    with True d s m show ?thesis
      by (auto simp: c)
  next
    case False
    have "map (\<lambda>i. last (calls_of i (c # cs))) (map fst (finals cs)) =
          map (\<lambda>i. last (calls_of i cs)) (map fst (finals cs))"
    proof (rule map_cong [OF refl])
      fix i assume "i \<in> set (map fst (finals cs))"
      then have "i \<noteq> j"
        unfolding s using False by auto
      then show "last (calls_of i (c # cs)) = last (calls_of i cs)"
        by (simp add: c calls_of_Cons)
    qed
    moreover have "last (calls_of j (c # cs)) = out"
      using False by (simp add: c calls_of_Cons calls_of_none)
    moreover have "j \<notin> set (map fst (finals cs))"
      unfolding s using False .
    ultimately show ?thesis
      using False d s m by (auto simp: c)
  qed
qed

text \<open>The calls the pool starts with: one for each item, in input order.\<close>

lemma start_tasks_index:
  "map t_index (map start_task (zip items [0..<length items])) = [0..<length items]"
proof -
  have "map t_index (map start_task (zip items [0..<length items])) =
          map snd (zip items [0..<length items])"
    by (simp add: start_task_def split_def comp_def)
  then show ?thesis
    by simp
qed

lemma start_tasks_fresh:
  assumes "t \<in> set (map start_task (zip items [0..<length items]))"
  shows "t_attempt t = 0 \<and> t_item t = items ! t_index t \<and> t_index t < length items"
proof -
  from assms obtain x i where "(x, i) \<in> set (zip items [0..<length items])"
    and t: "t = start_task (x, i)"
    by auto
  then have "i < length items \<and> x = items ! i"
    by (auto simp: set_zip)
  with t show ?thesis
    by (simp add: start_task_def)
qed

lemma processBatch_run:
  assumes "1 \<le> concurrency options"
  shows "processBatch sched items fn options w =
           (let out = promisePool_run fn options (length items) sched
                        (map start_task (zip items [0..<length items]), [],
                         \<lparr> world = w, completed = 0, allErrors = [] \<rparr>)
            in (Inr \<lparr> results = fst out, errors = allErrors (snd out) \<rparr>, world (snd out)))"
  using assms by (simp add: processBatch_def promisePool_def Let_def split: prod.splits)

text \<open>
  A pool of concurrency 1 has one running call and no choice: it runs the function given
  to \<open>process\<close> for each item in turn, in input order.
\<close>

fun in_turn ::
  "('a \<Rightarrow> nat \<Rightarrow> ('s, 'r) async) \<Rightarrow> (js_error \<Rightarrow> 'a \<Rightarrow> 's \<Rightarrow> 's) \<Rightarrow>
   ('a \<times> nat) list \<Rightarrow> 'r list \<Rightarrow> 's \<Rightarrow> 'r list \<times> 's"
where
  "in_turn f h [] rs s = (rs, s)"
| "in_turn f h ((item, index) # rest) rs s =
     (case f item index s of
        (Inr r, s1) \<Rightarrow> in_turn f h rest (rs @ [r]) s1
      | (Inl e, s1) \<Rightarrow> in_turn f h rest rs (h e item s1))"

lemma pool_run_one_schedule:
  assumes "concurrency options = 1"
  shows "promisePool_run fn options n sched (ts, rs, s) =
         promisePool_run fn options n [] (ts, rs, s)"
proof -
  have c: "1 \<le> concurrency options"
    using assms by simp
  then show ?thesis
  proof (induct rule: pool_run_induct
      [where Q = "\<lambda>ts rs s out. out = promisePool_run fn options n [] (ts, rs, s)"])
    case (empty rs s)
    show ?case
      by (simp add: promisePool_run_done)
  next
    case (step pre t post rs s ts2 rs2 s2 out)
    from step(3) assms have pre: "pre = []"
      by simp
    have "promisePool_run fn options n [] (t # post, rs, s) =
            promisePool_run fn options n [] (pool_step fn options n 0 (t # post, rs, s))"
      using promisePool_run_next [OF c, of "t # post" fn n "[]" rs s] assms
      by (simp add: next_choice_def)
    with step(1) step(2) show ?case
      by (simp add: pre)
  qed
qed

lemma pool_run_alone:
  assumes "concurrency options = 1"
  shows "promisePool_run fn options n []
           (\<lparr> t_item = item, t_index = index, t_attempt = a, t_lastError = le \<rparr> # ts, rs, s) =
         (case withRetry_loop (fn item index) options a le (world s) of
            (Inl e, w1) \<Rightarrow>
              promisePool_run fn options n []
                (ts, rs, batch_handleError e item (s\<lparr>world := w1\<rparr>))
          | (Inr result, w1) \<Rightarrow>
              (let s1 = s\<lparr>world := w1, completed := completed s + 1\<rparr>;
                   s2 = (case onProgress options of
                           None \<Rightarrow> s1
                         | Some cb \<Rightarrow>
                             s1\<lparr>world := cb (completed s1) n (allErrors s1) (world s1)\<rparr>)
               in promisePool_run fn options n [] (ts, rs @ [result], s2)))"
proof (induction "nat (retries options + 1 - a)" arbitrary: a le s rule: less_induct)
  case less
  let ?t = "\<lparr> t_item = item, t_index = index, t_attempt = a, t_lastError = le \<rparr>"
  have c: "1 \<le> concurrency options"
    using assms by simp
  have unfold: "promisePool_run fn options n [] (?t # ts, rs, s) =
                  promisePool_run fn options n [] (pool_step fn options n 0 (?t # ts, rs, s))"
    using promisePool_run_next [OF c, of "?t # ts" fn n "[]" rs s] assms
    by (simp add: next_choice_def)
  obtain p w1 where st: "withRetry_step (fn item index) options a le (world s) = (p, w1)"
    by (cases "withRetry_step (fn item index) options a le (world s)")
  show ?case
  proof (cases p)
    case (Settled r)
    with st show ?thesis
      unfolding unfold
      by (cases r)
        (simp_all add: pool_step_def batch_process_step_def Let_def
          withRetry_loop_step [of "fn item index" options a le])
  next
    case (Pending ae)
    obtain a1 e where ae: "ae = (a1, e)"
      by (cases ae)
    from st Pending ae have a1: "a1 = a + 1" "a + 1 \<le> retries options"
      by (auto simp: withRetry_step_def split: if_splits prod.splits sum.splits)
    then have "nat (retries options + 1 - a1) < nat (retries options + 1 - a)"
      by simp
    note IH = less [OF this, of e "s\<lparr>world := w1\<rparr>"]
    obtain r w2 where loop: "withRetry_loop (fn item index) options a1 e w1 = (r, w2)"
      by (cases "withRetry_loop (fn item index) options a1 e w1")
    from IH loop st Pending ae show ?thesis
      unfolding unfold
      by (cases r)
        (simp_all add: pool_step_def batch_process_step_def
          withRetry_loop_step [of "fn item index" options a le])
  qed
qed

lemma pool_run_in_turn:
  assumes "concurrency options = 1"
  shows "promisePool_run fn options n sched (map start_task xs, rs, s) =
         in_turn (batch_process fn options n) batch_handleError xs rs s"
proof -
  have "promisePool_run fn options n [] (map start_task xs, rs, s) =
        in_turn (batch_process fn options n) batch_handleError xs rs s"
  proof (induction xs arbitrary: rs s)
    case Nil
    show ?case
      by (simp add: promisePool_run_done)
  next
    case (Cons x xs)
    obtain item index where x: "x = (item, index)"
      by (cases x)
    obtain r w1 where run: "withRetry (fn item index) options (world s) = (r, w1)"
      by (cases "withRetry (fn item index) options (world s)")
    show ?case
    proof (cases r)
      case (Inl e)
      with run Cons.IH x show ?thesis
        using pool_run_alone [OF assms, of fn n item index 0
            "Error ''Unknown error during retry''" "map start_task xs" rs s]
        by (simp add: start_task_def batch_process_def batch_handleError_def
            withRetry_def [symmetric])
    next
      case (Inr v)
      with run Cons.IH x show ?thesis
        using pool_run_alone [OF assms, of fn n item index 0
            "Error ''Unknown error during retry''" "map start_task xs" rs s]
        by (simp add: start_task_def batch_process_def Let_def withRetry_def [symmetric])
    qed
  qed
  then show ?thesis
    by (simp add: pool_run_one_schedule [OF assms, of fn n sched])
qed

lemma processBatch_in_turn:
  assumes "concurrency options = 1"
  shows "processBatch sched items fn options w =
           (case in_turn (batch_process fn options (length items)) batch_handleError
                   (zip items [0..<length items]) []
                   \<lparr> world = w, completed = 0, allErrors = [] \<rparr> of
              (rs, s) \<Rightarrow> (Inr \<lparr> results = rs, errors = allErrors s \<rparr>, world s))"
  using assms
  by (simp add: processBatch_def promisePool_def Let_def pool_run_in_turn split: prod.splits)

text \<open>
  C1.  For every list of items, every worker and every schedule, \<open>processBatch\<close> (with a
  concurrency the pool accepts) does not throw and returns an outcome with \<open>len(results) +
  len(errors) = len(items)\<close>.  Every item contributes exactly one outcome, and a failing
  item takes nothing away from the others (\<open>retries \<ge> 0\<close>):

  \<^item> when the outcome of the worker on an item does not depend on the state of the world,
    \<open>results\<close> are the values of the items that succeed and \<open>errors\<close> the errors of the
    items that fail, both in the order in which the items settle, which is some order of
    all the items;

  \<^item> in a world that records the calls of the worker, the worker is called for every item
    and for nothing else; the calls for each item are retried as the policy says (the
    last one succeeded, or it failed and was call number \<open>retries + 1\<close> or \<open>shouldRetry\<close>
    refused its error); \<open>results\<close> are the values of the last calls that succeeded and
    \<open>errors\<close> the errors of the last calls that failed, in some order of all the items.
\<close>

theorem processBatch_one_outcome_per_item:
  assumes "1 \<le> concurrency options"
  shows "\<exists>out w1.
           processBatch sched items fn options w = (Inr out, w1) \<and>
           length (results out) + length (errors out) = length items \<and>
           (0 \<le> retries options \<and> (\<forall>item index w0. fst (fn item index w0) = g item index) \<longrightarrow>
              (\<exists>order. distinct order \<and> set order = {0..<length items} \<and>
                 results out = fulfilled (map (\<lambda>i. g (items ! i) i) order) \<and>
                 errors out = rejected (map (\<lambda>i. g (items ! i) i) order))) \<and>
           (0 \<le> retries options \<and> records_calls made fn options \<longrightarrow>
              (\<exists>new. made w1 = made w @ new \<and> fst ` set new = {0..<length items} \<and>
                 (\<forall>i<length items. retried options (calls_of i new)) \<and>
                 (\<exists>order. distinct order \<and> set order = {0..<length items} \<and>
                    results out = fulfilled (map (\<lambda>i. last (calls_of i new)) order) \<and>
                    errors out = rejected (map (\<lambda>i. last (calls_of i new)) order))))"
proof -
  define ts0 where "ts0 = map start_task (zip items [0..<length items])"
  define s0 where "s0 = \<lparr> world = w, completed = 0, allErrors = [] \<rparr>"
  define run where "run = promisePool_run fn options (length items) sched (ts0, [], s0)"
  define out where "out = \<lparr> results = fst run, errors = allErrors (snd run) \<rparr>"
  define w1 where "w1 = world (snd run)"
  have s0: "world s0 = w" "allErrors s0 = []"
    by (simp_all add: s0_def)
  have res: "processBatch sched items fn options w = (Inr out, w1)"
    using processBatch_run [OF assms, of sched items fn w]
    by (simp add: Let_def run_def out_def w1_def ts0_def s0_def)
  have len: "length ts0 = length items"
    by (simp add: ts0_def)
  have cnt: "length (results out) + length (errors out) = length items"
    using pool_run_count [OF assms, of fn "length items" sched ts0 "[]" s0]
    by (simp add: out_def run_def s0 len)
  have index: "map t_index ts0 = [0..<length items]"
    unfolding ts0_def by (rule start_tasks_index)
  have dist: "distinct (map t_index ts0)"
    by (simp only: index distinct_upt)
  have "set (map t_index ts0) = {0..<length items}"
    by (simp only: index set_upt)
  then have idx: "t_index ` set ts0 = {0..<length items}"
    by simp
  have fresh: "t_attempt t = 0 \<and> t_item t = items ! t_index t" if "t \<in> set ts0" for t
    using start_tasks_fresh [of t items] that by (simp add: ts0_def)
  have pure: "0 \<le> retries options \<and> (\<forall>item index w0. fst (fn item index w0) = g item index) \<longrightarrow>
              (\<exists>order. distinct order \<and> set order = {0..<length items} \<and>
                 results out = fulfilled (map (\<lambda>i. g (items ! i) i) order) \<and>
                 errors out = rejected (map (\<lambda>i. g (items ! i) i) order))"
  proof (intro impI, elim conjE)
    assume r: "0 \<le> retries options"
      and p: "\<forall>item index w0. fst (fn item index w0) = g item index"
    have inv: "\<forall>t\<in>set ts0. t_attempt t \<le> retries options \<and> t_item t = items ! t_index t"
      using fresh r by simp
    have "\<exists>order. distinct order \<and> set order = t_index ` set ts0 \<and>
            fst run = [] @ fulfilled (map (\<lambda>i. g (items ! i) i) order) \<and>
            allErrors (snd run) = allErrors s0 @ rejected (map (\<lambda>i. g (items ! i) i) order)"
      unfolding run_def
      by (rule pool_run_pure [OF assms p [rule_format], THEN mp, OF inv, THEN mp, OF dist])
    then show "\<exists>order. distinct order \<and> set order = {0..<length items} \<and>
                 results out = fulfilled (map (\<lambda>i. g (items ! i) i) order) \<and>
                 errors out = rejected (map (\<lambda>i. g (items ! i) i) order)"
      by (simp add: out_def idx s0)
  qed
  have recorded: "0 \<le> retries options \<and> records_calls made fn options \<longrightarrow>
              (\<exists>new. made w1 = made w @ new \<and> fst ` set new = {0..<length items} \<and>
                 (\<forall>i<length items. retried options (calls_of i new)) \<and>
                 (\<exists>order. distinct order \<and> set order = {0..<length items} \<and>
                    results out = fulfilled (map (\<lambda>i. last (calls_of i new)) order) \<and>
                    errors out = rejected (map (\<lambda>i. last (calls_of i new)) order)))"
  proof (intro impI, elim conjE)
    assume r: "0 \<le> retries options" and rc: "records_calls made fn options"
    have inv: "\<forall>t\<in>set ts0. t_attempt t \<le> retries options"
      using fresh r by simp
    have "\<exists>new. made (world (snd run)) = made (world s0) @ new \<and>
            fst ` set new = t_index ` set ts0 \<and>
            (\<forall>t\<in>set ts0. attempts_from options (t_attempt t) (calls_of (t_index t) new)) \<and>
            fst run = [] @ fulfilled (map snd (finals new)) \<and>
            allErrors (snd run) = allErrors s0 @ rejected (map snd (finals new))"
      unfolding run_def
      by (rule pool_run_recorded [OF assms rc, THEN mp, OF inv, THEN mp, OF dist])
    then obtain new where new:
      "made w1 = made w @ new"
      "fst ` set new = {0..<length items}"
      "\<forall>t\<in>set ts0. attempts_from options (t_attempt t) (calls_of (t_index t) new)"
      "results out = fulfilled (map snd (finals new))"
      "errors out = rejected (map snd (finals new))"
      unfolding out_def idx s0 w1_def by (elim exE conjE) simp
    have "retried options (calls_of i new)" if "i < length items" for i
    proof -
      have "i \<in> t_index ` set ts0"
        using that by (simp only: idx) simp
      then obtain t where t: "t \<in> set ts0" "i = t_index t"
        by blast
      from new(3) t(1) have "attempts_from options (t_attempt t) (calls_of (t_index t) new)"
        by (rule bspec)
      with fresh [OF t(1)] t(2) have "attempts_from options 0 (calls_of i new)"
        by simp
      from attempts_from_retried [OF this] show ?thesis
        by (auto simp: retried_def split: sum.splits)
    qed
    then have all: "\<forall>i<length items. retried options (calls_of i new)"
      by simp
    define order where "order = map fst (finals new)"
    have "distinct order" "set order = {0..<length items}"
      "map snd (finals new) = map (\<lambda>i. last (calls_of i new)) order"
      using finals_order [of new] new(2) by (simp_all add: order_def)
    with new(4,5)
    have "distinct order \<and> set order = {0..<length items} \<and>
          results out = fulfilled (map (\<lambda>i. last (calls_of i new)) order) \<and>
          errors out = rejected (map (\<lambda>i. last (calls_of i new)) order)"
      by simp
    then have "\<exists>order. distinct order \<and> set order = {0..<length items} \<and>
          results out = fulfilled (map (\<lambda>i. last (calls_of i new)) order) \<and>
          errors out = rejected (map (\<lambda>i. last (calls_of i new)) order)"
      by (rule exI)
    with new(1,2) all
    show "\<exists>new. made w1 = made w @ new \<and> fst ` set new = {0..<length items} \<and>
            (\<forall>i<length items. retried options (calls_of i new)) \<and>
            (\<exists>order. distinct order \<and> set order = {0..<length items} \<and>
               results out = fulfilled (map (\<lambda>i. last (calls_of i new)) order) \<and>
               errors out = rejected (map (\<lambda>i. last (calls_of i new)) order))"
      by (intro exI [of _ new] conjI)
  qed
  from res cnt pure recorded show ?thesis
    by (intro exI [of _ out] exI [of _ w1] conjI)
qed

text \<open>
  The theorem at two runs with the default options (concurrency 3, three retries).

  A batch of four items of which two fail, with a schedule that lets the third item settle
  first: two results, in the order 32, 10 in which the items settled, and two errors.

  A batch of two items in a world that records the calls, the calls of the two items
  alternating: the item 2 is called four times and ends as the one error, the item 1 fails
  once, is called again and ends as the one result.
\<close>

theorem processBatch_one_outcome_per_item_witness:
  "processBatch [2] [1, 2, 3, 2] example_worker DEFAULT_BATCH_OPTIONS 0 =
     (Inr \<lparr> results = [32, 10],
            errors = [Error ''item 2 is malformed'', Error ''item 2 is malformed''] \<rparr>, 10) \<and>
   (\<exists>order. distinct order \<and> set order = {0..<4} \<and>
      [32, 10] = fulfilled (map (\<lambda>i. example_outcome ([1, 2, 3, 2] ! i) i) order) \<and>
      [Error ''item 2 is malformed'', Error ''item 2 is malformed''] =
        rejected (map (\<lambda>i. example_outcome ([1, 2, 3, 2] ! i) i) order)) \<and>
   (\<exists>new.
      processBatch [1, 0, 1] [2, 1] example_recorder DEFAULT_BATCH_OPTIONS [] =
        (Inr \<lparr> results = [11], errors = [Error ''item 2 is malformed''] \<rparr>, new) \<and>
      calls_of 0 new =
        [Inl (Error ''item 2 is malformed''), Inl (Error ''item 2 is malformed''),
         Inl (Error ''item 2 is malformed''), Inl (Error ''item 2 is malformed'')] \<and>
      calls_of 1 new = [Inl (Error ''try again''), Inr 11] \<and>
      fst ` set new = {0..<2} \<and>
      retried (DEFAULT_BATCH_OPTIONS :: (nat \<times> (js_error + nat)) list ProcessBatchOptions)
        (calls_of 0 new) \<and>
      retried (DEFAULT_BATCH_OPTIONS :: (nat \<times> (js_error + nat)) list ProcessBatchOptions)
        (calls_of 1 new) \<and>
      (\<exists>order. distinct order \<and> set order = {0..<2} \<and>
         [11] = fulfilled (map (\<lambda>i. last (calls_of i new)) order) \<and>
         [Error ''item 2 is malformed''] =
           rejected (map (\<lambda>i. last (calls_of i new)) order)))"
proof -
  let ?A = "DEFAULT_BATCH_OPTIONS :: nat ProcessBatchOptions"
  let ?B = "DEFAULT_BATCH_OPTIONS :: (nat \<times> (js_error + nat)) list ProcessBatchOptions"
  let ?m = "Error ''item 2 is malformed''"
  let ?new = "[(1, Inl (Error ''try again'')), (0, Inl ?m), (1, Inr 11),
              (0, Inl ?m), (0, Inl ?m), (0, Inl ?m)] :: (nat \<times> (js_error + nat)) list"
  have cA: "1 \<le> concurrency ?A" and rA: "0 \<le> retries ?A"
    by (simp_all add: DEFAULT_BATCH_OPTIONS_def)
  have cB: "1 \<le> concurrency ?B" and rB: "0 \<le> retries ?B"
    by (simp_all add: DEFAULT_BATCH_OPTIONS_def)
  have pure: "\<forall>item index w0. fst (example_worker item index w0) = example_outcome item index"
    by (simp add: example_worker_def)
  have rec: "records_calls (\<lambda>made. made) example_recorder ?B"
    by (simp add: records_calls_def example_recorder_def DEFAULT_BATCH_OPTIONS_def Let_def)
  have runA: "processBatch [2] [1, 2, 3, 2] example_worker ?A 0 =
                (Inr \<lparr> results = [32, 10], errors = [?m, ?m] \<rparr>, 10)"
    by code_simp
  have runB: "processBatch [1, 0, 1] [2, 1] example_recorder ?B [] =
                (Inr \<lparr> results = [11], errors = [?m] \<rparr>, ?new)"
    by code_simp
  have c0: "calls_of 0 ?new = [Inl ?m, Inl ?m, Inl ?m, Inl ?m]"
    and c1: "calls_of 1 ?new = [Inl (Error ''try again''), Inr 11]"
    by (simp_all add: calls_of_def)
  have lA: "length [1, 2, 3, 2 :: nat] = 4" and lB: "length [2, 1 :: nat] = 2"
    by simp_all
  from processBatch_one_outcome_per_item
    [OF cA, of "[2]" "[1, 2, 3, 2]" example_worker 0 example_outcome "\<lambda>w. []"]
  obtain outA wA where
    a1: "processBatch [2] [1, 2, 3, 2] example_worker ?A 0 = (Inr outA, wA)" and
    a2: "0 \<le> retries ?A \<and>
       (\<forall>item index w0. fst (example_worker item index w0) = example_outcome item index) \<longrightarrow>
     (\<exists>order. distinct order \<and> set order = {0..<length [1, 2, 3, 2 :: nat]} \<and>
        results outA = fulfilled (map (\<lambda>i. example_outcome ([1, 2, 3, 2] ! i) i) order) \<and>
        errors outA = rejected (map (\<lambda>i. example_outcome ([1, 2, 3, 2] ! i) i) order))"
    by (elim exE conjE) (rule that; assumption)
  from a1 have outA: "outA = \<lparr> results = [32, 10], errors = [?m, ?m] \<rparr>"
    unfolding runA by simp
  from rA pure
  have "0 \<le> retries ?A \<and>
       (\<forall>item index w0. fst (example_worker item index w0) = example_outcome item index)"
    by (rule conjI)
  with a2
  have "\<exists>order. distinct order \<and> set order = {0..<length [1, 2, 3, 2 :: nat]} \<and>
        results outA = fulfilled (map (\<lambda>i. example_outcome ([1, 2, 3, 2] ! i) i) order) \<and>
        errors outA = rejected (map (\<lambda>i. example_outcome ([1, 2, 3, 2] ! i) i) order)"
    by (rule mp)
  then
  have A: "\<exists>order. distinct order \<and> set order = {0..<4} \<and>
             [32, 10] = fulfilled (map (\<lambda>i. example_outcome ([1, 2, 3, 2] ! i) i) order) \<and>
             [?m, ?m] = rejected (map (\<lambda>i. example_outcome ([1, 2, 3, 2] ! i) i) order)"
    unfolding lA outA by simp
  from processBatch_one_outcome_per_item
    [OF cB, of "[1, 0, 1]" "[2, 1]" example_recorder "[]" "\<lambda>item index. Inr 0" "\<lambda>made. made"]
  obtain outB wB where
    b1: "processBatch [1, 0, 1] [2, 1] example_recorder ?B [] = (Inr outB, wB)" and
    b2: "0 \<le> retries ?B \<and> records_calls (\<lambda>made. made) example_recorder ?B \<longrightarrow>
     (\<exists>new. wB = [] @ new \<and> fst ` set new = {0..<length [2, 1 :: nat]} \<and>
        (\<forall>i<length [2, 1 :: nat]. retried ?B (calls_of i new)) \<and>
        (\<exists>order. distinct order \<and> set order = {0..<length [2, 1 :: nat]} \<and>
           results outB = fulfilled (map (\<lambda>i. last (calls_of i new)) order) \<and>
           errors outB = rejected (map (\<lambda>i. last (calls_of i new)) order)))"
    by (elim exE conjE) (rule that; assumption)
  from b1 have outB: "outB = \<lparr> results = [11], errors = [?m] \<rparr>" and wB: "wB = ?new"
    unfolding runB by simp_all
  from rB rec
  have "0 \<le> retries ?B \<and> records_calls (\<lambda>made. made) example_recorder ?B"
    by (rule conjI)
  with b2
  have "\<exists>new. wB = [] @ new \<and> fst ` set new = {0..<length [2, 1 :: nat]} \<and>
        (\<forall>i<length [2, 1 :: nat]. retried ?B (calls_of i new)) \<and>
        (\<exists>order. distinct order \<and> set order = {0..<length [2, 1 :: nat]} \<and>
           results outB = fulfilled (map (\<lambda>i. last (calls_of i new)) order) \<and>
           errors outB = rejected (map (\<lambda>i. last (calls_of i new)) order))"
    by (rule mp)
  then obtain new where n:
    "wB = [] @ new \<and> fst ` set new = {0..<length [2, 1 :: nat]} \<and>
     (\<forall>i<length [2, 1 :: nat]. retried ?B (calls_of i new)) \<and>
     (\<exists>order. distinct order \<and> set order = {0..<length [2, 1 :: nat]} \<and>
        results outB = fulfilled (map (\<lambda>i. last (calls_of i new)) order) \<and>
        errors outB = rejected (map (\<lambda>i. last (calls_of i new)) order))" ..
  note n1 = n [THEN conjunct1]
    and n2 = n [THEN conjunct2, THEN conjunct1]
    and n3 = n [THEN conjunct2, THEN conjunct2, THEN conjunct1]
    and n4 = n [THEN conjunct2, THEN conjunct2, THEN conjunct2]
  from n1 wB have new: "new = ?new"
    by simp
  from n2 have m2: "fst ` set new = {0..<2}"
    unfolding lB .
  from n3 have all: "\<forall>i<2. retried ?B (calls_of i new)"
    unfolding lB .
  have l0: "(0 :: nat) < 2" and l1: "(1 :: nat) < 2"
    by simp_all
  note m3 = all [rule_format, OF l0] all [rule_format, OF l1]
  from n4
  have m4: "\<exists>order. distinct order \<and> set order = {0..<2} \<and>
              [11] = fulfilled (map (\<lambda>i. last (calls_of i new)) order) \<and>
              [?m] = rejected (map (\<lambda>i. last (calls_of i new)) order)"
    unfolding lB outB by (simp only: BatchOutcome.select_convs)
  have "processBatch [1, 0, 1] [2, 1] example_recorder ?B [] =
          (Inr \<lparr> results = [11], errors = [?m] \<rparr>, new)"
    unfolding new by (rule runB)
  moreover have "calls_of 0 new = [Inl ?m, Inl ?m, Inl ?m, Inl ?m]"
    unfolding new by (rule c0)
  moreover have "calls_of 1 new = [Inl (Error ''try again''), Inr 11]"
    unfolding new by (rule c1)
  moreover note m2 m3 m4
  ultimately
  have "processBatch [1, 0, 1] [2, 1] example_recorder ?B [] =
          (Inr \<lparr> results = [11], errors = [?m] \<rparr>, new) \<and>
        calls_of 0 new = [Inl ?m, Inl ?m, Inl ?m, Inl ?m] \<and>
        calls_of 1 new = [Inl (Error ''try again''), Inr 11] \<and>
        fst ` set new = {0..<2} \<and>
        retried ?B (calls_of 0 new) \<and> retried ?B (calls_of 1 new) \<and>
        (\<exists>order. distinct order \<and> set order = {0..<2} \<and>
           [11] = fulfilled (map (\<lambda>i. last (calls_of i new)) order) \<and>
           [?m] = rejected (map (\<lambda>i. last (calls_of i new)) order))"
    by (intro conjI)
  then have "\<exists>new.
      processBatch [1, 0, 1] [2, 1] example_recorder ?B [] =
        (Inr \<lparr> results = [11], errors = [?m] \<rparr>, new) \<and>
      calls_of 0 new = [Inl ?m, Inl ?m, Inl ?m, Inl ?m] \<and>
      calls_of 1 new = [Inl (Error ''try again''), Inr 11] \<and>
      fst ` set new = {0..<2} \<and>
      retried ?B (calls_of 0 new) \<and> retried ?B (calls_of 1 new) \<and>
      (\<exists>order. distinct order \<and> set order = {0..<2} \<and>
         [11] = fulfilled (map (\<lambda>i. last (calls_of i new)) order) \<and>
         [?m] = rejected (map (\<lambda>i. last (calls_of i new)) order))"
    by (rule exI)
  with runA A show ?thesis
    by (intro conjI)
qed

section \<open>Properties: link normalisation\<close>

text \<open>A string of one or more decimal digits.\<close>

definition numeric :: "string \<Rightarrow> bool" where
  "numeric ds = (ds \<noteq> [] \<and> list_all is_digit ds)"

lemma ms_Plus_all:
  assumes "ds \<noteq> []" and "list_all (in_class cl) ds"
  shows "ms (Plus cl) ds = ([], None) # map (\<lambda>k. (drop k ds, None)) (rev [1..<length ds])"
proof -
  have tw: "takeWhile (in_class cl) ds = ds"
    using assms(2) by (simp add: list_all_iff)
  have "[1..<Suc (length ds)] = [1..<length ds] @ [length ds]"
    using assms(1) by (cases ds) simp_all
  then show ?thesis
    by (simp add: tw)
qed

lemma standard_first_way:
  assumes "numeric ds"
  shows "\<exists>other. ms (seq (http_www @ [Lit ''douyin.com/video/'', Group (Plus Digit)]))
                  (''https://www.douyin.com/video/'' @ ds) = ([], Some ds) # other"
proof -
  have p: "ms (Plus Digit) ds =
             ([], None) # map (\<lambda>k. (drop k ds, None)) (rev [1..<length ds])"
    using assms by (intro ms_Plus_all) (simp_all add: numeric_def list_all_iff)
  show ?thesis
    by (simp add: seq_def http_www_def p del: ms.simps(4))
qed

lemma standard_match:
  assumes "numeric ds"
  shows "regex_match (seq (http_www @ [Lit ''douyin.com/video/'', Group (Plus Digit)]))
           (createStandardUrl ds) = Some (Some ds)"
proof -
  from standard_first_way [OF assms] obtain other where
    "ms (seq (http_www @ [Lit ''douyin.com/video/'', Group (Plus Digit)]))
       (''https://www.douyin.com/video/'' @ ds) = ([], Some ds) # other"
    by blast
  then show ?thesis
    by (simp add: createStandardUrl_def)
qed

lemma getLinkType_standard:
  assumes "numeric ds"
  shows "getLinkType (createStandardUrl ds) = Some (hd DOUYIN_LINK_PATTERNS)"
  using standard_match [OF assms]
  by (simp add: getLinkType_def DOUYIN_LINK_PATTERNS_def regex_test_def)

lemma extractVideoId_standard:
  assumes "numeric ds"
  shows "extractVideoId E (createStandardUrl ds) = Some ds"
proof -
  have "ds \<noteq> []"
    using assms by (simp add: numeric_def)
  then have "extract_loop DOUYIN_LINK_PATTERNS (createStandardUrl ds) = Some ds"
    using standard_match [OF assms] by (simp add: DOUYIN_LINK_PATTERNS_def)
  then show ?thesis
    by (simp add: extractVideoId_def)
qed

text \<open>
  C4.  For every valid standard-form video URL \<open>u\<close>, the canonical
  \<open>https://www.douyin.com/video/{id}\<close> with an id of one or more digits, \<open>resolveLink(u)\<close>
  returns a result that is not null, with \<open>standardUrl\<close> equal to \<open>u\<close> (and the id of
  \<open>u\<close>, the type \<open>video\<close>, and no request sent).
\<close>

theorem resolveLink_canonical_fixed_point:
  assumes "numeric ds" and "u = ''https://www.douyin.com/video/'' @ ds"
  shows "\<exists>r. resolveLink E u n w = (Some r, w) \<and> standardUrl r = u \<and> video_id r = ds \<and>
             originalUrl r = u \<and> kind r = Video"
proof -
  have u: "u = createStandardUrl ds"
    using assms(2) by (simp add: createStandardUrl_def)
  have t: "getLinkType u = Some (hd DOUYIN_LINK_PATTERNS)"
    unfolding u using assms(1) by (rule getLinkType_standard)
  have d: "\<not> needsRedirect (hd DOUYIN_LINK_PATTERNS)"
          "lp_name (hd DOUYIN_LINK_PATTERNS) = ''standard''"
    by (simp_all add: DOUYIN_LINK_PATTERNS_def)
  have x: "extractVideoId E u = Some ds"
    unfolding u using assms(1) by (rule extractVideoId_standard)
  show ?thesis
    using t d x by (simp add: resolveLink_def Let_def kind_of_def u [symmetric])
qed

text \<open>The theorem at the URL of the video 7123456789.\<close>

theorem resolveLink_canonical_fixed_point_witness:
  "\<exists>r. resolveLink (redirect_env []) ''https://www.douyin.com/video/7123456789'' 3 world0 =
          (Some r, world0) \<and>
        standardUrl r = ''https://www.douyin.com/video/7123456789'' \<and>
        video_id r = ''7123456789''"
proof -
  have n: "numeric ''7123456789''"
    by code_simp
  have u: "''https://www.douyin.com/video/7123456789'' =
             ''https://www.douyin.com/video/'' @ ''7123456789''"
    by simp
  from resolveLink_canonical_fixed_point [OF n u, of "redirect_env []" 3 world0]
  show ?thesis by blast
qed

lemma createStandardUrl_not_empty: "createStandardUrl v \<noteq> []"
  by (simp add: createStandardUrl_def)

lemma resolveShortUrl_of_final:
  assumes "withRetry (fetch_final_url E u)
             ((DEFAULT_RETRY_OPTIONS :: world RetryOptions)\<lparr>retries := n\<rparr>) w = (Inr f, w1)"
      and "extractVideoId E f = Some v"
  shows "resolveShortUrl E u n w = (Some (createStandardUrl v), w1)"
  using assms by (simp add: resolveShortUrl_def)

text \<open>
  Where the standard URL is the canonical one.  When \<open>resolveLink\<close> returns a result that
  is not null, its \<open>standardUrl\<close> is \<open>https://www.douyin.com/video/{id}\<close> for its own \<open>id\<close>
  if the link is of the direct (standard) type, or if it is resolved by a redirect whose
  final URL carries an id of digits only.
\<close>

lemma resolveLink_standardUrl_of_id:
  assumes "resolveLink E u n w = (Some r, w1)"
      and "(\<exists>p. getLinkType u = Some p \<and> \<not> needsRedirect p) \<or>
           (\<exists>f w2 v.
              withRetry (fetch_final_url E u)
                ((DEFAULT_RETRY_OPTIONS :: world RetryOptions)\<lparr>retries := n\<rparr>) w = (Inr f, w2) \<and>
              extractVideoId E f = Some v \<and> numeric v)"
  shows "standardUrl r = createStandardUrl (video_id r)"
proof -
  from assms(1) obtain p where p: "getLinkType u = Some p"
    by (cases "getLinkType u") (simp_all add: resolveLink_def)
  show ?thesis
  proof (cases "needsRedirect p")
    case False
    with assms(1) p show ?thesis
      by (auto simp: resolveLink_def Let_def split: option.splits)
  next
    case True
    with assms(2) p obtain f w2 v where
      f: "withRetry (fetch_final_url E u)
            ((DEFAULT_RETRY_OPTIONS :: world RetryOptions)\<lparr>retries := n\<rparr>) w = (Inr f, w2)"
      and v: "extractVideoId E f = Some v" "numeric v"
      by auto
    have s: "resolveShortUrl E u n w = (Some (createStandardUrl v), w2)"
      using f v(1) by (rule resolveShortUrl_of_final)
    have x: "extractVideoId E (createStandardUrl v) = Some v"
      using v(2) by (rule extractVideoId_standard)
    from assms(1) p True s x show ?thesis
      by (auto simp: resolveLink_def createStandardUrl_not_empty)
  qed
qed

text \<open>
  The lemma at a short link that redirects to the page of the video 7123456789.
\<close>

lemma resolveLink_standardUrl_of_id_example:
  "standardUrl
     (the (fst (resolveLink
                  (redirect_env ''https://www.douyin.com/video/7123456789?previous_page=app'')
                  ''https://v.douyin.com/abc123/'' 3 world0))) =
   createStandardUrl
     (video_id
        (the (fst (resolveLink
                     (redirect_env ''https://www.douyin.com/video/7123456789?previous_page=app'')
                     ''https://v.douyin.com/abc123/'' 3 world0))))"
proof -
  let ?E = "redirect_env ''https://www.douyin.com/video/7123456789?previous_page=app''"
  let ?u = "''https://v.douyin.com/abc123/''"
  let ?r = "\<lparr> video_id = ''7123456789'',
               standardUrl = ''https://www.douyin.com/video/7123456789'',
               originalUrl = ?u, kind = Video \<rparr>"
  let ?w1 = "\<lparr> calls = 1, files = {}, log = [Fetch ?u] \<rparr>"
  have a: "resolveLink ?E ?u 3 world0 = (Some ?r, ?w1)"
    by code_simp
  have f: "withRetry (fetch_final_url ?E ?u)
             ((DEFAULT_RETRY_OPTIONS :: world RetryOptions)\<lparr>retries := 3\<rparr>) world0 =
             (Inr ''https://www.douyin.com/video/7123456789?previous_page=app'', ?w1)"
    by code_simp
  have v: "extractVideoId ?E ''https://www.douyin.com/video/7123456789?previous_page=app'' =
             Some ''7123456789''"
    by code_simp
  have n: "numeric ''7123456789''"
    by code_simp
  have "standardUrl ?r = createStandardUrl (video_id ?r)"
    using resolveLink_standardUrl_of_id [OF a] f v n by blast
  then show ?thesis
    by (simp add: a)
qed

text \<open>
  C3 fails on the redirect path, where \<open>resolveLink\<close> takes the URL that \<open>resolveShortUrl\<close>
  returns as \<open>standardUrl\<close> and extracts the \<open>id\<close> from it again.

  \<^item> When the final URL of a short link is \<open>https://www.iesdouyin.com/share/x?vid=12abc\<close>,
    \<open>resolveShortUrl\<close> takes the id \<open>12abc\<close> (the pattern with \<open>vid=\<close> captures every
    character up to the next \<open>&\<close>) and makes the URL \<open>.../video/12abc\<close>, from which
    \<open>resolveLink\<close> extracts the id \<open>12\<close> (the standard pattern captures digits).

  \<^item> When the final URL is a share link of \<open>www.iesdouyin.com\<close> that carries no id the
    patterns know, \<open>resolveShortUrl\<close> sends the request again and returns the final URL of
    the answer as it is, here \<open>.../video/7123456789?previous_page=app\<close> with its query
    string.

  In both runs the result is not null and its \<open>standardUrl\<close> is not
  \<open>https://www.douyin.com/video/{id}\<close> for its \<open>id\<close>.
\<close>

theorem resolveLink_standardUrl_not_canonical:
  "fst (resolveLink (redirect_env ''https://www.iesdouyin.com/share/x?vid=12abc'')
          ''https://v.douyin.com/abc123/'' 3 world0) =
     Some \<lparr> video_id = ''12'', standardUrl = ''https://www.douyin.com/video/12abc'',
            originalUrl = ''https://v.douyin.com/abc123/'', kind = Video \<rparr> \<and>
   createStandardUrl ''12'' \<noteq> ''https://www.douyin.com/video/12abc'' \<and>
   fst (resolveLink share_env ''https://v.douyin.com/abc123/'' 3 world0) =
     Some \<lparr> video_id = ''7123456789'',
            standardUrl = ''https://www.douyin.com/video/7123456789?previous_page=app'',
            originalUrl = ''https://v.douyin.com/abc123/'', kind = Video \<rparr> \<and>
   createStandardUrl ''7123456789'' \<noteq>
     ''https://www.douyin.com/video/7123456789?previous_page=app''"
  by code_simp

section \<open>Properties: the paginated fetch\<close>

text \<open>The cursors of the page requests of a run, in order.\<close>

fun page_requests :: "event list \<Rightarrow> int list" where
  "page_requests [] = []"
| "page_requests (PageRequest c # es) = c # page_requests es"
| "page_requests (e # es) = page_requests es"

lemma fetchWithRetry_first_success:
  assumes "fetcher w = (Inr v, w1)" and "0 \<le> maxRetries cfg"
  shows "fetchWithRetry fetcher cfg w = (Inr v, w1)"
  unfolding fetchWithRetry_def using assms by (subst fetchWithRetry_loop.simps) simp

lemma fetchWithRetry_not_retryable:
  assumes "fetcher w = (Inl e, w1)" and "0 \<le> maxRetries cfg" and "\<not> isRetryableError e"
  shows "fetchWithRetry fetcher cfg w = (Inl e, w1)"
  unfolding fetchWithRetry_def using assms by (subst fetchWithRetry_loop.simps) simp

lemma enhancedFetch_first_ok:
  assumes "net E (calls w) u = Inr response" and "ok response"
  shows "enhancedFetch E u w = (Inr response, emit (Fetch u) (w\<lparr>calls := calls w + 1\<rparr>))"
  unfolding enhancedFetch_def DEFAULT_FETCH_RETRIES_def using assms
  by (subst enhancedFetch_loop.simps) (simp add: fetch_def)

lemma page_requests_append: "page_requests (xs @ ys) = page_requests xs @ page_requests ys"
  by (induction xs rule: page_requests.induct) simp_all

lemma stale_page:
  "\<exists>w1. fetchUserVideoPage stale_env apiUrl secUserId cursor cookie w =
          (Inr \<lparr> videos = [toUserVideoItem example_item], nextCursor = 0, hasMoreData = True,
                 page_total = None \<rparr>, w1) \<and>
        page_requests (log w1) = page_requests (log w)"
proof -
  let ?u = "apiUrl @ (if str_includes apiUrl ''?'' then ''&'' else ''?'') @
            queryString (page_params secUserId cursor)"
  let ?w1 = "emit (Fetch ?u) (w\<lparr>calls := calls w + 1\<rparr>)"
  have "net stale_env (calls w) ?u = Inr (json_response (more_page 0))"
    by (simp add: stale_env_def pages_env_def)
  moreover have "ok (json_response (more_page 0))"
    by (simp add: ok_def json_response_def)
  ultimately have "enhancedFetch stale_env ?u w = (Inr (json_response (more_page 0)), ?w1)"
    by (rule enhancedFetch_first_ok)
  then have "page_fetcher stale_env apiUrl secUserId cursor w =
      (Inr \<lparr> videos = [toUserVideoItem example_item], nextCursor = 0, hasMoreData = True,
             page_total = None \<rparr>, ?w1)"
    by (simp add: page_fetcher_def douyinApiGet_def getJson_def Let_def json_response_def
        read_page_def more_page_def)
  then have "fetchWithRetry (page_fetcher stale_env apiUrl secUserId cursor)
               DEFAULT_RETRY_CONFIG w =
      (Inr \<lparr> videos = [toUserVideoItem example_item], nextCursor = 0, hasMoreData = True,
             page_total = None \<rparr>, ?w1)"
    by (rule fetchWithRetry_first_success) (simp add: DEFAULT_RETRY_CONFIG_def)
  moreover have "page_requests (log ?w1) = page_requests (log w)"
    by (simp add: emit_def page_requests_append)
  ultimately show ?thesis
    unfolding fetchUserVideoPage_def by blast
qed

lemma stale_loop_never_returns:
  "fetchUserVideos_loop fuel stale_env apiUrl secUserId cookie 0 None rs cursor True
     totalEstimated w = None"
proof (induction fuel arbitrary: rs cursor totalEstimated w)
  case 0
  show ?case
    by (subst fetchUserVideos_loop.simps) simp
next
  case (Suc fuel)
  obtain w1 where
    "fetchUserVideoPage stale_env apiUrl secUserId cursor cookie (emit (PageRequest cursor) w) =
       (Inr \<lparr> videos = [toUserVideoItem example_item], nextCursor = 0, hasMoreData = True,
              page_total = None \<rparr>, w1)"
    using stale_page by blast
  then show ?case
    by (subst fetchUserVideos_loop.simps) (simp add: Suc.IH Let_def)
qed

lemma stale_loop_limit:
  assumes "0 < limit" and "int (length rs) < limit" and "nat limit - length rs \<le> fuel"
  shows "\<exists>out w1.
           fetchUserVideos_loop fuel stale_env apiUrl secUserId cookie limit None rs cursor True
             totalEstimated w = Some (Inr out, w1) \<and>
           page_requests (log w1) =
             page_requests (log w) @ cursor # replicate (nat limit - length rs - 1) 0"
  using assms
proof (induction fuel arbitrary: rs cursor totalEstimated w)
  case 0
  then show ?case by simp
next
  case (Suc fuel)
  obtain w1 where page:
    "fetchUserVideoPage stale_env apiUrl secUserId cursor cookie (emit (PageRequest cursor) w) =
       (Inr \<lparr> videos = [toUserVideoItem example_item], nextCursor = 0, hasMoreData = True,
              page_total = None \<rparr>, w1)"
    and lg: "page_requests (log w1) = page_requests (log (emit (PageRequest cursor) w))"
    using stale_page by blast
  have lg1: "page_requests (log w1) = page_requests (log w) @ [cursor]"
    using lg by (simp add: emit_def page_requests_append)
  show ?case
  proof (cases "limit \<le> int (length rs) + 1")
    case True
    then have "nat limit - length rs - 1 = 0"
      using Suc.prems by simp
    with True Suc.prems page lg1 show ?thesis
      by (subst fetchUserVideos_loop.simps) (simp add: Let_def)
  next
    case False
    let ?rs1 = "rs @ [toUserVideoItem example_item]"
    have "\<exists>out w2.
           fetchUserVideos_loop fuel stale_env apiUrl secUserId cookie limit None ?rs1 0 True
             totalEstimated w1 = Some (Inr out, w2) \<and>
           page_requests (log w2) =
             page_requests (log w1) @ 0 # replicate (nat limit - length ?rs1 - 1) 0"
      using False Suc.prems by (intro Suc.IH) auto
    then obtain out w2 where
      rec: "fetchUserVideos_loop fuel stale_env apiUrl secUserId cookie limit None ?rs1 0 True
              totalEstimated w1 = Some (Inr out, w2)"
      and lg2: "page_requests (log w2) =
                  page_requests (log w1) @ 0 # replicate (nat limit - length ?rs1 - 1) 0"
      by blast
    have "0 # replicate (nat limit - length ?rs1 - 1) (0::int) =
            replicate (nat limit - length rs - 1) 0"
      using False Suc.prems by (cases "nat limit - length rs - 1") auto
    with lg2 lg1 have "page_requests (log w2) =
        page_requests (log w) @ cursor # replicate (nat limit - length rs - 1) 0"
      by simp
    with False Suc.prems page rec show ?thesis
      by (subst fetchUserVideos_loop.simps) (simp add: Let_def)
  qed
qed

text \<open>
  C2 fails on \<open>fetchUserVideos\<close>.  Against an upstream that always reports more pages and
  always returns the cursor 0, and with no item limit, the loop has not returned after any
  number of page requests: there is no stale-cursor guard and no ceiling on the number of
  pages.  With an item limit \<open>L\<close> the same upstream is asked for \<open>L\<close> pages, all with the
  cursor 0, however large \<open>L\<close> is.
\<close>

theorem fetchUserVideos_stale_cursor_runs_on:
  "(\<forall>fuel. fetchUserVideos fuel stale_env example_user_url example_cookie 0 None world0 = None) \<and>
   (\<forall>L. 0 < L \<longrightarrow>
      map_option (\<lambda>(r, w). page_requests (log w))
        (fetchUserVideos (nat L) stale_env example_user_url example_cookie L None world0) =
        Some (replicate (nat L) 0))"
proof -
  have id: "extractSecUserId stale_env example_user_url = Some ''MS4wLjABAAAA''"
    by code_simp
  have ck: "\<not> (example_cookie = [] \<or> list_all is_space example_cookie)"
    by code_simp
  have a: "fetchUserVideos fuel stale_env example_user_url example_cookie 0 None world0 = None"
    for fuel
    using id ck by (simp add: fetchUserVideos_def Let_def stale_loop_never_returns)
  have b: "map_option (\<lambda>(r, w). page_requests (log w))
        (fetchUserVideos (nat L) stale_env example_user_url example_cookie L None world0) =
        Some (replicate (nat L) 0)" if "0 < L" for L
  proof -
    let ?api = "if str_includes example_user_url ''/user'' \<and>
                   str_includes example_user_url ''showTab=like''
                then USER_FAVORITE_API else USER_POST_API"
    have "\<exists>out w1.
        fetchUserVideos_loop (nat L) stale_env ?api ''MS4wLjABAAAA'' example_cookie L None [] 0
          True None world0 = Some (Inr out, w1) \<and>
        page_requests (log w1) =
          page_requests (log world0) @ 0 # replicate (nat L - length ([] :: UserVideoItem list) - 1) 0"
      using that by (intro stale_loop_limit) simp_all
    then obtain out w1 where
      "fetchUserVideos_loop (nat L) stale_env ?api ''MS4wLjABAAAA'' example_cookie L None [] 0
         True None world0 = Some (Inr out, w1)"
      "page_requests (log w1) = page_requests (log world0) @ 0 # replicate (nat L - 1) 0"
      by auto
    moreover have "0 # replicate (nat L - 1) (0::int) = replicate (nat L) 0"
      using that by (cases "nat L") auto
    ultimately show ?thesis
      using id ck by (simp add: fetchUserVideos_def Let_def world0_def)
  qed
  show ?thesis using a b by blast
qed

text \<open>
  The loop is still running after 101 page requests, and an item limit of 150 makes it
  request 150 pages with the same cursor.
\<close>

theorem fetchUserVideos_stale_cursor_runs_on_witness:
  "fetchUserVideos 101 stale_env example_user_url example_cookie 0 None world0 = None \<and>
   map_option (\<lambda>(r, w). page_requests (log w))
     (fetchUserVideos 150 stale_env example_user_url example_cookie 150 None world0) =
     Some (replicate 150 0)"
proof -
  have "(0::int) < 150" by simp
  with fetchUserVideos_stale_cursor_runs_on
  have "map_option (\<lambda>(r, w). page_requests (log w))
     (fetchUserVideos (nat 150) stale_env example_user_url example_cookie 150 None world0) =
     Some (replicate (nat 150) 0)"
    by blast
  then show ?thesis
    using fetchUserVideos_stale_cursor_runs_on by simp
qed

section \<open>Properties: a failing page\<close>

lemma malformed_not_forbidden:
  "\<not> (response_status (Error MSG_FORMAT) = Some 403 \<or>
       str_includes (message (Error MSG_FORMAT)) ''403'')"
  by code_simp

lemma malformed_not_retryable: "\<not> isRetryableError (Error MSG_FORMAT)"
  by code_simp

lemma read_page_malformed:
  "aweme_list response = Missing \<or> aweme_list response = NotArray \<Longrightarrow>
   read_page response = Inl (Error MSG_FORMAT)"
  by (auto simp: read_page_def)

text \<open>
  C5, as the program has it.  Take any point of the loop of \<open>fetchUserVideos\<close> at which
  another page is due, with the items \<open>rs\<close> accumulated so far, and let the request for the
  page end in the error \<open>error\<close> (thrown by the request, or made from the response).
  \<^item> When the error signals a 403 (its \<open>response.status\<close> is 403 or its message contains
    \<open>403\<close>), the loop ends and returns \<open>rs\<close>.
  \<^item> When it does not and the error is not retryable, the loop throws the error.
  \<^item> A malformed response (the item list missing or not an array) is of the second kind:
    its error is thrown and \<open>rs\<close> is not returned.
\<close>

theorem fetchUserVideos_page_failure:
  assumes "limit = 0 \<or> int (length rs) < limit"
      and "douyinApiGet E apiUrl (page_params secUserId cursor) (emit (PageRequest cursor) w) =
             (r, w1)"
      and "(case r of Inl e \<Rightarrow> Inl e | Inr response \<Rightarrow> read_page response) = Inl error"
  shows "(response_status error = Some 403 \<or> str_includes (message error) ''403'' \<longrightarrow>
            fetchUserVideos_loop (Suc fuel) E apiUrl secUserId cookie limit None rs cursor True
              totalEstimated w = Some (Inr rs, w1)) \<and>
         (\<not> (response_status error = Some 403 \<or> str_includes (message error) ''403'') \<and>
          \<not> isRetryableError error \<longrightarrow>
            fetchUserVideos_loop (Suc fuel) E apiUrl secUserId cookie limit None rs cursor True
              totalEstimated w = Some (Inl error, w1)) \<and>
         ((\<exists>response. r = Inr response \<and>
             (aweme_list response = Missing \<or> aweme_list response = NotArray)) \<longrightarrow>
            fetchUserVideos_loop (Suc fuel) E apiUrl secUserId cookie limit None rs cursor True
              totalEstimated w = Some (Inl (Error MSG_FORMAT), w1))"
proof -
  let ?w0 = "emit (PageRequest cursor) w"
  let ?empty = "\<lparr> videos = [], nextCursor = 0, hasMoreData = False, page_total = None \<rparr>"
  have graceful:
    "fetchUserVideos_loop (Suc fuel) E apiUrl secUserId cookie limit None rs cursor True
       totalEstimated w = Some (Inr rs, w1)"
    if f: "response_status error = Some 403 \<or> str_includes (message error) ''403''"
  proof -
    have "page_fetcher E apiUrl secUserId cursor ?w0 = (Inr ?empty, w1)"
      using assms(2,3) f by (simp add: page_fetcher_def)
    then have "fetchUserVideoPage E apiUrl secUserId cursor cookie ?w0 = (Inr ?empty, w1)"
      unfolding fetchUserVideoPage_def
      by (rule fetchWithRetry_first_success) (simp add: DEFAULT_RETRY_CONFIG_def)
    then show ?thesis
      using assms(1) by (subst fetchUserVideos_loop.simps) (auto simp: Let_def)
  qed
  have hard:
    "fetchUserVideos_loop (Suc fuel) E apiUrl secUserId cookie limit None rs cursor True
       totalEstimated w = Some (Inl error, w1)"
    if f: "\<not> (response_status error = Some 403 \<or> str_includes (message error) ''403'')"
      and n: "\<not> isRetryableError error"
  proof -
    have "page_fetcher E apiUrl secUserId cursor ?w0 = (Inl error, w1)"
      using assms(2,3) f by (simp add: page_fetcher_def)
    then have "fetchUserVideoPage E apiUrl secUserId cursor cookie ?w0 = (Inl error, w1)"
      unfolding fetchUserVideoPage_def using n
      by (intro fetchWithRetry_not_retryable) (simp_all add: DEFAULT_RETRY_CONFIG_def)
    then show ?thesis
      using assms(1) by (subst fetchUserVideos_loop.simps) (auto simp: Let_def)
  qed
  have malformed:
    "fetchUserVideos_loop (Suc fuel) E apiUrl secUserId cookie limit None rs cursor True
       totalEstimated w = Some (Inl (Error MSG_FORMAT), w1)"
    if "\<exists>response. r = Inr response \<and>
          (aweme_list response = Missing \<or> aweme_list response = NotArray)"
  proof -
    from that obtain response where
      "r = Inr response" "aweme_list response = Missing \<or> aweme_list response = NotArray"
      by blast
    with assms(3) have "error = Error MSG_FORMAT"
      using read_page_malformed [of response] by simp
    with hard malformed_not_forbidden malformed_not_retryable show ?thesis
      by blast
  qed
  show ?thesis
    using graceful hard malformed by blast
qed

text \<open>
  The theorem at the second page of a run whose first page gave one item and whose every
  later request is answered 403 Forbidden: the loop returns the one item.
\<close>

theorem fetchUserVideos_page_failure_witness:
  "fetchUserVideos_loop 1 forbidden_env USER_POST_API ''MS4wLjABAAAA'' example_cookie 0 None
     [toUserVideoItem example_item] 20 True None after_first_page =
   Some (Inr [toUserVideoItem example_item], after_forbidden_page)"
proof -
  let ?e = "httpError forbidden_response (page_url 20)"
  have c: "(0::int) = 0 \<or> int (length [toUserVideoItem example_item]) < 0"
    by simp
  have g: "douyinApiGet forbidden_env USER_POST_API (page_params ''MS4wLjABAAAA'' 20)
             (emit (PageRequest 20) after_first_page) = (Inl ?e, after_forbidden_page)"
    by code_simp
  have o: "(case (Inl ?e :: js_error + ApiResponse) of
              Inl e \<Rightarrow> Inl e
            | Inr response \<Rightarrow> read_page response) = Inl ?e"
    by simp
  have f: "response_status ?e = Some 403 \<or> str_includes (message ?e) ''403''"
    by code_simp
  from fetchUserVideos_page_failure [OF c g o, of 0 example_cookie None] f
  show ?thesis
    by simp
qed

text \<open>
  C5 as it is written fails for a malformed page: when the second page of a run comes
  without the item list, \<open>fetchUserVideos\<close> throws and the item of the first page is not
  returned.
\<close>

theorem fetchUserVideos_malformed_counterexample:
  "map_option fst
     (fetchUserVideos 5 malformed_env example_user_url example_cookie 0 None world0) =
   Some (Inl (Error MSG_FORMAT))"
  by code_simp

text \<open>The same run against \<open>forbidden_env\<close> returns the item of the first page.\<close>

lemma fetchUserVideos_forbidden_example:
  "map_option fst
     (fetchUserVideos 5 forbidden_env example_user_url example_cookie 0 None world0) =
   Some (Inr [toUserVideoItem example_item])"
  by code_simp

section \<open>Properties: a failed download\<close>



text \<open>The files that cannot be removed.\<close>

definition locked :: "env \<Rightarrow> string set" where
  "locked E = {p. unlinkError E p \<noteq> None}"











text \<open>
  When the file cannot be removed, the same call throws the same error: the file stays and
  the log has the warning.
\<close>

lemma downloadVideo_locked_example:
  "projl (fst (downloadVideo (download_env net_down {''/out/v.mp4''}) example_video
                 ''/out/v.mp4'' retry_once [] world0)) =
     projl (fst (downloadVideo (download_env net_down {}) example_video ''/out/v.mp4''
                   retry_once [] world0)) \<and>
   files (snd (downloadVideo (download_env net_down {''/out/v.mp4''}) example_video
                 ''/out/v.mp4'' retry_once [] world0)) = {''/out/v.mp4''} \<and>
   last (log (snd (downloadVideo (download_env net_down {''/out/v.mp4''}) example_video
                 ''/out/v.mp4'' retry_once [] world0))) = WarnUnlinkFailed ''/out/v.mp4''"
  by code_simp

section \<open>Properties: the fallback URLs\<close>















end
